(* ===== verification/TV_Prelude.thy ===== *)
theory TV_Prelude
  imports Main "HOL-Library.Word"
begin

text \<open>
  Shared vocabulary of the development: the machine integers of the C code, the outcome of a
  run of C code (a value, or one of three ways of not producing one), checked array accesses,
  the ESP-IDF error codes, and the generic lemmas on these that the component theories use.
\<close>

unbundle bit_operations_syntax

named_theorems run_simps \<open>rewriting of runs and of checked array accesses\<close>

subsection \<open>Machine integers\<close>

type_synonym byte = "8 word"      \<comment> \<open>uint8_t, and char where only its bits matter\<close>
type_synonym u16 = "16 word"      \<comment> \<open>uint16_t\<close>
type_synonym u32 = "32 word"      \<comment> \<open>uint32_t, size_t on the ESP32\<close>

subsection \<open>Outcomes of a run\<close>

text \<open>
  \<open>Undef\<close>: the C program reads or writes outside an object or through a null pointer.
  \<open>Abort\<close>: an \<open>assert\<close> or \<open>ESP_ERROR_CHECK\<close> stops the firmware.
  \<open>Blocked\<close>: the task waits for something that never comes.
\<close>

datatype fault = Undef | Abort | Blocked

type_synonym 'a run = "fault + 'a"

definition bindR :: "'a run \<Rightarrow> ('a \<Rightarrow> 'b run) \<Rightarrow> 'b run" where
  "bindR m f = (case m of Inl e \<Rightarrow> Inl e | Inr x \<Rightarrow> f x)"

lemma bindR_simps [simp, run_simps]:
  "bindR (Inl e) f = Inl e"
  "bindR (Inr x) f = f x"
  by (simp_all add: bindR_def)

lemma bindR_cong [fundef_cong]:
  "m = m' \<Longrightarrow> (\<And>x. m' = Inr x \<Longrightarrow> f x = g x) \<Longrightarrow> bindR m f = bindR m' g"
  by (cases m') simp_all

lemma bindR_assoc: "bindR (bindR m f) g = bindR m (\<lambda>x. bindR (f x) g)"
  by (cases m) simp_all

lemma bindR_Inr [simp]: "bindR m Inr = m"
  by (cases m) simp_all

lemma bindR_eq_Inr_iff: "bindR m f = Inr y \<longleftrightarrow> (\<exists>x. m = Inr x \<and> f x = Inr y)"
  by (cases m) simp_all

lemma bindR_InrE:
  assumes "bindR m f = Inr y"
  obtains x where "m = Inr x" "f x = Inr y"
  using assms by (auto simp: bindR_eq_Inr_iff)

lemma bindR_eq_Inl_iff: "bindR m f = Inl e \<longleftrightarrow> m = Inl e \<or> (\<exists>x. m = Inr x \<and> f x = Inl e)"
  by (cases m) simp_all

text \<open>Composing steps that return in a state with a property.\<close>

lemma bindR_total:
  assumes "\<exists>x. m = Inr x \<and> P x" "\<And>x. P x \<Longrightarrow> \<exists>y. f x = Inr y \<and> Q y"
  shows "\<exists>y. bindR m f = Inr y \<and> Q y"
  using assms by fastforce

lemma bindR_if [run_simps]:
  "bindR (if b then m else m') f = (if b then bindR m f else bindR m' f)"
  by simp

subsection \<open>Sequences of operations that keep an invariant\<close>

primrec run_ops :: "('op \<Rightarrow> 's \<Rightarrow> 's run) \<Rightarrow> 'op list \<Rightarrow> 's \<Rightarrow> 's run" where
  "run_ops step [] s = Inr s"
| "run_ops step (x # xs) s = bindR (step x s) (run_ops step xs)"

lemma run_ops_Nil [simp]: "run_ops step [] = Inr"
  by (rule ext) simp

lemma run_ops_append: "run_ops step (xs @ ys) s = bindR (run_ops step xs s) (run_ops step ys)"
  by (induction xs arbitrary: s) (simp_all add: bindR_def split: sum.split)

text \<open>
  What a module that is called again and again promises: in a state that satisfies its invariant an
  operation either returns in such a state, or waits for ever; it never faults.
\<close>

locale safe_ops =
  fixes step :: "'op \<Rightarrow> 's \<Rightarrow> 's run" and inv :: "'s \<Rightarrow> bool"
  assumes keeps: "inv s \<Longrightarrow> step x s = Inr s' \<Longrightarrow> inv s'"
    and only_blocks: "inv s \<Longrightarrow> step x s = Inl e \<Longrightarrow> e = Blocked"
begin

lemma run_keeps: "inv s \<Longrightarrow> run_ops step xs s = Inr s' \<Longrightarrow> inv s'"
  by (induction xs arbitrary: s) (auto simp: bindR_eq_Inr_iff dest: keeps)

lemma run_only_blocks: "inv s \<Longrightarrow> run_ops step xs s = Inl e \<Longrightarrow> e = Blocked"
  by (induction xs arbitrary: s) (auto simp: bindR_eq_Inl_iff dest: keeps only_blocks)

lemma run_safe: "inv s \<Longrightarrow> run_ops step xs s = Inl Blocked \<or> (\<exists>s'. run_ops step xs s = Inr s' \<and> inv s')"
  by (cases "run_ops step xs s") (auto dest: run_keeps run_only_blocks)

end

text \<open>The stronger promise: an operation always returns.\<close>

locale total_ops =
  fixes step :: "'op \<Rightarrow> 's \<Rightarrow> 's run" and inv :: "'s \<Rightarrow> bool"
  assumes total: "inv s \<Longrightarrow> \<exists>s'. step x s = Inr s' \<and> inv s'"
begin

lemma run_total: "inv s \<Longrightarrow> \<exists>s'. run_ops step xs s = Inr s' \<and> inv s'"
proof (induction xs arbitrary: s)
  case (Cons x xs)
  thus ?case using total [of s x] by auto
qed simp

end

sublocale total_ops < safe_ops
proof
  show "inv s' " if "inv s" "step x s = Inr s'" for s x s' using total [OF that(1), of x] that(2) by auto
  show "e = Blocked" if "inv s" "step x s = Inl e" for s x e using total [OF that(1), of x] that(2) by auto
qed

subsection \<open>Checked array accesses\<close>

definition c_read :: "'a list \<Rightarrow> nat \<Rightarrow> 'a run" where
  "c_read xs i = (if i < length xs then Inr (xs ! i) else Inl Undef)"

definition c_write :: "'a list \<Rightarrow> nat \<Rightarrow> 'a \<Rightarrow> 'a list run" where
  "c_write xs i v = (if i < length xs then Inr (xs[i := v]) else Inl Undef)"

lemma c_read_in [simp]: "i < length xs \<Longrightarrow> c_read xs i = Inr (xs ! i)"
  by (simp add: c_read_def)

lemma c_read_out [simp]: "length xs \<le> i \<Longrightarrow> c_read xs i = Inl Undef"
  by (simp add: c_read_def)

lemma c_write_in [simp]: "i < length xs \<Longrightarrow> c_write xs i v = Inr (xs[i := v])"
  by (simp add: c_write_def)

lemma c_write_out [simp]: "length xs \<le> i \<Longrightarrow> c_write xs i v = Inl Undef"
  by (simp add: c_write_def)

lemma c_read_Cons_0 [simp]: "c_read (x # xs) 0 = Inr x"
  by (simp add: c_read_def)

lemma c_read_Cons_Suc [simp]: "c_read (x # xs) (Suc i) = c_read xs i"
  by (simp add: c_read_def)

lemma c_read_eq_Inr_iff: "c_read xs i = Inr v \<longleftrightarrow> i < length xs \<and> v = xs ! i"
  by (auto simp: c_read_def)

text \<open>The value of an expression of type \<open>int\<close>: a result that 32 bits do not hold is undefined.\<close>

definition c_int :: "int \<Rightarrow> int run" where
  "c_int x = (if - (2 ^ 31) \<le> x \<and> x < 2 ^ 31 then Inr x else Inl Undef)"

lemma c_int_in [simp]: "- (2 ^ 31) \<le> x \<Longrightarrow> x < 2 ^ 31 \<Longrightarrow> c_int x = Inr x"
  by (simp add: c_int_def)

lemma c_int_eq_Inr_iff: "c_int x = Inr y \<longleftrightarrow> - (2 ^ 31) \<le> x \<and> x < 2 ^ 31 \<and> y = x"
  by (auto simp: c_int_def)

subsection \<open>ESP-IDF error codes\<close>

type_synonym esp_err_t = u32

definition ESP_OK :: esp_err_t where "ESP_OK = 0"
definition ESP_FAIL :: esp_err_t where "ESP_FAIL = - 1"
definition ESP_ERR_NO_MEM :: esp_err_t where "ESP_ERR_NO_MEM = 0x101"
definition ESP_ERR_INVALID_ARG :: esp_err_t where "ESP_ERR_INVALID_ARG = 0x102"
definition ESP_ERR_INVALID_STATE :: esp_err_t where "ESP_ERR_INVALID_STATE = 0x103"
definition ESP_ERR_NOT_SUPPORTED :: esp_err_t where "ESP_ERR_NOT_SUPPORTED = 0x106"

lemmas esp_err_defs =
  ESP_OK_def ESP_FAIL_def ESP_ERR_NO_MEM_def ESP_ERR_INVALID_ARG_def
  ESP_ERR_INVALID_STATE_def ESP_ERR_NOT_SUPPORTED_def

lemma esp_err_distinct [simp]:
  "ESP_FAIL \<noteq> ESP_OK" "ESP_OK \<noteq> ESP_FAIL"
  "ESP_ERR_NO_MEM \<noteq> ESP_OK" "ESP_OK \<noteq> ESP_ERR_NO_MEM"
  "ESP_ERR_INVALID_ARG \<noteq> ESP_OK" "ESP_OK \<noteq> ESP_ERR_INVALID_ARG"
  "ESP_ERR_INVALID_STATE \<noteq> ESP_OK" "ESP_OK \<noteq> ESP_ERR_INVALID_STATE"
  "ESP_ERR_NOT_SUPPORTED \<noteq> ESP_OK" "ESP_OK \<noteq> ESP_ERR_NOT_SUPPORTED"
  by (simp_all add: esp_err_defs)

text \<open>\<open>ESP_ERROR_CHECK\<close>: anything but \<open>ESP_OK\<close> aborts.\<close>

definition ESP_ERROR_CHECK :: "esp_err_t \<Rightarrow> unit run" where
  "ESP_ERROR_CHECK e = (if e = ESP_OK then Inr () else Inl Abort)"

lemma ESP_ERROR_CHECK_simps [simp]:
  "ESP_ERROR_CHECK ESP_OK = Inr ()"
  "e \<noteq> ESP_OK \<Longrightarrow> ESP_ERROR_CHECK e = Inl Abort"
  by (simp_all add: ESP_ERROR_CHECK_def)

subsection \<open>Bytes of a 16-bit value\<close>

definition hi8 :: "u16 \<Rightarrow> byte" where "hi8 w = ucast (drop_bit 8 w)"
definition lo8 :: "u16 \<Rightarrow> byte" where "lo8 w = ucast w"
definition join16 :: "byte \<Rightarrow> byte \<Rightarrow> u16" where "join16 h l = push_bit 8 (ucast h) OR ucast l"

lemma join16_hi_lo [simp]: "join16 (hi8 w) (lo8 w) = w"
  unfolding join16_def hi8_def lo8_def
  by (rule bit_word_eqI) (auto simp: bit_simps)


subsection \<open>Lists\<close>

lemma take_drop_prefix: "i + n \<le> length xs \<Longrightarrow> take n (drop i (xs @ ys)) = take n (drop i xs)"
  by simp

subsection \<open>Finite quantifiers and conversions that the proofs evaluate\<close>

lemma all_less_iff_upt: "(\<forall>i<n. P i) \<longleftrightarrow> list_all P [0..<n]"
  by (auto simp: list_all_iff)

lemma ucast_of_nat_byte: "n < 256 \<Longrightarrow> (ucast (of_nat n :: byte) :: u32) = of_nat n"
  by (simp add: unsigned_of_nat take_bit_nat_eq_self)

lemma ucast_byte_minus:
  "k + m < 256 \<Longrightarrow> (ucast (of_nat (k + m) :: byte) :: u32) - of_nat k = of_nat m"
  by (simp add: ucast_of_nat_byte del: of_nat_add) simp

lemma push_bit_of_nat32: "push_bit k (of_nat n :: u32) = of_nat (n * 2 ^ k)"
  by (simp add: push_bit_eq_mult)

end
