(* ===== verification/Panel_Io.thy ===== *)
theory Panel_Io
  imports TV_Prelude
begin

text \<open>
  What lies below the display driver: the calls into ESP-IDF (the panel IO bus, GPIO, heap), as a
  log of what was asked of them and parameters for what they answer; and the display controller's
  documented reaction to the bus traffic, the abstract frame memory against which the driver and
  the drawing code are verified.
\<close>

subsection \<open>Bus traffic\<close>

datatype isr_call = IsrInstall | IntrEnable | HandlerAdd | HandlerRemove | IntrDisable

datatype io_ev =
    TxParam byte "byte list"        \<comment> \<open>\<open>esp_lcd_panel_io_tx_param\<close>\<close>
  | TxColor byte "byte list"        \<comment> \<open>\<open>esp_lcd_panel_io_tx_color\<close>\<close>
  | GpioConfig "64 word"            \<comment> \<open>pin mask\<close>
  | GpioSetLevel int bool
  | GpioResetPin int
  | Delay nat                       \<comment> \<open>\<open>vTaskDelay (pdMS_TO_TICKS ms)\<close>\<close>
  | Calloc nat bool               \<comment> \<open>\<open>heap_caps_calloc (1, n, ..)\<close>, and whether it gave a block\<close>
  | Free
  | SemCreate bool                \<comment> \<open>\<open>xSemaphoreCreateBinary\<close>, and whether it gave a semaphore\<close>
  | SemDelete
  | SpiBusInit nat
  | NewPanelIo nat
  | GpioIsr isr_call int          \<comment> \<open>the GPIO interrupt calls, with the pin\<close>

text \<open>
  The parameters give the answer of the call that finds \<open>n\<close> earlier events in the log.
  \<open>irq_pending\<close>: a colour transfer was accepted, and the interrupt that reports its completion
  has not run yet.
\<close>

record io_world =
  io_log :: "io_ev list"
  tx_ret :: "nat \<Rightarrow> u32"
  gpio_ret :: "nat \<Rightarrow> u32"
  calloc_ret :: "nat \<Rightarrow> bool"
  sem_ret :: "nat \<Rightarrow> bool"
  spi_ret :: "nat \<Rightarrow> u32"
  irq_pending :: bool

definition io_emit :: "io_ev \<Rightarrow> 'a io_world_scheme \<Rightarrow> 'a io_world_scheme" where
  "io_emit e w = w\<lparr>io_log := io_log w @ [e]\<rparr>"

definition tx_param :: "byte \<Rightarrow> byte list \<Rightarrow> 'a io_world_scheme \<Rightarrow> u32 \<times> 'a io_world_scheme" where
  "tx_param cmd bs w = (tx_ret w (length (io_log w)), io_emit (TxParam cmd bs) w)"

text \<open>\<open>tx_color\<close> reads \<open>len\<close> bytes from the pointer (\<open>None\<close> is the null pointer).\<close>

definition tx_color ::
  "byte \<Rightarrow> byte list option \<Rightarrow> nat \<Rightarrow> 'a io_world_scheme \<Rightarrow> (u32 \<times> 'a io_world_scheme) run" where
  "tx_color cmd p len w =
     (case p of None \<Rightarrow> Inl Undef
      | Some bs \<Rightarrow>
        if len \<le> length bs
        then let r = tx_ret w (length (io_log w)); w = io_emit (TxColor cmd (take len bs)) w in
             Inr (r, w\<lparr>irq_pending := (irq_pending w \<or> r = ESP_OK)\<rparr>)
        else Inl Undef)"

definition gpio_config :: "64 word \<Rightarrow> 'a io_world_scheme \<Rightarrow> u32 \<times> 'a io_world_scheme" where
  "gpio_config pins w = (gpio_ret w (length (io_log w)), io_emit (GpioConfig pins) w)"

definition gpio_isr :: "isr_call \<Rightarrow> int \<Rightarrow> 'a io_world_scheme \<Rightarrow> u32 \<times> 'a io_world_scheme" where
  "gpio_isr c pin w = (gpio_ret w (length (io_log w)), io_emit (GpioIsr c pin) w)"

definition heap_calloc :: "nat \<Rightarrow> 'a io_world_scheme \<Rightarrow> byte list option \<times> 'a io_world_scheme" where
  "heap_calloc n w =
     (let ok = calloc_ret w (length (io_log w)) in
      ((if ok then Some (replicate n 0) else None), io_emit (Calloc n ok) w))"

definition sem_create :: "'a io_world_scheme \<Rightarrow> bool \<times> 'a io_world_scheme" where
  "sem_create w = (let ok = sem_ret w (length (io_log w)) in (ok, io_emit (SemCreate ok) w))"

definition spi_bus_initialize :: "nat \<Rightarrow> 'a io_world_scheme \<Rightarrow> u32 \<times> 'a io_world_scheme" where
  "spi_bus_initialize host w = (spi_ret w (length (io_log w)), io_emit (SpiBusInit host) w)"

definition new_panel_io_spi :: "nat \<Rightarrow> 'a io_world_scheme \<Rightarrow> u32 \<times> 'a io_world_scheme" where
  "new_panel_io_spi host w = (spi_ret w (length (io_log w)), io_emit (NewPanelIo host) w)"

definition all_ok :: "'a io_world_scheme \<Rightarrow> bool" where
  "all_ok w \<longleftrightarrow> (\<forall>n. tx_ret w n = ESP_OK) \<and> (\<forall>n. gpio_ret w n = ESP_OK) \<and> (\<forall>n. calloc_ret w n) \<and>
     (\<forall>n. sem_ret w n) \<and> (\<forall>n. spi_ret w n = ESP_OK)"

text \<open>A bus on which everything works.\<close>

definition good_io :: io_world where
  "good_io = \<lparr>io_log = [], tx_ret = (\<lambda>_. ESP_OK), gpio_ret = (\<lambda>_. ESP_OK), calloc_ret = (\<lambda>_. True),
     sem_ret = (\<lambda>_. True), spi_ret = (\<lambda>_. ESP_OK), irq_pending = False\<rparr>"

lemma io_emit_simps [simp]:
  "io_log (io_emit e w) = io_log w @ [e]"
  "tx_ret (io_emit e w) = tx_ret w"
  "gpio_ret (io_emit e w) = gpio_ret w"
  "calloc_ret (io_emit e w) = calloc_ret w"
  "sem_ret (io_emit e w) = sem_ret w"
  "spi_ret (io_emit e w) = spi_ret w"
  "irq_pending (io_emit e w) = irq_pending w"
  "io_world.more (io_emit e w) = io_world.more w"
  by (simp_all add: io_emit_def)

subsection \<open>Display commands\<close>

definition LCD_CMD_SWRESET :: byte where "LCD_CMD_SWRESET = 0x01"
definition LCD_CMD_SLPOUT :: byte where "LCD_CMD_SLPOUT = 0x11"
definition LCD_CMD_INVOFF :: byte where "LCD_CMD_INVOFF = 0x20"
definition LCD_CMD_INVON :: byte where "LCD_CMD_INVON = 0x21"
definition LCD_CMD_DISPOFF :: byte where "LCD_CMD_DISPOFF = 0x28"
definition LCD_CMD_DISPON :: byte where "LCD_CMD_DISPON = 0x29"
definition LCD_CMD_CASET :: byte where "LCD_CMD_CASET = 0x2A"
definition LCD_CMD_RASET :: byte where "LCD_CMD_RASET = 0x2B"
definition LCD_CMD_RAMWR :: byte where "LCD_CMD_RAMWR = 0x2C"
definition LCD_CMD_MADCTL :: byte where "LCD_CMD_MADCTL = 0x36"
definition LCD_CMD_COLMOD :: byte where "LCD_CMD_COLMOD = 0x3A"
definition LCD_CMD_BGR_BIT :: byte where "LCD_CMD_BGR_BIT = 0x08"
definition LCD_CMD_MV_BIT :: byte where "LCD_CMD_MV_BIT = 0x20"
definition LCD_CMD_MX_BIT :: byte where "LCD_CMD_MX_BIT = 0x40"
definition LCD_CMD_MY_BIT :: byte where "LCD_CMD_MY_BIT = 0x80"

lemmas lcd_cmd_defs =
  LCD_CMD_SWRESET_def LCD_CMD_SLPOUT_def LCD_CMD_INVOFF_def LCD_CMD_INVON_def LCD_CMD_DISPOFF_def
  LCD_CMD_DISPON_def LCD_CMD_CASET_def LCD_CMD_RASET_def LCD_CMD_RAMWR_def LCD_CMD_MADCTL_def
  LCD_CMD_COLMOD_def

lemmas madctl_bit_defs = LCD_CMD_BGR_BIT_def LCD_CMD_MV_BIT_def LCD_CMD_MX_BIT_def LCD_CMD_MY_BIT_def

subsection \<open>The controller: registers and frame memory\<close>

text \<open>
  The part of the controller that the driver's commands address: the address window, the memory
  access and pixel format registers, display on/off, and the frame memory in the logical
  coordinates the commands use, 16 bits per pixel. A memory write fills the window row by row.
\<close>

record lcd_chip =
  col_start :: nat
  col_end :: nat
  row_start :: nat
  row_end :: nat
  chip_madctl :: byte
  chip_colmod :: byte
  chip_on :: bool
  chip_awake :: bool
  chip_inverted :: bool
  pix :: "nat \<Rightarrow> nat \<Rightarrow> u16"

definition chip_reset :: lcd_chip where
  "chip_reset = \<lparr>col_start = 0, col_end = 0, row_start = 0, row_end = 0, chip_madctl = 0,
     chip_colmod = 0x66, chip_on = False, chip_awake = False, chip_inverted = False,
     pix = (\<lambda>_ _. 0)\<rparr>"

definition pixel_at :: "byte list \<Rightarrow> nat \<Rightarrow> u16" where
  "pixel_at bs k = join16 (bs ! (2 * k)) (bs ! (2 * k + 1))"

definition fill_window :: "byte list \<Rightarrow> lcd_chip \<Rightarrow> lcd_chip" where
  "fill_window bs c = c\<lparr>pix := (\<lambda>x y.
     if col_start c \<le> x \<and> x \<le> col_end c \<and> row_start c \<le> y \<and> y \<le> row_end c \<and>
        2 * ((y - row_start c) * (col_end c - col_start c + 1) + (x - col_start c)) + 1 < length bs
     then pixel_at bs ((y - row_start c) * (col_end c - col_start c + 1) + (x - col_start c))
     else pix c x y)\<rparr>"

definition chip_param :: "byte \<Rightarrow> byte list \<Rightarrow> lcd_chip \<Rightarrow> lcd_chip" where
  "chip_param cmd bs c =
     (if cmd = LCD_CMD_CASET \<and> length bs = 4
      then c\<lparr>col_start := unat (join16 (bs ! 0) (bs ! 1)), col_end := unat (join16 (bs ! 2) (bs ! 3))\<rparr>
      else if cmd = LCD_CMD_RASET \<and> length bs = 4
      then c\<lparr>row_start := unat (join16 (bs ! 0) (bs ! 1)), row_end := unat (join16 (bs ! 2) (bs ! 3))\<rparr>
      else if cmd = LCD_CMD_MADCTL \<and> length bs = 1 then c\<lparr>chip_madctl := bs ! 0\<rparr>
      else if cmd = LCD_CMD_COLMOD \<and> length bs = 1 then c\<lparr>chip_colmod := bs ! 0\<rparr>
      else if cmd = LCD_CMD_DISPON then c\<lparr>chip_on := True\<rparr>
      else if cmd = LCD_CMD_DISPOFF then c\<lparr>chip_on := False\<rparr>
      else if cmd = LCD_CMD_SWRESET then chip_reset\<lparr>pix := pix c\<rparr>
      else if cmd = LCD_CMD_SLPOUT then c\<lparr>chip_awake := True\<rparr>
      else if cmd = LCD_CMD_INVON then c\<lparr>chip_inverted := True\<rparr>
      else if cmd = LCD_CMD_INVOFF then c\<lparr>chip_inverted := False\<rparr>
      else c)"

primrec chip_step :: "io_ev \<Rightarrow> lcd_chip \<Rightarrow> lcd_chip" where
  "chip_step (TxParam cmd bs) c = chip_param cmd bs c"
| "chip_step (TxColor cmd bs) c = (if cmd = LCD_CMD_RAMWR then fill_window bs c else c)"
| "chip_step (GpioConfig pins) c = c"
| "chip_step (GpioSetLevel pin level) c = c"
| "chip_step (GpioResetPin pin) c = c"
| "chip_step (Delay ms) c = c"
| "chip_step (Calloc n ok) c = c"
| "chip_step Free c = c"
| "chip_step (SemCreate ok) c = c"
| "chip_step SemDelete c = c"
| "chip_step (SpiBusInit host) c = c"
| "chip_step (NewPanelIo host) c = c"
| "chip_step (GpioIsr call pin) c = c"

definition chip_of :: "'a io_world_scheme \<Rightarrow> lcd_chip" where
  "chip_of w = fold chip_step (io_log w) chip_reset"

lemma chip_of_emit [simp]: "chip_of (io_emit e w) = chip_step e (chip_of w)"
  by (simp add: chip_of_def)

lemma chip_of_cong: "io_log w = io_log w' \<Longrightarrow> chip_of w = chip_of w'"
  by (simp add: chip_of_def)

lemma chip_of_irq [simp]: "chip_of (w\<lparr>irq_pending := b\<rparr>) = chip_of w"
  by (simp add: chip_of_def)

lemma all_ok_emit [simp]: "all_ok (io_emit e w) = all_ok w"
  by (simp add: all_ok_def)

lemma all_ok_irq [simp]: "all_ok (w\<lparr>irq_pending := b\<rparr>) = all_ok w"
  by (simp add: all_ok_def)

lemma all_ok_answers:
  assumes "all_ok w"
  shows "tx_ret w n = ESP_OK" "gpio_ret w n = ESP_OK" "calloc_ret w n" "sem_ret w n"
    "spi_ret w n = ESP_OK"
  using assms by (auto simp: all_ok_def)

subsection \<open>What a drawing operation is to do to the frame\<close>

type_synonym frame = "nat \<Rightarrow> nat \<Rightarrow> u16"

definition frame :: "'a io_world_scheme \<Rightarrow> frame" where
  "frame w = pix (chip_of w)"

text \<open>\<open>blit xs ys xe ye bs\<close>: put the pixels \<open>bs\<close>, row by row, into the half-open rectangle.\<close>

definition blit :: "nat \<Rightarrow> nat \<Rightarrow> nat \<Rightarrow> nat \<Rightarrow> byte list \<Rightarrow> frame \<Rightarrow> frame" where
  "blit xs ys xe ye bs f = (\<lambda>x y.
     if xs \<le> x \<and> x < xe \<and> ys \<le> y \<and> y < ye then pixel_at bs ((y - ys) * (xe - xs) + (x - xs)) else f x y)"

lemma double_less: "k < n \<Longrightarrow> 2 * k + 1 < 2 * (n::nat)"
  by linarith

lemma window_index:
  assumes "xs \<le> x" "x < xe" "ys \<le> y" "y < ye"
  shows "(y - ys) * (xe - xs) + (x - xs) < (xe - xs) * (ye - (ys::nat))"
proof -
  have "(y - ys) * (xe - xs) + (x - xs) < (y - ys) * (xe - xs) + (xe - xs)" using assms by simp
  also have "\<dots> = Suc (y - ys) * (xe - xs)" by simp
  also have "\<dots> \<le> (ye - ys) * (xe - xs)" using assms by (intro mult_right_mono) simp_all
  finally show ?thesis by (simp add: mult.commute)
qed

text \<open>The registers a drawing operation leaves alone.\<close>

definition chip_mode :: "'a io_world_scheme \<Rightarrow> byte \<times> byte \<times> bool \<times> bool \<times> bool" where
  "chip_mode w = (let c = chip_of w in
     (chip_madctl c, chip_colmod c, chip_on c, chip_awake c, chip_inverted c))"

text \<open>Blocks and semaphores handed out and not yet given back.\<close>

primrec res_ev :: "io_ev \<Rightarrow> int \<times> int \<Rightarrow> int \<times> int" where
  "res_ev (TxParam cmd bs) r = r"
| "res_ev (TxColor cmd bs) r = r"
| "res_ev (GpioConfig pins) r = r"
| "res_ev (GpioSetLevel pin level) r = r"
| "res_ev (GpioResetPin pin) r = r"
| "res_ev (Delay ms) r = r"
| "res_ev (Calloc n ok) r = (if ok then (fst r + 1, snd r) else r)"
| "res_ev Free r = (fst r - 1, snd r)"
| "res_ev (SemCreate ok) r = (if ok then (fst r, snd r + 1) else r)"
| "res_ev SemDelete r = (fst r, snd r - 1)"
| "res_ev (SpiBusInit host) r = r"
| "res_ev (NewPanelIo host) r = r"
| "res_ev (GpioIsr call pin) r = r"

definition held :: "'a io_world_scheme \<Rightarrow> int \<times> int" where
  "held w = fold res_ev (io_log w) (0, 0)"

lemma held_emit [simp]: "held (io_emit e w) = res_ev e (held w)"
  by (simp add: held_def)

lemma held_irq [simp]: "held (w\<lparr>irq_pending := b\<rparr>) = held w"
  by (simp add: held_def)

lemma frame_irq [simp]: "frame (w\<lparr>irq_pending := b\<rparr>) = frame w"
  by (simp add: frame_def)

lemma chip_mode_irq [simp]: "chip_mode (w\<lparr>irq_pending := b\<rparr>) = chip_mode w"
  by (simp add: chip_mode_def)

text \<open>Events that the controller does not see.\<close>

definition off_bus :: "io_ev \<Rightarrow> bool" where
  "off_bus e = (case e of TxParam _ _ \<Rightarrow> False | TxColor _ _ \<Rightarrow> False | _ \<Rightarrow> True)"

lemma off_bus_simps [simp]:
  "off_bus (Calloc n ok)" "off_bus Free" "off_bus (SemCreate ok)" "off_bus SemDelete"
  "off_bus (GpioSetLevel p l)" "off_bus (GpioConfig m)" "off_bus (GpioResetPin p)"
  "off_bus (Delay ms)" "off_bus (SpiBusInit h)" "off_bus (NewPanelIo h)" "off_bus (GpioIsr c p)"
  by (simp_all add: off_bus_def)

lemma chip_step_off_bus [simp]: "off_bus e \<Longrightarrow> chip_step e c = c"
  by (cases e) (simp_all add: off_bus_def)

lemma off_bus_emit [simp]:
  assumes "off_bus e"
  shows "frame (io_emit e w) = frame w" "chip_mode (io_emit e w) = chip_mode w"
  using assms by (simp_all add: frame_def chip_mode_def)

subsection \<open>Panel handles\<close>

text \<open>
  \<open>esp_lcd_panel_t\<close>, the record of function pointers a driver fills in, and the calls through a
  handle, which refuse a null handle.
\<close>

type_synonym 'd dev_op = "'d io_world_scheme \<Rightarrow> (u32 \<times> 'd io_world_scheme) run"

record 'd lcd_panel =
  pn_del :: "'d dev_op"
  pn_reset :: "'d dev_op"
  pn_init :: "'d dev_op"
  pn_draw_bitmap :: "int \<Rightarrow> int \<Rightarrow> int \<Rightarrow> int \<Rightarrow> byte list option \<Rightarrow> 'd dev_op"
  pn_invert_color :: "bool \<Rightarrow> 'd dev_op"
  pn_set_gap :: "int \<Rightarrow> int \<Rightarrow> 'd dev_op"
  pn_mirror :: "bool \<Rightarrow> bool \<Rightarrow> 'd dev_op"
  pn_swap_xy :: "bool \<Rightarrow> 'd dev_op"
  pn_disp_on_off :: "bool \<Rightarrow> 'd dev_op"

definition on_handle :: "('d lcd_panel \<Rightarrow> 'd dev_op) \<Rightarrow> 'd lcd_panel option \<Rightarrow> 'd dev_op" where
  "on_handle op h w = (case h of None \<Rightarrow> Inr (ESP_ERR_INVALID_ARG, w) | Some p \<Rightarrow> op p w)"

definition esp_lcd_panel_draw_bitmap ::
  "'d lcd_panel option \<Rightarrow> int \<Rightarrow> int \<Rightarrow> int \<Rightarrow> int \<Rightarrow> byte list option \<Rightarrow> 'd dev_op" where
  "esp_lcd_panel_draw_bitmap h xs ys xe ye cd = on_handle (\<lambda>p. pn_draw_bitmap p xs ys xe ye cd) h"

lemma on_handle_Some [simp]: "on_handle op (Some p) w = op p w"
  by (simp add: on_handle_def)

subsection \<open>The contract of a panel's drawing operation\<close>

text \<open>
  What the code above relies on when it calls \<open>draw_bitmap\<close> through a panel handle: on a panel
  that is ready, with a bus that works, a draw inside the addressable range with enough pixels, and
  not more than the driver can count in an \<open>int\<close>, succeeds, puts them into its rectangle and nowhere else, leaves the mode registers and the
  resources alone, and has a completion interrupt coming.
\<close>

locale panel_device =
  fixes draw :: "int \<Rightarrow> int \<Rightarrow> int \<Rightarrow> int \<Rightarrow> byte list option \<Rightarrow> 'd dev_op"
    and ready :: "'d io_world_scheme \<Rightarrow> bool"
  assumes draw_ok: "\<lbrakk>ready w; all_ok w; xs < xe; ys < ye; xe \<le> 65536; ye \<le> 65536;
       2 * ((xe - xs) * (ye - ys)) \<le> length bs; 16 * ((xe - xs) * (ye - ys)) < 2 ^ 31\<rbrakk> \<Longrightarrow>
     \<exists>w'. draw (int xs) (int ys) (int xe) (int ye) (Some bs) w = Inr (ESP_OK, w') \<and>
       frame w' = blit xs ys xe ye bs (frame w) \<and> chip_mode w' = chip_mode w \<and>
       held w' = held w \<and> irq_pending w' \<and> all_ok w' \<and> ready w'"
    and ready_emit: "ready (io_emit e w) = ready w"
    and ready_irq: "ready (w\<lparr>irq_pending := b\<rparr>) = ready w"

end
