(* ===== verification/Esp_Touch.thy ===== *)
theory Esp_Touch
  imports Panel_Io
begin

text \<open>
  \<open>managed_components/espressif__esp_lcd_touch/esp_lcd_touch.c\<close>: the part of the touch driver that is
  the same for all touch controllers. A controller driver fills in function pointers; where one is
  missing, the orientation flags are applied in software.
\<close>

subsection \<open>Data\<close>

text \<open>The coordinate arrays the caller passes, and the number of points found.\<close>

record points =
  pt_x :: "u16 list"
  pt_y :: "u16 list"
  pt_strength :: "u16 list"
  pt_num :: byte

record touch_config =
  x_max :: u16
  y_max :: u16
  rst_gpio_num :: int
  int_gpio_num :: int
  level_interrupt :: bool
  flag_swap_xy :: bool
  flag_mirror_x :: bool
  flag_mirror_y :: bool
  process_coordinates :: "(points \<Rightarrow> byte \<Rightarrow> points) option"
  interrupt_callback :: "nat option"
  user_data :: "nat option"

record 'd touch_t =
  tp_enter_sleep :: "'d dev_op option"
  tp_exit_sleep :: "'d dev_op option"
  tp_read_data :: "'d dev_op option"
  tp_get_xy :: "(points \<Rightarrow> byte \<Rightarrow> 'd io_world_scheme \<Rightarrow> (bool \<times> points \<times> 'd io_world_scheme) run) option"
  tp_set_swap_xy :: "(bool \<Rightarrow> 'd dev_op) option"
  tp_get_swap_xy :: "('d io_world_scheme \<Rightarrow> (u32 \<times> bool \<times> 'd io_world_scheme) run) option"
  tp_set_mirror_x :: "(bool \<Rightarrow> 'd dev_op) option"
  tp_get_mirror_x :: "('d io_world_scheme \<Rightarrow> (u32 \<times> bool \<times> 'd io_world_scheme) run) option"
  tp_set_mirror_y :: "(bool \<Rightarrow> 'd dev_op) option"
  tp_get_mirror_y :: "('d io_world_scheme \<Rightarrow> (u32 \<times> bool \<times> 'd io_world_scheme) run) option"
  tp_get_button_state :: "(byte \<Rightarrow> byte \<Rightarrow> 'd io_world_scheme \<Rightarrow> (u32 \<times> byte \<times> 'd io_world_scheme) run) option"
  tp_del :: "'d dev_op option"
  tp_config :: touch_config

text \<open>\<open>assert (tp != NULL)\<close>.\<close>

definition on_tp :: "('d touch_t \<Rightarrow> 'r run) \<Rightarrow> 'd touch_t option \<Rightarrow> 'r run" where
  "on_tp f tp = (case tp of None \<Rightarrow> Inl Abort | Some t \<Rightarrow> f t)"

lemma on_tp_simps [simp]: "on_tp f None = Inl Abort" "on_tp f (Some t) = f t"
  by (simp_all add: on_tp_def)

subsection \<open>Sleep, read, delete\<close>

definition esp_lcd_touch_enter_sleep :: "'d touch_t option \<Rightarrow> 'd dev_op" where
  "esp_lcd_touch_enter_sleep tp w = on_tp (\<lambda>t.
     case tp_enter_sleep t of None \<Rightarrow> Inr (ESP_FAIL, w) | Some f \<Rightarrow> f w) tp"

definition esp_lcd_touch_exit_sleep :: "'d touch_t option \<Rightarrow> 'd dev_op" where
  "esp_lcd_touch_exit_sleep tp w = on_tp (\<lambda>t.
     case tp_exit_sleep t of None \<Rightarrow> Inr (ESP_FAIL, w) | Some f \<Rightarrow> f w) tp"

definition esp_lcd_touch_read_data :: "'d touch_t option \<Rightarrow> 'd dev_op" where
  "esp_lcd_touch_read_data tp w = on_tp (\<lambda>t.
     case tp_read_data t of None \<Rightarrow> Inl Abort | Some f \<Rightarrow> f w) tp"

definition esp_lcd_touch_del :: "'d touch_t option \<Rightarrow> 'd dev_op" where
  "esp_lcd_touch_del tp w = on_tp (\<lambda>t.
     case tp_del t of None \<Rightarrow> Inr (ESP_OK, w) | Some f \<Rightarrow> f w) tp"

text \<open>The state of button \<open>n\<close>; the result starts as 0.\<close>

definition esp_lcd_touch_get_button_state ::
  "'d touch_t option \<Rightarrow> byte \<Rightarrow> 'd io_world_scheme \<Rightarrow> (u32 \<times> byte \<times> 'd io_world_scheme) run" where
  "esp_lcd_touch_get_button_state tp n w = on_tp (\<lambda>t.
     case tp_get_button_state t of Some f \<Rightarrow> f n 0 w | None \<Rightarrow> Inr (ESP_ERR_NOT_SUPPORTED, 0, w)) tp"

subsection \<open>Orientation flags\<close>

definition esp_lcd_touch_set_swap_xy ::
  "'d touch_t option \<Rightarrow> bool \<Rightarrow> 'd io_world_scheme \<Rightarrow> (u32 \<times> 'd touch_t \<times> 'd io_world_scheme) run" where
  "esp_lcd_touch_set_swap_xy tp swap w = on_tp (\<lambda>t.
     let t = t\<lparr>tp_config := (tp_config t)\<lparr>flag_swap_xy := swap\<rparr>\<rparr> in
     case tp_set_swap_xy t of
       Some f \<Rightarrow> bindR (f swap w) (\<lambda>(e, w). Inr (e, t, w))
     | None \<Rightarrow> Inr (ESP_OK, t, w)) tp"

definition esp_lcd_touch_get_swap_xy ::
  "'d touch_t option \<Rightarrow> 'd io_world_scheme \<Rightarrow> (u32 \<times> bool \<times> 'd io_world_scheme) run" where
  "esp_lcd_touch_get_swap_xy tp w = on_tp (\<lambda>t.
     case tp_get_swap_xy t of Some f \<Rightarrow> f w | None \<Rightarrow> Inr (ESP_OK, flag_swap_xy (tp_config t), w)) tp"

definition esp_lcd_touch_set_mirror_x ::
  "'d touch_t option \<Rightarrow> bool \<Rightarrow> 'd io_world_scheme \<Rightarrow> (u32 \<times> 'd touch_t \<times> 'd io_world_scheme) run" where
  "esp_lcd_touch_set_mirror_x tp mirror w = on_tp (\<lambda>t.
     let t = t\<lparr>tp_config := (tp_config t)\<lparr>flag_mirror_x := mirror\<rparr>\<rparr> in
     case tp_set_mirror_x t of
       Some f \<Rightarrow> bindR (f mirror w) (\<lambda>(e, w). Inr (e, t, w))
     | None \<Rightarrow> Inr (ESP_OK, t, w)) tp"

definition esp_lcd_touch_get_mirror_x ::
  "'d touch_t option \<Rightarrow> 'd io_world_scheme \<Rightarrow> (u32 \<times> bool \<times> 'd io_world_scheme) run" where
  "esp_lcd_touch_get_mirror_x tp w = on_tp (\<lambda>t.
     case tp_get_mirror_x t of Some f \<Rightarrow> f w | None \<Rightarrow> Inr (ESP_OK, flag_mirror_x (tp_config t), w)) tp"

definition esp_lcd_touch_set_mirror_y ::
  "'d touch_t option \<Rightarrow> bool \<Rightarrow> 'd io_world_scheme \<Rightarrow> (u32 \<times> 'd touch_t \<times> 'd io_world_scheme) run" where
  "esp_lcd_touch_set_mirror_y tp mirror w = on_tp (\<lambda>t.
     let t = t\<lparr>tp_config := (tp_config t)\<lparr>flag_mirror_y := mirror\<rparr>\<rparr> in
     case tp_set_mirror_y t of
       Some f \<Rightarrow> bindR (f mirror w) (\<lambda>(e, w). Inr (e, t, w))
     | None \<Rightarrow> Inr (ESP_OK, t, w)) tp"

definition esp_lcd_touch_get_mirror_y ::
  "'d touch_t option \<Rightarrow> 'd io_world_scheme \<Rightarrow> (u32 \<times> bool \<times> 'd io_world_scheme) run" where
  "esp_lcd_touch_get_mirror_y tp w = on_tp (\<lambda>t.
     case tp_get_mirror_y t of Some f \<Rightarrow> f w | None \<Rightarrow> Inr (ESP_OK, flag_mirror_y (tp_config t), w)) tp"

subsection \<open>Coordinates\<close>

definition sw_mirror_x :: "'d touch_t \<Rightarrow> bool" where
  "sw_mirror_x t \<longleftrightarrow> flag_mirror_x (tp_config t) \<and> tp_set_mirror_x t = None"

definition sw_mirror_y :: "'d touch_t \<Rightarrow> bool" where
  "sw_mirror_y t \<longleftrightarrow> flag_mirror_y (tp_config t) \<and> tp_set_mirror_y t = None"

definition sw_swap_xy :: "'d touch_t \<Rightarrow> bool" where
  "sw_swap_xy t \<longleftrightarrow> flag_swap_xy (tp_config t) \<and> tp_set_swap_xy t = None"

text \<open>The body of the adjustment loop for point \<open>i\<close>.\<close>

definition adjust_point :: "'d touch_t \<Rightarrow> nat \<Rightarrow> u16 list \<Rightarrow> u16 list \<Rightarrow> (u16 list \<times> u16 list) run" where
  "adjust_point t i x y =
     bindR (if sw_mirror_x t then bindR (c_read x i) (\<lambda>v. c_write x i (x_max (tp_config t) - v)) else Inr x) (\<lambda>x.
     bindR (if sw_mirror_y t then bindR (c_read y i) (\<lambda>v. c_write y i (y_max (tp_config t) - v)) else Inr y) (\<lambda>y.
     if sw_swap_xy t
     then bindR (c_read x i) (\<lambda>tmp.
          bindR (c_read y i) (\<lambda>v.
          bindR (c_write x i v) (\<lambda>x.
          bindR (c_write y i tmp) (\<lambda>y. Inr (x, y)))))
     else Inr (x, y)))"

function adjust_points ::
  "'d touch_t \<Rightarrow> bool \<Rightarrow> nat \<Rightarrow> nat \<Rightarrow> u16 list \<Rightarrow> u16 list \<Rightarrow> (u16 list \<times> u16 list) run" where
  "adjust_points t sw_adj_needed n i x y =
     (if sw_adj_needed \<and> i < n
      then bindR (adjust_point t i x y) (\<lambda>(x, y). adjust_points t sw_adj_needed n (i + 1) x y)
      else Inr (x, y))"
  by pat_completeness auto
termination by (relation "measure (\<lambda>(_, _, n, i, _, _). n - i)") auto

declare adjust_points.simps [simp del]

definition esp_lcd_touch_get_coordinates ::
  "'d touch_t option \<Rightarrow> points \<Rightarrow> byte \<Rightarrow> 'd io_world_scheme \<Rightarrow> (bool \<times> points \<times> 'd io_world_scheme) run" where
  "esp_lcd_touch_get_coordinates tp ps max_point_num w = on_tp (\<lambda>t.
     case tp_get_xy t of None \<Rightarrow> Inl Abort | Some get_xy \<Rightarrow>
     bindR (get_xy ps max_point_num w) (\<lambda>(touched, ps, w).
       if \<not> touched then Inr (False, ps, w)
       else
       let ps = (case process_coordinates (tp_config t) of None \<Rightarrow> ps | Some f \<Rightarrow> f ps max_point_num);
           sw_adj_needed = (sw_mirror_x t \<or> sw_mirror_y t \<or> sw_swap_xy t) in
       bindR (adjust_points t sw_adj_needed (unat (pt_num ps)) 0 (pt_x ps) (pt_y ps)) (\<lambda>(x, y).
       Inr (touched, ps\<lparr>pt_x := x, pt_y := y\<rparr>, w)))) tp"

subsection \<open>The interrupt callback\<close>

definition GPIO_NUM_NC :: int where "GPIO_NUM_NC = - 1"

definition esp_lcd_touch_register_interrupt_callback ::
  "'d touch_t option \<Rightarrow> nat option \<Rightarrow> 'd io_world_scheme \<Rightarrow> (u32 \<times> 'd touch_t \<times> 'd io_world_scheme) run" where
  "esp_lcd_touch_register_interrupt_callback tp callback w = on_tp (\<lambda>t.
     let pin = int_gpio_num (tp_config t) in
     if pin = GPIO_NUM_NC then Inr (ESP_ERR_INVALID_ARG, t, w)
     else
     let t = t\<lparr>tp_config := (tp_config t)\<lparr>interrupt_callback := callback\<rparr>\<rparr> in
     if callback \<noteq> None then
       let (e, w) = gpio_isr IsrInstall 0 w in
       if e \<noteq> ESP_OK \<and> e \<noteq> ESP_ERR_INVALID_STATE then Inr (e, t, w) else
       let (e, w) = gpio_isr IntrEnable pin w in
       if e \<noteq> ESP_OK then Inr (e, t, w) else
       let (e, w) = gpio_isr HandlerAdd pin w in
       if e \<noteq> ESP_OK then Inr (e, t, w) else Inr (ESP_OK, t, w)
     else
       let (e, w) = gpio_isr HandlerRemove pin w in
       if e \<noteq> ESP_OK then Inr (e, t, w) else
       let (e, w) = gpio_isr IntrDisable pin w in
       if e \<noteq> ESP_OK then Inr (e, t, w) else Inr (ESP_OK, t, w)) tp"

definition esp_lcd_touch_register_interrupt_callback_with_data ::
  "'d touch_t option \<Rightarrow> nat option \<Rightarrow> nat option \<Rightarrow> 'd io_world_scheme \<Rightarrow>
    (u32 \<times> 'd touch_t \<times> 'd io_world_scheme) run" where
  "esp_lcd_touch_register_interrupt_callback_with_data tp callback data w = on_tp (\<lambda>t.
     esp_lcd_touch_register_interrupt_callback
       (Some (t\<lparr>tp_config := (tp_config t)\<lparr>user_data := data\<rparr>\<rparr>)) callback w) tp"

subsection \<open>Correctness\<close>

text \<open>
  Reference: a point as the caller wants it, given which of the three changes the software has to make, with
  the coordinates as integers. The changes are made in the order mirroring, swapping.
\<close>

definition oriented :: "bool \<Rightarrow> bool \<Rightarrow> bool \<Rightarrow> u16 \<Rightarrow> u16 \<Rightarrow> u16 \<times> u16 \<Rightarrow> u16 \<times> u16" where
  "oriented mx my sw xm ym = (\<lambda>(x, y).
     let p = (word_of_int (if mx then uint xm - uint x else uint x), word_of_int (if my then uint ym - uint y else uint y)) in
     if sw then prod.swap p else p)"

text \<open>A change is the software's task when its flag is set and the controller's driver has no function for it.\<close>

definition orient :: "'d touch_t \<Rightarrow> u16 \<times> u16 \<Rightarrow> u16 \<times> u16" where
  "orient t = oriented
     (flag_mirror_x (tp_config t) \<and> tp_set_mirror_x t = None)
     (flag_mirror_y (tp_config t) \<and> tp_set_mirror_y t = None)
     (flag_swap_xy (tp_config t) \<and> tp_set_swap_xy t = None)
     (x_max (tp_config t)) (y_max (tp_config t))"

lemmas sw_defs = sw_mirror_x_def sw_mirror_y_def sw_swap_xy_def

lemma orient_eq:
  "orient t (x, y) =
     (let x = (if sw_mirror_x t then x_max (tp_config t) - x else x);
          y = (if sw_mirror_y t then y_max (tp_config t) - y else y) in
      if sw_swap_xy t then (y, x) else (x, y))"
  by (simp add: orient_def oriented_def sw_defs Let_def)

lemma adjust_point_ok:
  assumes "i < length x" "i < length y"
  shows "adjust_point t i x y =
    Inr (x[i := fst (orient t (x ! i, y ! i))], y[i := snd (orient t (x ! i, y ! i))])"
  using assms by (simp add: adjust_point_def orient_eq Let_def)

lemma adjust_points_ok:
  assumes "n \<le> length x" "n \<le> length y" "i \<le> n"
  shows "\<exists>x' y'. adjust_points t True n i x y = Inr (x', y') \<and> length x' = length x \<and> length y' = length y \<and>
    (\<forall>k<length x. x' ! k = (if i \<le> k \<and> k < n then fst (orient t (x ! k, y ! k)) else x ! k)) \<and>
    (\<forall>k<length y. y' ! k = (if i \<le> k \<and> k < n then snd (orient t (x ! k, y ! k)) else y ! k))"
  using assms
proof (induction "n - i" arbitrary: i x y)
  case 0
  thus ?case by (subst adjust_points.simps) auto
next
  case (Suc d)
  have i: "i < n" and d: "d = n - Suc i" using Suc.hyps(2) by simp_all
  let ?x = "x[i := fst (orient t (x ! i, y ! i))]" and ?y = "y[i := snd (orient t (x ! i, y ! i))]"
  have step: "adjust_points t True n i x y = adjust_points t True n (Suc i) ?x ?y"
    using i Suc.prems by (subst adjust_points.simps) (simp add: adjust_point_ok)
  obtain x' y' where r: "adjust_points t True n (Suc i) ?x ?y = Inr (x', y')" "length x' = length x" "length y' = length y"
    "\<forall>k<length x. x' ! k = (if Suc i \<le> k \<and> k < n then fst (orient t (?x ! k, ?y ! k)) else ?x ! k)"
    "\<forall>k<length y. y' ! k = (if Suc i \<le> k \<and> k < n then snd (orient t (?x ! k, ?y ! k)) else ?y ! k)"
    using Suc.hyps(1) [OF d, of ?x ?y] Suc.prems i by auto
  have "x' ! k = (if i \<le> k \<and> k < n then fst (orient t (x ! k, y ! k)) else x ! k)" if "k < length x" for k
    using r(4) that i by (cases "k = i") auto
  moreover have "y' ! k = (if i \<le> k \<and> k < n then snd (orient t (x ! k, y ! k)) else y ! k)" if "k < length y" for k
    using r(5) that i by (cases "k = i") auto
  ultimately show ?case using step r(1-3) by auto
qed

lemma orient_none: "\<not> (sw_mirror_x t \<or> sw_mirror_y t \<or> sw_swap_xy t) \<Longrightarrow> orient t p = p"
  by (cases p) (simp add: orient_eq)

text \<open>
  C34. Coordinates. When the controller reports touched points that fit the arrays and there is no
  user adjustment, \<open>esp_lcd_touch_get_coordinates\<close> reports the touch with every one of those points changed
  as its flags ask and no change made twice: x is subtracted from \<open>x_max\<close> exactly if its flag is set and the
  controller's driver has no mirror function for it, likewise y, and afterwards the two are swapped exactly
  if that flag is set and the driver has no swap function. The rest of the arrays, the strengths and the
  count are left alone.
\<close>

theorem get_coordinates_orients:
  assumes "tp_get_xy t = Some get_xy" "get_xy ps m w = Inr (True, ps1, w1)" "process_coordinates (tp_config t) = None"
    and "unat (pt_num ps1) \<le> length (pt_x ps1)" "unat (pt_num ps1) \<le> length (pt_y ps1)"
  shows "\<exists>ps2. esp_lcd_touch_get_coordinates (Some t) ps m w = Inr (True, ps2, w1) \<and>
    pt_num ps2 = pt_num ps1 \<and> pt_strength ps2 = pt_strength ps1 \<and>
    length (pt_x ps2) = length (pt_x ps1) \<and> length (pt_y ps2) = length (pt_y ps1) \<and>
    (\<forall>k<unat (pt_num ps1). (pt_x ps2 ! k, pt_y ps2 ! k) =
      oriented (flag_mirror_x (tp_config t) \<and> tp_set_mirror_x t = None) (flag_mirror_y (tp_config t) \<and> tp_set_mirror_y t = None)
        (flag_swap_xy (tp_config t) \<and> tp_set_swap_xy t = None) (x_max (tp_config t)) (y_max (tp_config t))
        (pt_x ps1 ! k, pt_y ps1 ! k)) \<and>
    drop (unat (pt_num ps1)) (pt_x ps2) = drop (unat (pt_num ps1)) (pt_x ps1) \<and>
    drop (unat (pt_num ps1)) (pt_y ps2) = drop (unat (pt_num ps1)) (pt_y ps1)"
proof (cases "sw_mirror_x t \<or> sw_mirror_y t \<or> sw_swap_xy t")
  case False
  thus ?thesis unfolding orient_def [symmetric]
    using assms(1-3) orient_none [OF False]
    by (simp add: esp_lcd_touch_get_coordinates_def Let_def adjust_points.simps)
next
  case True
  from adjust_points_ok [OF assms(4,5), of 0 t] obtain x y where
    r: "adjust_points t True (unat (pt_num ps1)) 0 (pt_x ps1) (pt_y ps1) = Inr (x, y)"
    "length x = length (pt_x ps1)" "length y = length (pt_y ps1)"
    "\<forall>k<length (pt_x ps1). x ! k = (if k < unat (pt_num ps1) then fst (orient t (pt_x ps1 ! k, pt_y ps1 ! k)) else pt_x ps1 ! k)"
    "\<forall>k<length (pt_y ps1). y ! k = (if k < unat (pt_num ps1) then snd (orient t (pt_x ps1 ! k, pt_y ps1 ! k)) else pt_y ps1 ! k)"
    by auto
  have run: "esp_lcd_touch_get_coordinates (Some t) ps m w = Inr (True, ps1\<lparr>pt_x := x, pt_y := y\<rparr>, w1)"
    using assms(1-3) r(1) True by (simp add: esp_lcd_touch_get_coordinates_def Let_def)
  have "drop (unat (pt_num ps1)) x = drop (unat (pt_num ps1)) (pt_x ps1)"
    "drop (unat (pt_num ps1)) y = drop (unat (pt_num ps1)) (pt_y ps1)"
    using r(2-5) by (auto intro!: nth_equalityI)
  thus ?thesis unfolding orient_def [symmetric] using run r(2-5) assms(4,5) by simp
qed

text \<open>A controller that mirrors y itself; the software mirrors x and swaps.\<close>

definition demo_touch :: "unit touch_t" where
  "demo_touch = \<lparr>tp_enter_sleep = None, tp_exit_sleep = None, tp_read_data = None,
     tp_get_xy = Some (\<lambda>ps m w. Inr (True, \<lparr>pt_x = [10, 7], pt_y = [30, 8], pt_strength = [1, 1], pt_num = 1\<rparr>, w)),
     tp_set_swap_xy = None, tp_get_swap_xy = None, tp_set_mirror_x = None, tp_get_mirror_x = None,
     tp_set_mirror_y = Some (\<lambda>b w. Inr (ESP_OK, w)), tp_get_mirror_y = None, tp_get_button_state = None, tp_del = None,
     tp_config = \<lparr>x_max = 320, y_max = 240, rst_gpio_num = - 1, int_gpio_num = 8, level_interrupt = False,
       flag_swap_xy = True, flag_mirror_x = True, flag_mirror_y = True, process_coordinates = None,
       interrupt_callback = None, user_data = None\<rparr>\<rparr>"

theorem get_coordinates_orients_witness:
  "\<exists>ps2. esp_lcd_touch_get_coordinates (Some demo_touch) \<lparr>pt_x = [0, 0], pt_y = [0, 0], pt_strength = [0, 0], pt_num = 0\<rparr> 2 good_io =
      Inr (True, ps2, good_io) \<and> pt_x ps2 ! 0 = 30 \<and> pt_y ps2 ! 0 = 310"
  using get_coordinates_orients [where t = demo_touch and w = good_io and m = "2"
      and get_xy = "\<lambda>ps m w. Inr (True, \<lparr>pt_x = [10, 7], pt_y = [30, 8], pt_strength = [1, 1], pt_num = 1\<rparr>, w)"
      and ps = "\<lparr>pt_x = [0, 0], pt_y = [0, 0], pt_strength = [0, 0], pt_num = 0\<rparr>"
      and ?ps1.0 = "\<lparr>pt_x = [10, 7], pt_y = [30, 8], pt_strength = [1, 1], pt_num = 1\<rparr>" and ?w1.0 = good_io]
  by (auto simp: demo_touch_def oriented_def)

text \<open>
  Registering an interrupt callback on a pin makes the three calls in order and stops at the
  first that fails, with its code; an interrupt service that is already installed
  (\<open>ESP_ERR_INVALID_STATE\<close>) is no failure. The callback is recorded in any case.
\<close>

lemma register_interrupt_callback_calls:
  assumes "int_gpio_num (tp_config t) = pin" "pin \<noteq> GPIO_NUM_NC"
    and "e1 = gpio_ret w (length (io_log w))" "e2 = gpio_ret w (length (io_log w) + 1)"
    and "e3 = gpio_ret w (length (io_log w) + 2)"
  shows "\<exists>e t' w'. esp_lcd_touch_register_interrupt_callback (Some t) (Some cb) w = Inr (e, t', w') \<and>
    interrupt_callback (tp_config t') = Some cb \<and>
    (if e1 \<noteq> ESP_OK \<and> e1 \<noteq> ESP_ERR_INVALID_STATE then e = e1 \<and> io_log w' = io_log w @ [GpioIsr IsrInstall 0]
     else if e2 \<noteq> ESP_OK then e = e2 \<and> io_log w' = io_log w @ [GpioIsr IsrInstall 0, GpioIsr IntrEnable pin]
     else e = e3 \<and> io_log w' = io_log w @ [GpioIsr IsrInstall 0, GpioIsr IntrEnable pin, GpioIsr HandlerAdd pin])"
  using assms
  by (auto simp: esp_lcd_touch_register_interrupt_callback_def gpio_isr_def Let_def)

end
