(* ===== verification/Ili9341.thy ===== *)
theory Ili9341
  imports Panel_Io
begin

text \<open>
  \<open>managed_components/espressif__esp_lcd_ili9341/esp_lcd_ili9341.c\<close>: the display driver the
  firmware links, as built for ESP-IDF 5.4 (\<open>dependencies.lock\<close>).
\<close>

subsection \<open>Data\<close>

text \<open>A command is an \<open>int\<close> in the C structure; the bus sends its low byte, and only bytes are used.\<close>

record lcd_init_cmd =
  ic_cmd :: byte
  ic_data :: "byte list"
  ic_data_bytes :: nat
  ic_delay_ms :: nat

record ili9341_panel =
  reset_gpio_num :: int
  reset_level :: bool
  x_gap :: int
  y_gap :: int
  fb_bits_per_pixel :: nat
  madctl_val :: byte
  colmod_val :: byte
  init_cmds :: "lcd_init_cmd list option"

datatype rgb_endian = LCD_RGB_ENDIAN_RGB | LCD_RGB_ENDIAN_BGR | Other_Endian nat

record panel_dev_config =
  cfg_reset_gpio_num :: int
  cfg_rgb_endian :: rgb_endian
  cfg_bits_per_pixel :: nat
  cfg_reset_active_high :: bool
  cfg_vendor_config :: "lcd_init_cmd list option option"

text \<open>The bus with the panel object on it; \<open>None\<close> is a null panel handle.\<close>

record ili_dev = io_world +
  dev_panel :: "ili9341_panel option"

definition on_panel ::
  "(ili9341_panel \<Rightarrow> 'a ili_dev_scheme \<Rightarrow> 'r run) \<Rightarrow> 'a ili_dev_scheme \<Rightarrow> 'r run" where
  "on_panel f w = (case dev_panel w of None \<Rightarrow> Inl Undef | Some p \<Rightarrow> f p w)"

text \<open>\<open>ESP_RETURN_ON_ERROR\<close>: leave with the error code, or go on.\<close>

definition return_on_error ::
  "u32 \<times> 'w \<Rightarrow> ('w \<Rightarrow> (u32 \<times> 'w) run) \<Rightarrow> (u32 \<times> 'w) run" where
  "return_on_error r k = (if fst r \<noteq> ESP_OK then Inr r else k (snd r))"

lemma return_on_error_simps [simp]:
  "return_on_error (ESP_OK, w) k = k w"
  "e \<noteq> ESP_OK \<Longrightarrow> return_on_error (e, w) k = Inr (e, w)"
  by (simp_all add: return_on_error_def)

subsection \<open>Creating and deleting the panel\<close>

text \<open>The cleanup at label \<open>err\<close>.\<close>

definition new_panel_err ::
  "bool \<Rightarrow> panel_dev_config \<Rightarrow> u32 \<Rightarrow> 'a ili_dev_scheme \<Rightarrow> u32 \<times> 'a ili_dev_scheme" where
  "new_panel_err allocated cfg ret w =
     (if allocated then
        (let w = (if cfg_reset_gpio_num cfg \<ge> 0
                  then io_emit (GpioResetPin (cfg_reset_gpio_num cfg)) w else w) in
         (ret, io_emit Free w))
      else (ret, w))"

definition esp_lcd_new_panel_ili9341 ::
  "bool \<Rightarrow> panel_dev_config option \<Rightarrow> bool \<Rightarrow> nat \<Rightarrow> 'a ili_dev_scheme \<Rightarrow> u32 \<times> 'a ili_dev_scheme" where
  "esp_lcd_new_panel_ili9341 io panel_dev_config ret_panel panel_size w =
     (case panel_dev_config of None \<Rightarrow> (ESP_ERR_INVALID_ARG, w) | Some cfg \<Rightarrow>
     (if \<not> (io \<and> ret_panel) then (ESP_ERR_INVALID_ARG, w) else
     let (mem, w) = heap_calloc panel_size w in
      if mem = None then new_panel_err False cfg ESP_ERR_NO_MEM w else
     let (e, w) =
       (if cfg_reset_gpio_num cfg \<ge> 0
        then gpio_config (push_bit (nat (cfg_reset_gpio_num cfg)) 1) w else (ESP_OK, w)) in
      if e \<noteq> ESP_OK then new_panel_err True cfg e w else
     (case (case cfg_rgb_endian cfg of
              LCD_RGB_ENDIAN_RGB \<Rightarrow> Some 0
            | LCD_RGB_ENDIAN_BGR \<Rightarrow> Some (0 OR LCD_CMD_BGR_BIT)
            | Other_Endian _ \<Rightarrow> None) of
        None \<Rightarrow> new_panel_err True cfg ESP_ERR_NOT_SUPPORTED w
      | Some madctl \<Rightarrow>
     (case (if cfg_bits_per_pixel cfg = 16 then Some (0x55, 16)
            else if cfg_bits_per_pixel cfg = 18 then Some (0x66, 24) else None) of
        None \<Rightarrow> new_panel_err True cfg ESP_ERR_NOT_SUPPORTED w
      | Some (colmod, fb) \<Rightarrow>
      (ESP_OK, w\<lparr>dev_panel := Some \<lparr>
         reset_gpio_num = cfg_reset_gpio_num cfg, reset_level = cfg_reset_active_high cfg,
         x_gap = 0, y_gap = 0, fb_bits_per_pixel = fb, madctl_val = madctl, colmod_val = colmod,
         init_cmds = (case cfg_vendor_config cfg of None \<Rightarrow> None | Some v \<Rightarrow> v)\<rparr>\<rparr>)))))"

definition panel_ili9341_del :: "'a ili_dev_scheme \<Rightarrow> (u32 \<times> 'a ili_dev_scheme) run" where
  "panel_ili9341_del = on_panel (\<lambda>p w.
     let w = (if reset_gpio_num p \<ge> 0 then io_emit (GpioResetPin (reset_gpio_num p)) w else w) in
     Inr (ESP_OK, (io_emit Free w)\<lparr>dev_panel := None\<rparr>))"

subsection \<open>Reset and initialisation\<close>

definition panel_ili9341_reset :: "'a ili_dev_scheme \<Rightarrow> (u32 \<times> 'a ili_dev_scheme) run" where
  "panel_ili9341_reset = on_panel (\<lambda>p w.
     if reset_gpio_num p \<ge> 0 then
       let w = io_emit (GpioSetLevel (reset_gpio_num p) (reset_level p)) w;
           w = io_emit (Delay 10) w;
           w = io_emit (GpioSetLevel (reset_gpio_num p) (\<not> reset_level p)) w;
           w = io_emit (Delay 10) w in
       Inr (ESP_OK, w)
     else
       return_on_error (tx_param LCD_CMD_SWRESET [] w) (\<lambda>w.
       Inr (ESP_OK, io_emit (Delay 20) w)))"

definition init_cmd :: "byte \<Rightarrow> byte list \<Rightarrow> nat \<Rightarrow> nat \<Rightarrow> lcd_init_cmd" where
  "init_cmd c d n ms = \<lparr>ic_cmd = c, ic_data = d, ic_data_bytes = n, ic_delay_ms = ms\<rparr>"

definition vendor_specific_init_default :: "lcd_init_cmd list" where
  "vendor_specific_init_default = [
     init_cmd 0xCF [0x00, 0xAA, 0xE0] 3 0,
     init_cmd 0xED [0x67, 0x03, 0x12, 0x81] 4 0,
     init_cmd 0xE8 [0x8A, 0x01, 0x78] 3 0,
     init_cmd 0xCB [0x39, 0x2C, 0x00, 0x34, 0x02] 5 0,
     init_cmd 0xF7 [0x20] 1 0,
     init_cmd 0xF7 [0x20] 1 0,
     init_cmd 0xEA [0x00, 0x00] 2 0,
     init_cmd 0xC0 [0x23] 1 0,
     init_cmd 0xC1 [0x11] 1 0,
     init_cmd 0xC5 [0x43, 0x4C] 2 0,
     init_cmd 0xC7 [0xA0] 1 0,
     init_cmd 0xB1 [0x00, 0x1B] 2 0,
     init_cmd 0xF2 [0x00] 1 0,
     init_cmd 0x26 [0x01] 1 0,
     init_cmd 0xE0 [0x1F, 0x36, 0x36, 0x3A, 0x0C, 0x05, 0x4F, 0x87, 0x3C, 0x08, 0x11, 0x35, 0x19, 0x13, 0x00] 15 0,
     init_cmd 0xE1 [0x00, 0x09, 0x09, 0x05, 0x13, 0x0A, 0x30, 0x78, 0x43, 0x07, 0x0E, 0x0A, 0x26, 0x2C, 0x1F] 15 0,
     init_cmd 0xB7 [0x07] 1 0,
     init_cmd 0xB6 [0x08, 0x82, 0x27] 3 0]"

text \<open>
  One command of the table: a table that sets the memory access or pixel format register updates
  the driver's copy of it; then the command is sent (\<open>data_bytes\<close> bytes of \<open>data\<close>) and the delay
  kept.
\<close>

definition send_init_cmd ::
  "lcd_init_cmd \<Rightarrow> ili9341_panel \<Rightarrow> 'a ili_dev_scheme \<Rightarrow> (u32 \<times> ili9341_panel \<times> 'a ili_dev_scheme) run" where
  "send_init_cmd c p w =
     bindR (if ic_cmd c = LCD_CMD_MADCTL
            then bindR (c_read (ic_data c) 0) (\<lambda>b. Inr (p\<lparr>madctl_val := b\<rparr>))
            else if ic_cmd c = LCD_CMD_COLMOD
            then bindR (c_read (ic_data c) 0) (\<lambda>b. Inr (p\<lparr>colmod_val := b\<rparr>))
            else Inr p) (\<lambda>p.
      if ic_data_bytes c > length (ic_data c) then Inl Undef else
     let (e, w) = tx_param (ic_cmd c) (take (ic_data_bytes c) (ic_data c)) (w\<lparr>dev_panel := Some p\<rparr>) in
      if e \<noteq> ESP_OK then Inr (e, p, w)
      else Inr (ESP_OK, p, io_emit (Delay (ic_delay_ms c)) w))"

fun send_init_cmds ::
  "lcd_init_cmd list \<Rightarrow> ili9341_panel \<Rightarrow> 'a ili_dev_scheme \<Rightarrow> (u32 \<times> 'a ili_dev_scheme) run" where
  "send_init_cmds [] p w = Inr (ESP_OK, w)"
| "send_init_cmds (c # cs) p w =
     bindR (send_init_cmd c p w) (\<lambda>(e, p, w).
      if e \<noteq> ESP_OK then Inr (e, w) else send_init_cmds cs p w)"

definition panel_ili9341_init :: "'a ili_dev_scheme \<Rightarrow> (u32 \<times> 'a ili_dev_scheme) run" where
  "panel_ili9341_init = on_panel (\<lambda>p w.
     return_on_error (tx_param LCD_CMD_SLPOUT [] w) (\<lambda>w.
     let w = io_emit (Delay 100) w in
     return_on_error (tx_param LCD_CMD_MADCTL [madctl_val p] w) (\<lambda>w.
     return_on_error (tx_param LCD_CMD_COLMOD [colmod_val p] w) (\<lambda>w.
     send_init_cmds (case init_cmds p of None \<Rightarrow> vendor_specific_init_default | Some cs \<Rightarrow> cs) p w))))"

subsection \<open>Drawing and the other operations\<close>

definition byte_of :: "int \<Rightarrow> byte" where "byte_of i = word_of_int i"

text \<open>The position and length computations are in \<open>int\<close>.\<close>

definition panel_ili9341_draw_bitmap ::
  "int \<Rightarrow> int \<Rightarrow> int \<Rightarrow> int \<Rightarrow> byte list option \<Rightarrow> 'a ili_dev_scheme \<Rightarrow> (u32 \<times> 'a ili_dev_scheme) run" where
  "panel_ili9341_draw_bitmap x_start y_start x_end y_end color_data = on_panel (\<lambda>p w.
     if \<not> (x_start < x_end \<and> y_start < y_end) then Inl Abort
     else
     bindR (c_int (x_start + x_gap p)) (\<lambda>x_start.
     bindR (c_int (x_end + x_gap p)) (\<lambda>x_end.
     bindR (c_int (y_start + y_gap p)) (\<lambda>y_start.
     bindR (c_int (y_end + y_gap p)) (\<lambda>y_end.
     return_on_error (tx_param LCD_CMD_CASET
       [byte_of (drop_bit 8 x_start), byte_of x_start, byte_of (drop_bit 8 (x_end - 1)), byte_of (x_end - 1)] w) (\<lambda>w.
     return_on_error (tx_param LCD_CMD_RASET
       [byte_of (drop_bit 8 y_start), byte_of y_start, byte_of (drop_bit 8 (y_end - 1)), byte_of (y_end - 1)] w) (\<lambda>w.
     bindR (c_int (x_end - x_start)) (\<lambda>wd.
     bindR (c_int (y_end - y_start)) (\<lambda>ht.
     bindR (c_int (wd * ht)) (\<lambda>n.
     bindR (c_int (n * int (fb_bits_per_pixel p))) (\<lambda>bits.
     let len = nat (bits div 8) in
     bindR (tx_color LCD_CMD_RAMWR color_data len w) (\<lambda>(_, w).
     Inr (ESP_OK, w)))))))))))))"

definition panel_ili9341_invert_color :: "bool \<Rightarrow> 'a ili_dev_scheme \<Rightarrow> (u32 \<times> 'a ili_dev_scheme) run" where
  "panel_ili9341_invert_color invert_color_data = on_panel (\<lambda>p w.
     let command = (if invert_color_data then LCD_CMD_INVON else LCD_CMD_INVOFF) in
     return_on_error (tx_param command [] w) (\<lambda>w. Inr (ESP_OK, w)))"

definition panel_ili9341_mirror :: "bool \<Rightarrow> bool \<Rightarrow> 'a ili_dev_scheme \<Rightarrow> (u32 \<times> 'a ili_dev_scheme) run" where
  "panel_ili9341_mirror mirror_x mirror_y = on_panel (\<lambda>p w.
     let m = madctl_val p;
         m = (if mirror_x then m OR LCD_CMD_MX_BIT else m AND NOT LCD_CMD_MX_BIT);
         m = (if mirror_y then m OR LCD_CMD_MY_BIT else m AND NOT LCD_CMD_MY_BIT);
         w = w\<lparr>dev_panel := Some (p\<lparr>madctl_val := m\<rparr>)\<rparr> in
     return_on_error (tx_param LCD_CMD_MADCTL [m] w) (\<lambda>w. Inr (ESP_OK, w)))"

definition panel_ili9341_swap_xy :: "bool \<Rightarrow> 'a ili_dev_scheme \<Rightarrow> (u32 \<times> 'a ili_dev_scheme) run" where
  "panel_ili9341_swap_xy swap_axes = on_panel (\<lambda>p w.
     let m = (if swap_axes then madctl_val p OR LCD_CMD_MV_BIT else madctl_val p AND NOT LCD_CMD_MV_BIT);
         w = w\<lparr>dev_panel := Some (p\<lparr>madctl_val := m\<rparr>)\<rparr> in
     return_on_error (tx_param LCD_CMD_MADCTL [m] w) (\<lambda>w. Inr (ESP_OK, w)))"

definition panel_ili9341_set_gap :: "int \<Rightarrow> int \<Rightarrow> 'a ili_dev_scheme \<Rightarrow> (u32 \<times> 'a ili_dev_scheme) run" where
  "panel_ili9341_set_gap xg yg = on_panel (\<lambda>p w.
     Inr (ESP_OK, w\<lparr>dev_panel := Some (p\<lparr>x_gap := xg, y_gap := yg\<rparr>)\<rparr>))"

definition panel_ili9341_disp_on_off :: "bool \<Rightarrow> 'a ili_dev_scheme \<Rightarrow> (u32 \<times> 'a ili_dev_scheme) run" where
  "panel_ili9341_disp_on_off on_off = on_panel (\<lambda>p w.
     let command = (if on_off then LCD_CMD_DISPON else LCD_CMD_DISPOFF) in
     return_on_error (tx_param command [] w) (\<lambda>w. Inr (ESP_OK, w)))"

text \<open>The function pointers that the constructor puts into the panel object.\<close>

definition ili9341_base :: "'a ili_dev_ext lcd_panel" where
  "ili9341_base = \<lparr>pn_del = panel_ili9341_del, pn_reset = panel_ili9341_reset, pn_init = panel_ili9341_init,
     pn_draw_bitmap = panel_ili9341_draw_bitmap, pn_invert_color = panel_ili9341_invert_color,
     pn_set_gap = panel_ili9341_set_gap, pn_mirror = panel_ili9341_mirror,
     pn_swap_xy = panel_ili9341_swap_xy, pn_disp_on_off = panel_ili9341_disp_on_off\<rparr>"

subsection \<open>Drawing puts the pixels into the window and nowhere else\<close>

lemma join16_bytes:
  assumes "0 \<le> v" "v < 65536"
  shows "unat (join16 (byte_of (drop_bit 8 v)) (byte_of v)) = nat v"
proof -
  have "join16 (byte_of (drop_bit 8 v)) (byte_of v) = word_of_int v"
    unfolding join16_def byte_of_def
    by (rule bit_word_eqI) (auto simp: bit_simps)
  thus ?thesis using assms by (simp add: unsigned_of_int take_bit_int_eq_self)
qed

definition ili_ready :: "'a ili_dev_scheme \<Rightarrow> bool" where
  "ili_ready w = (case dev_panel w of None \<Rightarrow> False
     | Some p \<Rightarrow> x_gap p = 0 \<and> y_gap p = 0 \<and> fb_bits_per_pixel p = 16)"

lemma dev_panel_emit [simp]: "dev_panel (io_emit e w) = dev_panel w"
  by (cases w) (simp add: io_emit_def)

definition caset :: "byte \<Rightarrow> int \<Rightarrow> int \<Rightarrow> io_ev" where
  "caset cmd a b = TxParam cmd [byte_of (drop_bit 8 a), byte_of a, byte_of (drop_bit 8 (b - 1)), byte_of (b - 1)]"

definition draw_events :: "int \<Rightarrow> int \<Rightarrow> int \<Rightarrow> int \<Rightarrow> byte list \<Rightarrow> io_ev list" where
  "draw_events xs ys xe ye bs = [caset LCD_CMD_CASET xs xe, caset LCD_CMD_RASET ys ye, TxColor LCD_CMD_RAMWR bs]"

text \<open>What a draw does when all its computations fit; a rectangle of the 16-bit address range whose bits fit is enough.\<close>

definition draw_fits :: "ili9341_panel \<Rightarrow> int \<Rightarrow> int \<Rightarrow> int \<Rightarrow> int \<Rightarrow> bool" where
  "draw_fits p xs ys xe ye \<longleftrightarrow>
     (\<forall>v\<in>{xs + x_gap p, xe + x_gap p, ys + y_gap p, ye + y_gap p, xe - xs, ye - ys, (xe - xs) * (ye - ys),
        (xe - xs) * (ye - ys) * int (fb_bits_per_pixel p)}. - (2 ^ 31) \<le> v \<and> v < 2 ^ 31)"

lemma draw_bitmap_fits:
  assumes "dev_panel w = Some p" "xs < xe" "ys < ye" "draw_fits p xs ys xe ye"
  shows "panel_ili9341_draw_bitmap xs ys xe ye cd w =
    return_on_error (tx_param LCD_CMD_CASET [byte_of (drop_bit 8 (xs + x_gap p)), byte_of (xs + x_gap p),
       byte_of (drop_bit 8 (xe + x_gap p - 1)), byte_of (xe + x_gap p - 1)] w) (\<lambda>w.
    return_on_error (tx_param LCD_CMD_RASET [byte_of (drop_bit 8 (ys + y_gap p)), byte_of (ys + y_gap p),
       byte_of (drop_bit 8 (ye + y_gap p - 1)), byte_of (ye + y_gap p - 1)] w) (\<lambda>w.
    bindR (tx_color LCD_CMD_RAMWR cd (nat ((xe - xs) * (ye - ys) * int (fb_bits_per_pixel p) div 8)) w) (\<lambda>(_, w). Inr (ESP_OK, w))))"
  using assms by (simp add: panel_ili9341_draw_bitmap_def on_panel_def draw_fits_def)

lemma nat_rect_fits:
  assumes "fb_bits_per_pixel p = 16" "x_gap p = int gx" "y_gap p = int gy" "xs < xe" "ys < ye"
    and "xe + gx \<le> 65536" "ye + gy \<le> 65536" "16 * ((xe - xs) * (ye - ys)) < 2 ^ 31"
  shows "draw_fits p (int xs) (int ys) (int xe) (int ye)"
proof -
  have n: "(int xe - int xs) * (int ye - int ys) = int ((xe - xs) * (ye - ys))"
    using assms(4,5) by (simp add: of_nat_diff)
  have "int (16 * ((xe - xs) * (ye - ys))) < int (2 ^ 31)" using assms(8) by (simp only: of_nat_less_iff)
  thus ?thesis using assms(1-7) unfolding draw_fits_def n by (simp del: of_nat_mult of_nat_diff)
qed

text \<open>The bus traffic of a draw.\<close>

lemma draw_bitmap_run:
  assumes "dev_panel w = Some p" "fb_bits_per_pixel p = 16" "all_ok w"
    and "xs < xe" "ys < ye" "nat (2 * ((xe - xs) * (ye - ys))) \<le> length bs" "draw_fits p xs ys xe ye"
  shows "panel_ili9341_draw_bitmap xs ys xe ye (Some bs) w =
    Inr (ESP_OK, (w\<lparr>io_log := io_log w @ draw_events (xs + x_gap p) (ys + y_gap p) (xe + x_gap p)
           (ye + y_gap p) (take (nat (2 * ((xe - xs) * (ye - ys)))) bs), irq_pending := True\<rparr>))"
proof -
  have len: "(xe - xs) * (ye - ys) * 16 div 8 = 2 * ((xe - xs) * (ye - ys))" by simp
  show ?thesis
    using assms draw_bitmap_fits [OF assms(1,4,5,7), of "Some bs"]
    by (simp add: tx_param_def tx_color_def Let_def all_ok_answers len draw_events_def caset_def io_emit_def)
qed

lemma chip_caset:
  assumes "0 \<le> a" "a < b" "b \<le> 65536"
  shows "chip_step (caset LCD_CMD_CASET a b) c = c\<lparr>col_start := nat a, col_end := nat b - 1\<rparr>"
    and "chip_step (caset LCD_CMD_RASET a b) c = c\<lparr>row_start := nat a, row_end := nat b - 1\<rparr>"
  using assms join16_bytes [of a] join16_bytes [of "b - 1"]
  by (simp_all add: caset_def chip_param_def lcd_cmd_defs nat_diff_distrib)

text \<open>The controller's reaction to it.\<close>

lemma pix_upd: "pix (c\<lparr>pix := f\<rparr>) = f"
  by simp

lemma fill_window_blit:
  assumes "xs < xe" "ys < ye" "length bs = 2 * ((xe - xs) * (ye - ys))"
    and "col_start c = xs" "col_end c = xe - 1" "row_start c = ys" "row_end c = ye - 1"
  shows "pix (fill_window bs c) = blit xs ys xe ye bs (pix c)"
proof -
  have w: "xe - 1 - xs + 1 = xe - xs" using assms by simp
  have in_buf: "2 * ((y - ys) * (xe - xs) + (x - xs)) + 1 < length bs"
    if "xs \<le> x" "x < xe" "ys \<le> y" "y < ye" for x y
    unfolding assms(3) by (rule double_less [OF window_index [OF that]])
  have last: "x \<le> xe - 1 \<longleftrightarrow> x < xe" "y \<le> ye - 1 \<longleftrightarrow> y < ye" for x y using assms(1,2) by auto
  show ?thesis
    unfolding fill_window_def blit_def assms(4-7) w last pix_upd
    using in_buf by (intro ext if_cong refl) blast
qed

lemma draw_events_chip:
  fixes c :: lcd_chip
  assumes "xs < xe" "ys < ye" "xe \<le> 65536" "ye \<le> 65536" "length bs = 2 * ((xe - xs) * (ye - ys))"
  defines "c' \<equiv> fold chip_step (draw_events (int xs) (int ys) (int xe) (int ye) bs) c"
  shows "pix c' = blit xs ys xe ye bs (pix c)" "chip_madctl c' = chip_madctl c"
    "chip_colmod c' = chip_colmod c" "chip_on c' = chip_on c" "chip_awake c' = chip_awake c"
    "chip_inverted c' = chip_inverted c"
proof -
  let ?c = "c\<lparr>col_start := xs, col_end := xe - 1, row_start := ys, row_end := ye - 1\<rparr>"
  have c': "c' = fill_window bs ?c"
    using assms(1-4) by (simp add: c'_def draw_events_def chip_caset)
  show "pix c' = blit xs ys xe ye bs (pix c)"
    unfolding c' using assms(1,2,5) by (subst fill_window_blit [of xs xe ys ye]) simp_all
  show "chip_madctl c' = chip_madctl c" "chip_colmod c' = chip_colmod c" "chip_on c' = chip_on c"
    "chip_awake c' = chip_awake c" "chip_inverted c' = chip_inverted c"
    unfolding c' by (simp_all add: fill_window_def)
qed

lemma pixel_at_take: "2 * k + 1 < n \<Longrightarrow> pixel_at (take n bs) k = pixel_at bs k"
  by (simp add: pixel_at_def)

lemma blit_take: "blit xs ys xe ye (take (2 * ((xe - xs) * (ye - ys))) bs) f = blit xs ys xe ye bs f"
proof (intro ext)
  fix x y
  show "blit xs ys xe ye (take (2 * ((xe - xs) * (ye - ys))) bs) f x y = blit xs ys xe ye bs f x y"
    using window_index [of xs x xe ys y ye] by (auto simp: blit_def intro!: pixel_at_take)
qed

lemma draw_blits_gap:
  assumes "dev_panel w = Some p" "fb_bits_per_pixel p = 16" "x_gap p = int gx" "y_gap p = int gy"
    and "all_ok w" "xs < xe" "ys < ye" "xe + gx \<le> 65536" "ye + gy \<le> 65536"
    and "2 * ((xe - xs) * (ye - ys)) \<le> length bs" "16 * ((xe - xs) * (ye - ys)) < 2 ^ 31"
  shows "\<exists>w'. panel_ili9341_draw_bitmap (int xs) (int ys) (int xe) (int ye) (Some bs) w = Inr (ESP_OK, w') \<and>
    frame w' = blit (xs + gx) (ys + gy) (xe + gx) (ye + gy) bs (frame w) \<and> chip_mode w' = chip_mode w \<and>
    held w' = held w \<and> irq_pending w' \<and> all_ok w' \<and> dev_panel w' = dev_panel w"
proof -
  let ?n = "2 * ((xe - xs) * (ye - ys))"
  let ?evs = "draw_events (int (xs + gx)) (int (ys + gy)) (int (xe + gx)) (int (ye + gy)) (take ?n bs)"
  let ?w = "w\<lparr>io_log := io_log w @ ?evs, irq_pending := True\<rparr>"
  have n: "nat (2 * ((int xe - int xs) * (int ye - int ys))) = ?n"
    using assms(6,7) by (simp add: nat_mult_distrib of_nat_diff [symmetric] del: of_nat_diff)
  have run: "panel_ili9341_draw_bitmap (int xs) (int ys) (int xe) (int ye) (Some bs) w = Inr (ESP_OK, ?w)"
    using draw_bitmap_run [OF assms(1,2,5), of "int xs" "int xe" "int ys" "int ye" bs] assms
      nat_rect_fits [OF assms(2-4,6-9,11)]
    by (simp add: n)
  have chip: "chip_of ?w = fold chip_step ?evs (chip_of w)" by (simp add: chip_of_def)
  have len: "length (take ?n bs) = 2 * ((xe + gx - (xs + gx)) * (ye + gy - (ys + gy)))" using assms(10) by simp
  have less: "xs + gx < xe + gx" "ys + gy < ye + gy" using assms by simp_all
  note ev = draw_events_chip [OF less assms(8,9) len]
  have "frame ?w = blit (xs + gx) (ys + gy) (xe + gx) (ye + gy) bs (frame w)"
    unfolding frame_def chip ev(1) using blit_take [of "xs + gx" "ys + gy" "xe + gx" "ye + gy" bs] by simp
  moreover have "chip_mode ?w = chip_mode w" unfolding chip_mode_def chip ev Let_def ..
  moreover have "held ?w = held w" by (simp add: held_def draw_events_def caset_def)
  moreover have "all_ok ?w" using assms(5) by (simp add: all_ok_def)
  ultimately show ?thesis using run by auto
qed

lemma ili_draw_ok:
  assumes "ili_ready w" "all_ok w" "xs < xe" "ys < ye" "xe \<le> 65536" "ye \<le> 65536"
    "2 * ((xe - xs) * (ye - ys)) \<le> length bs" "16 * ((xe - xs) * (ye - ys)) < 2 ^ 31"
  shows "\<exists>w'. panel_ili9341_draw_bitmap (int xs) (int ys) (int xe) (int ye) (Some bs) w = Inr (ESP_OK, w') \<and>
       frame w' = blit xs ys xe ye bs (frame w) \<and> chip_mode w' = chip_mode w \<and>
       held w' = held w \<and> irq_pending w' \<and> all_ok w' \<and> ili_ready w'"
proof -
  obtain p where "dev_panel w = Some p" "x_gap p = 0" "y_gap p = 0" "fb_bits_per_pixel p = 16"
    using assms(1) by (auto simp: ili_ready_def split: option.splits)
  thus ?thesis
    using draw_blits_gap [of w p 0 0 xs xe ys ye bs] assms by (auto simp: ili_ready_def)
qed

interpretation ili: panel_device panel_ili9341_draw_bitmap ili_ready
proof unfold_locales
  show "ili_ready (io_emit e w) = ili_ready w" for e and w :: "'a ili_dev_scheme"
    by (simp add: ili_ready_def)
qed (simp_all add: ili_draw_ok, simp add: ili_ready_def)

subsection \<open>Initialisation leaves the controller awake and the driver's registers in step\<close>

text \<open>
  The driver keeps a copy of the two registers it also reads; \<open>in_sync\<close> says the copy is what the
  controller has. A command of an initialisation table keeps it so, if it has the bytes it
  announces and exactly one when it writes one of the two registers, and is not a reset.
\<close>

definition in_sync :: "'a ili_dev_scheme \<Rightarrow> bool" where
  "in_sync w = (case dev_panel w of None \<Rightarrow> False
     | Some p \<Rightarrow> chip_madctl (chip_of w) = madctl_val p \<and> chip_colmod (chip_of w) = colmod_val p)"

definition cmd_wf :: "lcd_init_cmd \<Rightarrow> bool" where
  "cmd_wf c \<longleftrightarrow> ic_data_bytes c \<le> length (ic_data c) \<and>
     (ic_cmd c = LCD_CMD_MADCTL \<longrightarrow> ic_data_bytes c = 1) \<and>
     (ic_cmd c = LCD_CMD_COLMOD \<longrightarrow> ic_data_bytes c = 1) \<and> ic_cmd c \<noteq> LCD_CMD_SWRESET"

definition geometry :: "ili9341_panel \<Rightarrow> int \<times> int \<times> nat" where
  "geometry p = (x_gap p, y_gap p, fb_bits_per_pixel p)"

text \<open>What every command of a table, and so the whole table, keeps.\<close>

definition steady :: "ili9341_panel \<times> 'a ili_dev_scheme \<Rightarrow> ili9341_panel \<times> 'a ili_dev_scheme \<Rightarrow> bool" where
  "steady a b = (case (a, b) of ((p, w), (p', w')) \<Rightarrow>
     geometry p' = geometry p \<and> frame w' = frame w \<and> held w' = held w \<and>
     irq_pending w' = irq_pending w \<and> all_ok w' = all_ok w \<and>
     (chip_awake (chip_of w) \<longrightarrow> chip_awake (chip_of w')))"

lemma steady_refl [simp]: "steady a a"
  by (cases a) (simp add: steady_def)

lemma steady_trans: "steady a b \<Longrightarrow> steady b c \<Longrightarrow> steady a c"
  by (cases a; cases b; cases c) (simp add: steady_def)

lemma panel_upd_simps [simp]:
  "chip_of (w\<lparr>dev_panel := q\<rparr>) = chip_of w" "frame (w\<lparr>dev_panel := q\<rparr>) = frame w"
  "held (w\<lparr>dev_panel := q\<rparr>) = held w" "all_ok (w\<lparr>dev_panel := q\<rparr>) = all_ok w"
  "chip_mode (w\<lparr>dev_panel := q\<rparr>) = chip_mode w"
  by (simp_all add: chip_of_def frame_def held_def all_ok_def chip_mode_def)

lemma tx_param_ok: "all_ok w \<Longrightarrow> tx_param cmd bs w = (ESP_OK, io_emit (TxParam cmd bs) w)"
  by (simp add: tx_param_def all_ok_answers)

lemma chip_param_keeps:
  "pix (chip_param cmd bs c) = pix c"
  "cmd \<noteq> LCD_CMD_SWRESET \<Longrightarrow> chip_awake c \<Longrightarrow> chip_awake (chip_param cmd bs c)"
  "cmd \<noteq> LCD_CMD_SWRESET \<Longrightarrow> cmd \<noteq> LCD_CMD_MADCTL \<Longrightarrow> chip_madctl (chip_param cmd bs c) = chip_madctl c"
  "cmd \<noteq> LCD_CMD_SWRESET \<Longrightarrow> cmd \<noteq> LCD_CMD_COLMOD \<Longrightarrow> chip_colmod (chip_param cmd bs c) = chip_colmod c"
  by (simp_all add: chip_param_def)

lemma chip_param_registers:
  "chip_madctl (chip_param LCD_CMD_MADCTL [b] c) = b" "chip_colmod (chip_param LCD_CMD_COLMOD [b] c) = b"
  by (simp_all add: chip_param_def lcd_cmd_defs)

lemma take_1_nth: "xs \<noteq> [] \<Longrightarrow> take (Suc 0) xs = [xs ! 0]"
  by (cases xs) simp_all

text \<open>What a command of a table does to the driver's copies.\<close>

definition cmd_upd :: "lcd_init_cmd \<Rightarrow> ili9341_panel \<Rightarrow> ili9341_panel" where
  "cmd_upd c p = (if ic_cmd c = LCD_CMD_MADCTL then p\<lparr>madctl_val := ic_data c ! 0\<rparr>
    else if ic_cmd c = LCD_CMD_COLMOD then p\<lparr>colmod_val := ic_data c ! 0\<rparr> else p)"

lemma send_init_cmd_ok:
  assumes "all_ok w" "cmd_wf c" "dev_panel w = Some p" "in_sync w"
  shows "\<exists>w'. send_init_cmd c p w = Inr (ESP_OK, cmd_upd c p, w') \<and> dev_panel w' = Some (cmd_upd c p) \<and>
    in_sync w' \<and> steady (p, w) (cmd_upd c p, w')"
proof -
  let ?p = "cmd_upd c p"
  define e where "e = TxParam (ic_cmd c) (take (ic_data_bytes c) (ic_data c))"
  define w' where "w' = io_emit (Delay (ic_delay_ms c)) (io_emit e (w\<lparr>dev_panel := Some ?p\<rparr>))"
  have nonempty: "ic_cmd c = LCD_CMD_MADCTL \<or> ic_cmd c = LCD_CMD_COLMOD \<Longrightarrow> 0 < length (ic_data c)"
    using assms(2) by (auto simp: cmd_wf_def)
  have run: "send_init_cmd c p w = Inr (ESP_OK, ?p, w')"
    using assms nonempty by (auto simp: send_init_cmd_def cmd_upd_def w'_def e_def tx_param_ok cmd_wf_def)
  have regs: "LCD_CMD_MADCTL \<noteq> LCD_CMD_COLMOD" by (simp add: lcd_cmd_defs)
  have "in_sync w'"
    using assms(2-4) regs nonempty
    by (auto simp: w'_def e_def in_sync_def cmd_upd_def cmd_wf_def chip_param_keeps chip_param_registers take_1_nth)
  moreover have "steady (p, w) (?p, w')"
    using assms(2)
    by (auto simp: steady_def w'_def e_def cmd_upd_def geometry_def frame_def cmd_wf_def chip_param_keeps)
  moreover have "dev_panel w' = Some ?p" by (simp add: w'_def)
  ultimately show ?thesis using run by blast
qed

lemma send_init_cmds_ok:
  assumes "all_ok w" "list_all cmd_wf cs" "dev_panel w = Some p" "in_sync w"
  shows "\<exists>w'. send_init_cmds cs p w = Inr (ESP_OK, w') \<and> dev_panel w' = Some (fold cmd_upd cs p) \<and> in_sync w' \<and>
    steady (p, w) (fold cmd_upd cs p, w')"
  using assms
proof (induction cs arbitrary: p w)
  case Nil
  thus ?case by simp
next
  case (Cons c cs)
  obtain w1 where one: "send_init_cmd c p w = Inr (ESP_OK, cmd_upd c p, w1)" "dev_panel w1 = Some (cmd_upd c p)"
    "in_sync w1" "steady (p, w) (cmd_upd c p, w1)"
    using send_init_cmd_ok [of w c p] Cons.prems by auto
  have "all_ok w1" using one(4) Cons.prems(1) by (simp add: steady_def)
  with Cons.IH [OF this _ one(2,3)] Cons.prems(2) obtain w2
    where "send_init_cmds cs (cmd_upd c p) w1 = Inr (ESP_OK, w2)" "dev_panel w2 = Some (fold cmd_upd cs (cmd_upd c p))" "in_sync w2"
      "steady (cmd_upd c p, w1) (fold cmd_upd cs (cmd_upd c p), w2)" by auto
  thus ?case using one steady_trans [OF one(4)] by auto
qed

lemma default_table_upd: "fold cmd_upd vendor_specific_init_default p = p"
  by (simp add: vendor_specific_init_default_def init_cmd_def cmd_upd_def lcd_cmd_defs)

lemma default_table_wf: "list_all cmd_wf vendor_specific_init_default"
  by (simp add: vendor_specific_init_default_def init_cmd_def cmd_wf_def lcd_cmd_defs)

lemma panel_init_ok:
  assumes "all_ok w" "dev_panel w = Some p" "\<forall>cs. init_cmds p = Some cs \<longrightarrow> list_all cmd_wf cs"
    and "cs = (case init_cmds p of None \<Rightarrow> vendor_specific_init_default | Some cs \<Rightarrow> cs)"
  shows "\<exists>w'. panel_ili9341_init w = Inr (ESP_OK, w') \<and> dev_panel w' = Some (fold cmd_upd cs p) \<and> in_sync w' \<and>
    steady (p, w) (fold cmd_upd cs p, w') \<and> chip_awake (chip_of w')"
proof -
  let ?cs = "case init_cmds p of None \<Rightarrow> vendor_specific_init_default | Some cs \<Rightarrow> cs"
  define w1 where "w1 = io_emit (TxParam LCD_CMD_COLMOD [colmod_val p]) (io_emit (TxParam LCD_CMD_MADCTL [madctl_val p])
    (io_emit (Delay 100) (io_emit (TxParam LCD_CMD_SLPOUT []) w)))"
  have run: "panel_ili9341_init w = send_init_cmds ?cs p w1"
    using assms(1,2) by (simp add: panel_ili9341_init_def on_panel_def tx_param_ok w1_def Let_def)
  have distinct: "LCD_CMD_COLMOD \<noteq> LCD_CMD_MADCTL" "LCD_CMD_COLMOD \<noteq> LCD_CMD_SWRESET"
    "LCD_CMD_MADCTL \<noteq> LCD_CMD_SWRESET" "LCD_CMD_SLPOUT \<noteq> LCD_CMD_SWRESET"
    by (simp_all add: lcd_cmd_defs)
  have awake: "chip_awake (chip_param LCD_CMD_SLPOUT [] c)" for c
    by (simp add: chip_param_def lcd_cmd_defs)
  have w1: "all_ok w1" "dev_panel w1 = Some p" "in_sync w1" "steady (p, w) (p, w1)" "chip_awake (chip_of w1)"
    using assms(1,2) distinct
    by (simp_all add: w1_def in_sync_def chip_param_registers chip_param_keeps steady_def frame_def awake)
  have "list_all cmd_wf ?cs" using assms(3) default_table_wf by (auto split: option.split)
  from send_init_cmds_ok [OF w1(1) this w1(2,3)] obtain w' where
    w': "send_init_cmds ?cs p w1 = Inr (ESP_OK, w')" "dev_panel w' = Some (fold cmd_upd ?cs p)" "in_sync w'"
    "steady (p, w1) (fold cmd_upd ?cs p, w')" by blast
  have "chip_awake (chip_of w')" using w'(4) w1(5) by (simp add: steady_def)
  thus ?thesis
    unfolding assms(4) using run w' steady_trans [OF w1(4) w'(4)] by auto
qed

subsection \<open>The operations that set one register\<close>

definition set_bit_to :: "byte \<Rightarrow> bool \<Rightarrow> byte \<Rightarrow> byte" where
  "set_bit_to m b v = (if b then v OR m else v AND NOT m)"

lemma panel_mirror_ok:
  fixes mx my :: bool
  assumes "all_ok w" "dev_panel w = Some p"
  defines "m \<equiv> set_bit_to LCD_CMD_MY_BIT my (set_bit_to LCD_CMD_MX_BIT mx (madctl_val p))"
  shows "panel_ili9341_mirror mx my w =
    Inr (ESP_OK, io_emit (TxParam LCD_CMD_MADCTL [m]) (w\<lparr>dev_panel := Some (p\<lparr>madctl_val := m\<rparr>)\<rparr>))"
  using assms by (simp add: panel_ili9341_mirror_def on_panel_def Let_def tx_param_ok set_bit_to_def)

lemma panel_swap_xy_ok:
  fixes s :: bool
  assumes "all_ok w" "dev_panel w = Some p"
  defines "m \<equiv> set_bit_to LCD_CMD_MV_BIT s (madctl_val p)"
  shows "panel_ili9341_swap_xy s w =
    Inr (ESP_OK, io_emit (TxParam LCD_CMD_MADCTL [m]) (w\<lparr>dev_panel := Some (p\<lparr>madctl_val := m\<rparr>)\<rparr>))"
  using assms by (simp add: panel_ili9341_swap_xy_def on_panel_def Let_def tx_param_ok set_bit_to_def)

lemma panel_disp_on_off_ok:
  assumes "all_ok w" "dev_panel w = Some p"
  shows "panel_ili9341_disp_on_off b w =
    Inr (ESP_OK, io_emit (TxParam (if b then LCD_CMD_DISPON else LCD_CMD_DISPOFF) []) w)"
  using assms by (simp add: panel_ili9341_disp_on_off_def on_panel_def Let_def tx_param_ok)

lemma chip_disp_on_off:
  "chip_step (TxParam (if b then LCD_CMD_DISPON else LCD_CMD_DISPOFF) []) c = c\<lparr>chip_on := b\<rparr>"
  by (simp add: chip_param_def lcd_cmd_defs)

lemma chip_madctl_step: "chip_step (TxParam LCD_CMD_MADCTL [m]) c = c\<lparr>chip_madctl := m\<rparr>"
  by (simp add: chip_param_def lcd_cmd_defs)

lemma bit_one_byte: "k < 8 \<Longrightarrow> bit (push_bit k 1 :: byte) n \<longleftrightarrow> n = k"
  by (auto simp: bit_simps)

lemma madctl_bits:
  "bit LCD_CMD_MV_BIT n \<longleftrightarrow> n = 5" "bit LCD_CMD_MX_BIT n \<longleftrightarrow> n = 6" "bit LCD_CMD_MY_BIT n \<longleftrightarrow> n = 7"
  using bit_one_byte [of 5 n] bit_one_byte [of 6 n] bit_one_byte [of 7 n]
  by (simp_all add: madctl_bit_defs push_bit_eq_mult)

lemma bit_set_bit_to: "n < 8 \<Longrightarrow> bit (set_bit_to m b v) n \<longleftrightarrow> (if bit m n then b else bit v n)"
  by (simp add: set_bit_to_def bit_simps)

subsection \<open>A concrete panel\<close>

definition demo_panel :: ili9341_panel where
  "demo_panel = \<lparr>reset_gpio_num = 6, reset_level = False, x_gap = 0, y_gap = 0, fb_bits_per_pixel = 16,
     madctl_val = 0x08, colmod_val = 0x55, init_cmds = None\<rparr>"

definition demo_dev :: ili_dev where
  "demo_dev = \<lparr>io_log = [], tx_ret = (\<lambda>_. ESP_OK), gpio_ret = (\<lambda>_. ESP_OK), calloc_ret = (\<lambda>_. True),
     sem_ret = (\<lambda>_. True), spi_ret = (\<lambda>_. ESP_OK), irq_pending = False, dev_panel = Some demo_panel\<rparr>"

lemma demo_dev_ok: "all_ok demo_dev" "ili_ready demo_dev" "dev_panel demo_dev = Some demo_panel"
  by (simp_all add: demo_dev_def demo_panel_def all_ok_def ili_ready_def)

subsection \<open>Properties\<close>

text \<open>
  C11. Drawing. On a 16-bit panel with gaps \<open>gx\<close> and \<open>gy\<close> and a bus that accepts the traffic,
  \<open>panel_ili9341_draw_bitmap\<close> of a non-empty rectangle inside the 16-bit address range, from a
  buffer that holds at least its pixels, and with fewer than \<open>2 ^ 31\<close> bits in all, which the driver computes
  in an \<open>int\<close>, succeeds; the controller's frame memory then holds the
  buffer's pixels, row by row, in the rectangle shifted by the gaps, and is unchanged elsewhere;
  and the mode registers are unchanged.
\<close>

theorem draw_bitmap_blits:
  assumes "dev_panel w = Some p" "fb_bits_per_pixel p = 16" "x_gap p = int gx" "y_gap p = int gy"
    and "all_ok w" "xs < xe" "ys < ye" "xe + gx \<le> 65536" "ye + gy \<le> 65536"
    and "2 * ((xe - xs) * (ye - ys)) \<le> length bs" "16 * ((xe - xs) * (ye - ys)) < 2 ^ 31"
  shows "\<exists>w'. panel_ili9341_draw_bitmap (int xs) (int ys) (int xe) (int ye) (Some bs) w = Inr (ESP_OK, w') \<and>
    frame w' = blit (xs + gx) (ys + gy) (xe + gx) (ye + gy) bs (frame w) \<and> chip_mode w' = chip_mode w"
  using draw_blits_gap [OF assms] by auto

theorem draw_bitmap_blits_witness:
  "\<exists>w'. panel_ili9341_draw_bitmap 10 20 12 21 (Some [0xF8, 0, 0, 0x1F]) demo_dev = Inr (ESP_OK, w') \<and>
    frame w' = blit 10 20 12 21 [0xF8, 0, 0, 0x1F] (frame demo_dev) \<and> chip_mode w' = chip_mode demo_dev"
  using draw_bitmap_blits [of demo_dev demo_panel 0 0 10 12 20 21 "[0xF8, 0, 0, 0x1F]"] demo_dev_ok
  by (simp add: demo_panel_def)

text \<open>
  Orientation. \<open>mirror\<close> followed by \<open>swap_xy\<close> sets exactly the three orientation bits of the
  memory access register to what was asked for and keeps its five other bits, in the controller
  and in the driver's copy alike, and changes no pixel.
\<close>

lemma mirror_swap_orientation:
  assumes "all_ok w" "dev_panel w = Some p"
  shows "\<exists>m w'. bindR (panel_ili9341_mirror mx my w) (\<lambda>(_, w). panel_ili9341_swap_xy sw w) = Inr (ESP_OK, w') \<and>
    chip_madctl (chip_of w') = m \<and> dev_panel w' = Some (p\<lparr>madctl_val := m\<rparr>) \<and> frame w' = frame w \<and>
    (bit m 5 = sw) \<and> (bit m 6 = mx) \<and> (bit m 7 = my) \<and> (\<forall>n<5. bit m n = bit (madctl_val p) n)"
  using assms
  by (auto simp: panel_mirror_ok panel_swap_xy_ok chip_madctl_step frame_def bit_set_bit_to madctl_bits
      simp del: chip_step.simps)

text \<open>
  Errors of a draw. The answer of \<open>panel_ili9341_draw_bitmap\<close> for a non-empty rectangle is that
  of its two address commands: when the bus refuses one of them, its code is returned and no pixel
  has changed. What the bus answers to the pixels themselves is not looked at: the operation answers
  \<open>ESP_OK\<close> also when they are refused, and then no completion interrupt is to come.
\<close>

lemma draw_bitmap_errors:
  assumes "dev_panel w = Some p" "xs < xe" "ys < ye" "draw_fits p xs ys xe ye"
    and "nat ((xe - xs) * (ye - ys) * int (fb_bits_per_pixel p) div 8) \<le> length bs"
    and "e1 = tx_ret w (length (io_log w))" "e2 = tx_ret w (length (io_log w) + 1)"
    and "e3 = tx_ret w (length (io_log w) + 2)"
  shows "\<exists>w'. panel_ili9341_draw_bitmap xs ys xe ye (Some bs) w = Inr (if e1 \<noteq> ESP_OK then e1 else e2, w') \<and>
    (e1 = ESP_OK \<and> e2 = ESP_OK \<or> frame w' = frame w) \<and>
    irq_pending w' = (irq_pending w \<or> e1 = ESP_OK \<and> e2 = ESP_OK \<and> e3 = ESP_OK)"
  using assms draw_bitmap_fits [OF assms(1-4), of "Some bs"]
  by (auto simp: tx_param_def tx_color_def Let_def return_on_error_def frame_def chip_param_keeps)

end
