(* ===== verification/Lcd_Draw.thy ===== *)
theory Lcd_Draw
  imports Ili9341
begin

text \<open>
  \<open>components/lcd_touch/lcd_touch.c\<close>, first part: the module's static variables, the completion
  interrupt and the semaphore it gives, and the two functions that send pixels to the panel
  (\<open>LcdToudh_FillBackground\<close>, \<open>LcdToudh_DrawImageData\<close>), verified against the panel contract.
\<close>

subsection \<open>State\<close>

text \<open>A semaphore handle: null, live (given or not), or deleted.\<close>

datatype sem = SemNull | SemLive bool | SemDeleted

type_synonym touch_callback = nat

record 'd lcd_state =
  dev :: "'d io_world_scheme"
  refresh_finish :: sem
  s_panelHandle :: "'d lcd_panel option"
  s_backgroud_color :: u16
  s_touch_callback_f :: "touch_callback option"
  isTouchOccurred :: bool
  isInitDisplay :: bool

definition LT_LCD_V_RES :: nat where "LT_LCD_V_RES = 240"
definition LT_LCD_H_RES :: nat where "LT_LCD_H_RES = 320"
definition LT_LCD_BIT_PER_PIXEL :: nat where "LT_LCD_BIT_PER_PIXEL = 16"

lemmas lcd_config_defs = LT_LCD_V_RES_def LT_LCD_H_RES_def LT_LCD_BIT_PER_PIXEL_def

subsection \<open>The completion interrupt and the semaphore\<close>

text \<open>Giving or taking a semaphore that is null or deleted is an access outside an object.\<close>

definition LcdTouch_NotifyRefreshReady :: "('d, 'a) lcd_state_scheme \<Rightarrow> ('d, 'a) lcd_state_scheme run" where
  "LcdTouch_NotifyRefreshReady st =
     (case refresh_finish st of SemLive _ \<Rightarrow> Inr (st\<lparr>refresh_finish := SemLive True\<rparr>) | _ \<Rightarrow> Inl Undef)"

definition create_refresh_finish :: "('d, 'a) lcd_state_scheme \<Rightarrow> bool \<times> ('d, 'a) lcd_state_scheme" where
  "create_refresh_finish st =
     (let (ok, w) = sem_create (dev st) in
      (ok, st\<lparr>dev := w, refresh_finish := (if ok then SemLive False else SemNull)\<rparr>))"

definition delete_refresh_finish :: "('d, 'a) lcd_state_scheme \<Rightarrow> ('d, 'a) lcd_state_scheme" where
  "delete_refresh_finish st = st\<lparr>dev := io_emit SemDelete (dev st), refresh_finish := SemDeleted\<rparr>"

text \<open>
  \<open>xSemaphoreTake (refresh_finish, portMAX_DELAY)\<close>: when the semaphore is not given, the task
  waits; a completion interrupt that is due then runs and gives it, otherwise the wait is for ever.
\<close>

definition take_refresh_finish :: "('d, 'a) lcd_state_scheme \<Rightarrow> ('d, 'a) lcd_state_scheme run" where
  "take_refresh_finish st =
     (case refresh_finish st of
        SemLive given \<Rightarrow>
          if given then Inr (st\<lparr>refresh_finish := SemLive False\<rparr>)
          else if irq_pending (dev st)
          then bindR (LcdTouch_NotifyRefreshReady (st\<lparr>dev := (dev st)\<lparr>irq_pending := False\<rparr>\<rparr>)) (\<lambda>st.
               Inr (st\<lparr>refresh_finish := SemLive False\<rparr>))
          else Inl Blocked
      | _ \<Rightarrow> Inl Undef)"

text \<open>A device call under \<open>ESP_ERROR_CHECK\<close>.\<close>

definition check_dev ::
  "('d io_world_scheme \<Rightarrow> (u32 \<times> 'd io_world_scheme) run) \<Rightarrow> ('d, 'a) lcd_state_scheme \<Rightarrow>
    ('d, 'a) lcd_state_scheme run" where
  "check_dev op st =
     bindR (op (dev st)) (\<lambda>(e, w).
     bindR (ESP_ERROR_CHECK e) (\<lambda>_.
     Inr (st\<lparr>dev := w\<rparr>)))"

subsection \<open>\<open>LcdToudh_FillBackground\<close>\<close>

text \<open>The loop \<open>for (i = 0; i < buf_size; i += 2)\<close>.\<close>

function fill_buf :: "u16 \<Rightarrow> nat \<Rightarrow> nat \<Rightarrow> byte list \<Rightarrow> byte list run" where
  "fill_buf color buf_size i display_buf =
     (if i < buf_size
      then bindR (c_write display_buf i (hi8 color)) (\<lambda>display_buf.
           bindR (c_write display_buf (i + 1) (lo8 color)) (\<lambda>display_buf.
           fill_buf color buf_size (i + 2) display_buf))
      else Inr display_buf)"
  by pat_completeness auto
termination by (relation "measure (\<lambda>(_, n, i, _). n - i)") auto

declare fill_buf.simps [simp del]

text \<open>The loop over the strips, \<open>for (j = 0; j < LT_LCD_BIT_PER_PIXEL; j++)\<close>.\<close>

function fill_strips ::
  "'d lcd_panel option \<Rightarrow> nat \<Rightarrow> byte list \<Rightarrow> nat \<Rightarrow> ('d, 'a) lcd_state_scheme \<Rightarrow> ('d, 'a) lcd_state_scheme run" where
  "fill_strips panel_handle row_line display_buf j st =
     (if j < LT_LCD_BIT_PER_PIXEL
      then bindR (check_dev (esp_lcd_panel_draw_bitmap panel_handle 0 (int (j * row_line)) (int LT_LCD_H_RES)
                               (int ((j + 1) * row_line)) (Some display_buf)) st) (\<lambda>st.
           bindR (take_refresh_finish st) (\<lambda>st.
           fill_strips panel_handle row_line display_buf (j + 1) st))
      else Inr st)"
  by pat_completeness auto
termination by (relation "measure (\<lambda>(_, _, _, j, _). LT_LCD_BIT_PER_PIXEL - j)") auto

declare fill_strips.simps [simp del]

definition LcdToudh_FillBackground ::
  "'d lcd_panel option \<Rightarrow> u16 \<Rightarrow> ('d, 'a) lcd_state_scheme \<Rightarrow> ('d, 'a) lcd_state_scheme run" where
  "LcdToudh_FillBackground panel_handle color st =
     (let (ok, st) = create_refresh_finish st in
      if \<not> ok then Inr st else
      let row_line = LT_LCD_V_RES div LT_LCD_BIT_PER_PIXEL;
          byte_per_pixel = LT_LCD_BIT_PER_PIXEL div 8;
          buf_size = row_line * LT_LCD_H_RES * byte_per_pixel;
          (display_buf, w) = heap_calloc buf_size (dev st);
          st = st\<lparr>dev := w\<rparr> in
      (case display_buf of
         None \<Rightarrow> Inr (delete_refresh_finish st)
       | Some buf \<Rightarrow>
           let st = st\<lparr>s_backgroud_color := color\<rparr> in
           bindR (fill_buf color buf_size 0 buf) (\<lambda>buf.
           bindR (fill_strips panel_handle row_line buf 0 st) (\<lambda>st.
           Inr (delete_refresh_finish (st\<lparr>dev := io_emit Free (dev st)\<rparr>))))))"

subsection \<open>\<open>LcdToudh_DrawImageData\<close>\<close>

text \<open>\<open>data_buf = None\<close> is the null pointer.\<close>

record image_data =
  im_color :: u16
  data_buf :: "byte list option"
  buf_len :: u32
  start_x_pos :: u16
  start_y_pos :: u16
  width_px :: u16
  height_px :: u16

text \<open>The loop over the rows; \<open>n\<close> is \<open>start_y_pos + height_px\<close>, an \<open>int\<close>.\<close>

function draw_rows ::
  "'d lcd_panel option \<Rightarrow> image_data \<Rightarrow> nat \<Rightarrow> nat \<Rightarrow> nat \<Rightarrow> ('d, 'a) lcd_state_scheme \<Rightarrow>
    ('d, 'a) lcd_state_scheme run" where
  "draw_rows panel_handle im n i image_data_buf_idx st =
     (if i < n
      then bindR (check_dev (esp_lcd_panel_draw_bitmap panel_handle (int (unat (start_x_pos im))) (int i)
                               (int (unat (start_x_pos im) + unat (width_px im))) (int (i + 1))
                               (map_option (drop image_data_buf_idx) (data_buf im))) st) (\<lambda>st.
           bindR (take_refresh_finish st) (\<lambda>st.
           draw_rows panel_handle im n (i + 1)
             (image_data_buf_idx + unat (width_px im) * (LT_LCD_BIT_PER_PIXEL div 8)) st))
      else Inr st)"
  by pat_completeness auto
termination by (relation "measure (\<lambda>(_, _, n, i, _, _). n - i)") auto

declare draw_rows.simps [simp del]

definition LcdToudh_DrawImageData ::
  "'d lcd_panel option \<Rightarrow> image_data \<Rightarrow> ('d, 'a) lcd_state_scheme \<Rightarrow> ('d, 'a) lcd_state_scheme run" where
  "LcdToudh_DrawImageData panel_handle im st =
     (let (ok, st) = create_refresh_finish st in
      if \<not> ok then Inr st else
      bindR (draw_rows panel_handle im (unat (start_y_pos im) + unat (height_px im)) (unat (start_y_pos im)) 0 st)
        (\<lambda>st. Inr (delete_refresh_finish st)))"

subsection \<open>The buffer of one colour\<close>

lemma fill_buf_ok:
  assumes "length buf = 2 * m" "i \<le> m"
  shows "\<exists>buf'. fill_buf color (2 * m) (2 * i) buf = Inr buf' \<and> length buf' = 2 * m \<and>
    (\<forall>k<2 * i. buf' ! k = buf ! k) \<and> (\<forall>k. i \<le> k \<and> k < m \<longrightarrow> pixel_at buf' k = color)"
  using assms
proof (induction "m - i" arbitrary: i buf)
  case 0
  thus ?case by (subst fill_buf.simps) auto
next
  case (Suc d)
  have im: "i < m" and d: "d = m - Suc i" using Suc.hyps(2) by simp_all
  let ?b = "buf[2 * i := hi8 color, 2 * i + 1 := lo8 color]"
  have step: "fill_buf color (2 * m) (2 * i) buf = fill_buf color (2 * m) (2 * Suc i) ?b"
    using im Suc.prems by (subst fill_buf.simps) simp
  obtain buf' where b: "fill_buf color (2 * m) (2 * Suc i) ?b = Inr buf'" "length buf' = 2 * m"
    "\<forall>k<2 * Suc i. buf' ! k = ?b ! k" "\<forall>k. Suc i \<le> k \<and> k < m \<longrightarrow> pixel_at buf' k = color"
    using Suc.hyps(1) [OF d, of ?b] im Suc.prems(1) by auto
  have "pixel_at buf' i = color"
    using b(3) Suc.hyps(2) Suc.prems(1) by (simp add: pixel_at_def)
  hence "\<forall>k. i \<le> k \<and> k < m \<longrightarrow> pixel_at buf' k = color"
    using b(4) by (metis le_neq_implies_less Suc_leI)
  moreover have "\<forall>k<2 * i. buf' ! k = buf ! k" using b(3) by simp
  ultimately show ?case using b step by auto
qed

subsection \<open>Rectangles of the frame\<close>

definition fill_rect :: "u16 \<Rightarrow> nat \<Rightarrow> nat \<Rightarrow> nat \<Rightarrow> nat \<Rightarrow> frame \<Rightarrow> frame" where
  "fill_rect c xs ys xe ye f = (\<lambda>x y. if xs \<le> x \<and> x < xe \<and> ys \<le> y \<and> y < ye then c else f x y)"

lemma blit_one_colour:
  assumes "\<forall>k < (xe - xs) * (ye - ys). pixel_at bs k = c"
  shows "blit xs ys xe ye bs f = fill_rect c xs ys xe ye f"
proof -
  have "(y - ys) * (xe - xs) + (x - xs) < (xe - xs) * (ye - ys)"
    if "xs \<le> x" "x < xe" "ys \<le> y" "y < ye" for x y
    using window_index [OF that] .
  thus ?thesis using assms by (intro ext) (auto simp: blit_def fill_rect_def)
qed

lemma fill_rect_stack:
  assumes "ys \<le> ym" "ym \<le> ye"
  shows "fill_rect c xs ym xe ye (fill_rect c xs ys xe ym f) = fill_rect c xs ys xe ye f"
  using assms by (intro ext) (auto simp: fill_rect_def)

lemma fill_rect_empty: "fill_rect c xs ys xe ys f = f"
  by (intro ext) (auto simp: fill_rect_def)

lemma blit_empty: "blit xs ys xe ys bs f = f"
  by (intro ext) (auto simp: blit_def)

text \<open>Drawing the first row and then the rest is drawing the rectangle.\<close>

lemma pixel_at_drop: "2 * n \<le> length bs \<Longrightarrow> pixel_at (drop (2 * n) bs) k = pixel_at bs (n + k)"
  by (simp add: pixel_at_def)

lemma blit_rows:
  assumes "ys < ye" "2 * w \<le> length bs"
  shows "blit xs (Suc ys) (xs + w) ye (drop (2 * w) bs) (blit xs ys (xs + w) (Suc ys) bs f) =
    blit xs ys (xs + w) ye bs f"
proof (intro ext)
  fix x y
  consider "y = ys" | d where "y = Suc ys + d" | "y < ys" by (metis le_Suc_ex not_less_eq_eq linorder_neqE_nat not_less)
  thus "blit xs (Suc ys) (xs + w) ye (drop (2 * w) bs) (blit xs ys (xs + w) (Suc ys) bs f) x y =
    blit xs ys (xs + w) ye bs f x y"
  proof cases
    case 1
    thus ?thesis using assms(1) by (simp add: blit_def)
  next
    case 2
    show ?thesis
    proof (cases "xs \<le> x")
      case True
      then obtain e where "x = xs + e" using le_Suc_ex by blast
      thus ?thesis using 2 pixel_at_drop [OF assms(2), of "d * w + e"] by (simp add: blit_def add.assoc)
    qed (simp add: blit_def)
  next
    case 3
    thus ?thesis by (simp add: blit_def)
  qed
qed

subsection \<open>Drawing against the panel contract\<close>

text \<open>What every drawing function does to the device besides the frame: nothing.\<close>

definition draws_to :: "frame \<Rightarrow> 'd io_world_scheme \<Rightarrow> 'd io_world_scheme \<Rightarrow> bool" where
  "draws_to f w w' \<longleftrightarrow> frame w' = f \<and> chip_mode w' = chip_mode w \<and> held w' = held w \<and> all_ok w'"

lemma draws_to_trans: "draws_to f w w' \<Longrightarrow> draws_to g w' w'' \<Longrightarrow> draws_to g w w''"
  by (simp add: draws_to_def)

lemma take_refresh_finish_pending:
  assumes "refresh_finish st = SemLive False" "irq_pending (dev st)"
  shows "take_refresh_finish st = Inr (st\<lparr>dev := (dev st)\<lparr>irq_pending := False\<rparr>\<rparr>)"
  using assms by (cases st) (simp add: take_refresh_finish_def LcdTouch_NotifyRefreshReady_def)

context panel_device begin

lemma draw_and_wait:
  assumes "ready (dev st)" "all_ok (dev st)" "pn_draw_bitmap p = draw" "refresh_finish st = SemLive False"
    and "xs < xe" "ys < ye" "xe \<le> 65536" "ye \<le> 65536" "2 * ((xe - xs) * (ye - ys)) \<le> length bs"
    and "16 * ((xe - xs) * (ye - ys)) < 2 ^ 31"
  shows "\<exists>w'. bindR (check_dev (esp_lcd_panel_draw_bitmap (Some p) (int xs) (int ys) (int xe) (int ye) (Some bs)) st)
      (\<lambda>st. bindR (take_refresh_finish st) f) = f (st\<lparr>dev := w'\<rparr>) \<and>
    draws_to (blit xs ys xe ye bs (frame (dev st))) (dev st) w' \<and> ready w'"
proof -
  obtain w1 where w1: "draw (int xs) (int ys) (int xe) (int ye) (Some bs) (dev st) = Inr (ESP_OK, w1)"
    "frame w1 = blit xs ys xe ye bs (frame (dev st))" "chip_mode w1 = chip_mode (dev st)"
    "held w1 = held (dev st)" "irq_pending w1" "all_ok w1" "ready w1"
    using draw_ok [OF assms(1,2,5-10)] by blast
  let ?w = "w1\<lparr>irq_pending := False\<rparr>"
  have "take_refresh_finish (st\<lparr>dev := w1\<rparr>) = Inr (st\<lparr>dev := ?w\<rparr>)"
    using take_refresh_finish_pending [of "st\<lparr>dev := w1\<rparr>"] assms(4) w1(5) by simp
  hence "bindR (check_dev (esp_lcd_panel_draw_bitmap (Some p) (int xs) (int ys) (int xe) (int ye) (Some bs)) st)
      (\<lambda>st. bindR (take_refresh_finish st) f) = f (st\<lparr>dev := ?w\<rparr>)"
    using w1(1) assms(3) by (simp add: check_dev_def esp_lcd_panel_draw_bitmap_def)
  moreover have "draws_to (blit xs ys xe ye bs (frame (dev st))) (dev st) ?w" "ready ?w"
    using w1 by (simp_all add: draws_to_def ready_irq)
  ultimately show ?thesis by blast
qed

lemma fill_strips_ok:
  assumes "ready (dev st)" "all_ok (dev st)" "pn_draw_bitmap p = draw" "refresh_finish st = SemLive False"
    and "length buf = 9600" "\<forall>k<4800. pixel_at buf k = c" "j \<le> 16"
  shows "\<exists>w'. fill_strips (Some p) 15 buf j st = Inr (st\<lparr>dev := w'\<rparr>) \<and>
    draws_to (fill_rect c 0 (j * 15) 320 240 (frame (dev st))) (dev st) w' \<and> ready w'"
  using assms
proof (induction "16 - j" arbitrary: j st)
  case 0
  hence "j = 16" by simp
  thus ?case
    using 0 by (subst fill_strips.simps)
      (auto simp: LT_LCD_BIT_PER_PIXEL_def draws_to_def fill_rect_empty intro!: exI [of _ "dev st"])
next
  case (Suc d)
  have j: "j < 16" and d: "d = 16 - Suc j" using Suc.hyps(2) by simp_all
  let ?f = "\<lambda>st. fill_strips (Some p) 15 buf (Suc j) st"
  have step: "fill_strips (Some p) 15 buf j st =
    bindR (check_dev (esp_lcd_panel_draw_bitmap (Some p) (int 0) (int (j * 15)) (int 320) (int (Suc j * 15)) (Some buf)) st)
      (\<lambda>st. bindR (take_refresh_finish st) ?f)"
    using j by (subst fill_strips.simps) (simp add: lcd_config_defs algebra_simps)
  obtain w1 where w1: "fill_strips (Some p) 15 buf j st = ?f (st\<lparr>dev := w1\<rparr>)"
    "draws_to (blit 0 (j * 15) 320 (Suc j * 15) buf (frame (dev st))) (dev st) w1" "ready w1"
    using draw_and_wait [OF Suc.prems(1-4), of 0 320 "j * 15" "Suc j * 15" buf ?f] Suc.prems(5) j
    unfolding step by auto
  have strip: "blit 0 (j * 15) 320 (Suc j * 15) buf (frame (dev st)) =
      fill_rect c 0 (j * 15) 320 (Suc j * 15) (frame (dev st))"
    using Suc.prems(6) by (intro blit_one_colour) simp
  have frame: "frame w1 = fill_rect c 0 (j * 15) 320 (Suc j * 15) (frame (dev st))"
    using w1(2) strip by (simp add: draws_to_def)
  obtain w2 where w2: "?f (st\<lparr>dev := w1\<rparr>) = Inr (st\<lparr>dev := w2\<rparr>)"
    "draws_to (fill_rect c 0 (Suc j * 15) 320 240 (frame w1)) w1 w2" "ready w2"
    using Suc.hyps(1) [OF d, of "st\<lparr>dev := w1\<rparr>"] j Suc.prems w1(2,3)
    by (auto simp: draws_to_def)
  have "fill_rect c 0 (Suc j * 15) 320 240 (frame w1) = fill_rect c 0 (j * 15) 320 240 (frame (dev st))"
    unfolding frame using Suc.hyps(2) by (intro fill_rect_stack) simp_all
  thus ?case using w1 w2 draws_to_trans [OF w1(2) w2(2)] by auto
qed

lemma fill_background_ok:
  assumes "ready (dev st)" "all_ok (dev st)" "pn_draw_bitmap p = draw"
  shows "\<exists>w'. LcdToudh_FillBackground (Some p) c st =
      Inr (st\<lparr>dev := w', refresh_finish := SemDeleted, s_backgroud_color := c\<rparr>) \<and>
    draws_to (fill_rect c 0 0 320 240 (frame (dev st))) (dev st) w' \<and> ready w'"
proof -
  define w0 where "w0 = io_emit (Calloc 9600 True) (io_emit (SemCreate True) (dev st))"
  define st0 where "st0 = st\<lparr>dev := w0, refresh_finish := SemLive False, s_backgroud_color := c\<rparr>"
  obtain buf where buf: "fill_buf c 9600 0 (replicate 9600 0) = Inr buf" "length buf = 9600"
    "\<forall>k<4800. pixel_at buf k = c"
    using fill_buf_ok [of "replicate 9600 0" 4800 0 c] by auto
  have w0: "ready w0" "all_ok w0" "frame w0 = frame (dev st)" "chip_mode w0 = chip_mode (dev st)"
    "held w0 = (fst (held (dev st)) + 1, snd (held (dev st)) + 1)"
    using assms(1,2) by (simp_all add: w0_def ready_emit)
  obtain w1 where w1: "fill_strips (Some p) 15 buf 0 st0 = Inr (st0\<lparr>dev := w1\<rparr>)"
    "draws_to (fill_rect c 0 0 320 240 (frame w0)) w0 w1" "ready w1"
    using fill_strips_ok [of st0 p buf c 0] buf(2,3) w0(1,2) assms(3) by (auto simp: st0_def)
  let ?w = "io_emit SemDelete (io_emit Free w1)"
  have "LcdToudh_FillBackground (Some p) c st =
      Inr (st\<lparr>dev := ?w, refresh_finish := SemDeleted, s_backgroud_color := c\<rparr>)"
    using w1(1) buf(1) assms(2)
    by (cases st) (simp add: LcdToudh_FillBackground_def create_refresh_finish_def sem_create_def heap_calloc_def
        all_ok_answers lcd_config_defs delete_refresh_finish_def st0_def w0_def Let_def)
  moreover have "draws_to (fill_rect c 0 0 320 240 (frame (dev st))) (dev st) ?w" "ready ?w"
    using w1(2,3) w0 by (simp_all add: draws_to_def ready_emit)
  ultimately show ?thesis by blast
qed

lemma draw_rows_ok:
  assumes "ready (dev st)" "all_ok (dev st)" "pn_draw_bitmap p = draw" "refresh_finish st = SemLive False"
    and "data_buf im = Some bs" "xs = unat (start_x_pos im)" "wd = unat (width_px im)" "0 < wd"
    and "xs + wd \<le> 65536" "n \<le> 65536" "i \<le> n" "2 * (wd * (n - i)) \<le> length (drop k bs)"
  shows "\<exists>w'. draw_rows (Some p) im n i k st = Inr (st\<lparr>dev := w'\<rparr>) \<and>
    draws_to (blit xs i (xs + wd) n (drop k bs) (frame (dev st))) (dev st) w' \<and> ready w'"
  using assms
proof (induction "n - i" arbitrary: i k st)
  case 0
  thus ?case
    by (subst draw_rows.simps) (auto simp: draws_to_def blit_empty intro!: exI [of _ "dev st"])
next
  case (Suc d)
  have i: "i < n" and d: "d = n - Suc i" using Suc.hyps(2) by simp_all
  have split: "2 * (wd * (n - i)) = 2 * wd + 2 * (wd * (n - Suc i))"
    using i by (simp add: Suc_diff_Suc [symmetric])
  let ?f = "\<lambda>st. draw_rows (Some p) im n (Suc i) (k + wd * 2) st"
  have step: "draw_rows (Some p) im n i k st =
    bindR (check_dev (esp_lcd_panel_draw_bitmap (Some p) (int xs) (int i) (int (xs + wd)) (int (Suc i)) (Some (drop k bs))) st)
      (\<lambda>st. bindR (take_refresh_finish st) ?f)"
    using i Suc.prems(5-7) by (subst draw_rows.simps) (simp add: lcd_config_defs)
  obtain w1 where w1: "draw_rows (Some p) im n i k st = ?f (st\<lparr>dev := w1\<rparr>)"
    "draws_to (blit xs i (xs + wd) (Suc i) (drop k bs) (frame (dev st))) (dev st) w1" "ready w1"
    using draw_and_wait [OF Suc.prems(1-4), of xs "xs + wd" i "Suc i" "drop k bs" ?f] Suc.prems(8-12) i split
    unfolding step by auto
  have len: "2 * (wd * (n - Suc i)) \<le> length (drop (k + wd * 2) bs)"
    using Suc.prems(12) split by simp
  obtain w2 where w2: "?f (st\<lparr>dev := w1\<rparr>) = Inr (st\<lparr>dev := w2\<rparr>)"
    "draws_to (blit xs (Suc i) (xs + wd) n (drop (k + wd * 2) bs) (frame w1)) w1 w2" "ready w2"
    using Suc.hyps(1) [OF d, of "st\<lparr>dev := w1\<rparr>" "k + wd * 2"] Suc.prems i len w1(2,3)
    by (auto simp: draws_to_def)
  have "blit xs (Suc i) (xs + wd) n (drop (k + wd * 2) bs) (frame w1) =
      blit xs i (xs + wd) n (drop k bs) (frame (dev st))"
    using w1(2) blit_rows [OF i, of wd "drop k bs" xs "frame (dev st)"] Suc.prems(12) split
    by (simp add: draws_to_def add.commute mult.commute)
  thus ?case using w1 w2 draws_to_trans [OF w1(2) w2(2)] by auto
qed

lemma draw_image_ok:
  assumes "ready (dev st)" "all_ok (dev st)" "pn_draw_bitmap p = draw"
    and "data_buf im = Some bs" "xs = unat (start_x_pos im)" "ys = unat (start_y_pos im)"
    and "wd = unat (width_px im)" "ht = unat (height_px im)" "0 < wd" "xs + wd \<le> 65536" "ys + ht \<le> 65536"
    and "2 * (wd * ht) \<le> length bs"
  shows "\<exists>w'. LcdToudh_DrawImageData (Some p) im st = Inr (st\<lparr>dev := w', refresh_finish := SemDeleted\<rparr>) \<and>
    draws_to (blit xs ys (xs + wd) (ys + ht) bs (frame (dev st))) (dev st) w' \<and> ready w'"
proof -
  define st0 where "st0 = st\<lparr>dev := io_emit (SemCreate True) (dev st), refresh_finish := SemLive False\<rparr>"
  obtain w1 where w1: "draw_rows (Some p) im (ys + ht) ys 0 st0 = Inr (st0\<lparr>dev := w1\<rparr>)"
    "draws_to (blit xs ys (xs + wd) (ys + ht) bs (frame (dev st))) (dev st0) w1" "ready w1"
    using draw_rows_ok [of st0 p im bs xs wd "ys + ht" ys 0] assms by (auto simp: st0_def ready_emit)
  let ?w = "io_emit SemDelete w1"
  have "LcdToudh_DrawImageData (Some p) im st = Inr (st\<lparr>dev := ?w, refresh_finish := SemDeleted\<rparr>)"
    using w1(1) assms(2,6,8)
    by (cases st) (simp add: LcdToudh_DrawImageData_def create_refresh_finish_def sem_create_def all_ok_answers
        delete_refresh_finish_def st0_def Let_def)
  moreover have "draws_to (blit xs ys (xs + wd) (ys + ht) bs (frame (dev st))) (dev st) ?w" "ready ?w"
    using w1(2,3) by (simp_all add: draws_to_def ready_emit st0_def)
  ultimately show ?thesis by blast
qed

end

end
