(* ===== verification/Font_Glyphs.thy ===== *)
theory Font_Glyphs
  imports TV_Prelude
begin

text \<open>
  The bitmaps of the printable ASCII characters in \<open>components/lcd_touch/Font.h\<close>, as they are
  there: one bit per pixel, most significant bit first, each row padded to whole bytes. The
  compiled file has no glyph of its own for the letter l: the table uses the one of I.
\<close>

record tImage =
  ti_data :: "byte list"
  ti_width :: u16
  ti_height :: u16
  ti_dataSize :: byte

definition tImage_make :: "u16 \<Rightarrow> u16 \<Rightarrow> byte \<Rightarrow> byte list \<Rightarrow> tImage" where
  "tImage_make w h ds d = \<lparr>ti_data = d, ti_width = w, ti_height = h, ti_dataSize = ds\<rparr>"

definition Font_0x20 :: tImage where
  "Font_0x20 = tImage_make 7 20 8 [
     0x00, 0x00, 0x00, 0x00, 0x00, 0x00, 0x00, 0x00, 0x00, 0x00, 0x00, 0x00, 0x00, 0x00, 0x00, 0x00, 0x00, 0x00, 0x00, 0x00]"

definition Font_0x21 :: tImage where
  "Font_0x21 = tImage_make 7 20 8 [
     0x00, 0x00, 0x10, 0x10, 0x10, 0x10, 0x10, 0x10, 0x10, 0x10, 0x10, 0x10, 0x10, 0x00, 0x00, 0x10, 0x10, 0x00, 0x00, 0x00]"

definition Font_0x22 :: tImage where
  "Font_0x22 = tImage_make 8 20 8 [
     0x00, 0x00, 0x24, 0x24, 0x24, 0x24, 0x00, 0x00, 0x00, 0x00, 0x00, 0x00, 0x00, 0x00, 0x00, 0x00, 0x00, 0x00, 0x00, 0x00]"

definition Font_0x23 :: tImage where
  "Font_0x23 = tImage_make 12 20 8 [
     0x00, 0x00, 0x00, 0x00, 0x04, 0x40, 0x04, 0x40, 0x04, 0x40, 0x04, 0x40, 0x3f, 0xf0, 0x08, 0x80, 0x08, 0x80, 0x08, 0x80,
     0x11, 0x00, 0x11, 0x00, 0x7f, 0xe0, 0x11, 0x00, 0x22, 0x00, 0x22, 0x00, 0x22, 0x00, 0x00, 0x00, 0x00, 0x00, 0x00, 0x00]"

definition Font_0x24 :: tImage where
  "Font_0x24 = tImage_make 11 20 8 [
     0x04, 0x00, 0x04, 0x00, 0x1f, 0x00, 0x24, 0x80, 0x44, 0x40, 0x44, 0x00, 0x44, 0x00, 0x24, 0x00, 0x1f, 0x00, 0x04, 0x80,
     0x04, 0x40, 0x04, 0x40, 0x44, 0x40, 0x44, 0x40, 0x24, 0x80, 0x1f, 0x00, 0x04, 0x00, 0x04, 0x00, 0x00, 0x00, 0x00, 0x00]"

definition Font_0x25 :: tImage where
  "Font_0x25 = tImage_make 17 20 8 [
     0x00, 0x00, 0x00, 0x00, 0x00, 0x00, 0x18, 0x08, 0x00, 0x24, 0x08, 0x00, 0x42, 0x10, 0x00, 0x42, 0x20, 0x00, 0x42, 0x20,
     0x00, 0x24, 0x40, 0x00, 0x18, 0x80, 0x00, 0x00, 0x8c, 0x00, 0x01, 0x12, 0x00, 0x02, 0x21, 0x00, 0x02, 0x21, 0x00, 0x04,
     0x21, 0x00, 0x08, 0x12, 0x00, 0x08, 0x0c, 0x00, 0x00, 0x00, 0x00, 0x00, 0x00, 0x00, 0x00, 0x00, 0x00, 0x00, 0x00, 0x00]"

definition Font_0x26 :: tImage where
  "Font_0x26 = tImage_make 13 20 8 [
     0x00, 0x00, 0x00, 0x00, 0x0e, 0x00, 0x11, 0x00, 0x20, 0x80, 0x20, 0x80, 0x20, 0x80, 0x11, 0x00, 0x0e, 0x10, 0x14, 0x10,
     0x22, 0x20, 0x41, 0x20, 0x40, 0xc0, 0x40, 0x40, 0x40, 0xa0, 0x21, 0x10, 0x1e, 0x08, 0x00, 0x00, 0x00, 0x00, 0x00, 0x00]"

definition Font_0x27 :: tImage where
  "Font_0x27 = tImage_make 7 20 8 [
     0x00, 0x00, 0x10, 0x10, 0x10, 0x10, 0x00, 0x00, 0x00, 0x00, 0x00, 0x00, 0x00, 0x00, 0x00, 0x00, 0x00, 0x00, 0x00, 0x00]"

definition Font_0x28 :: tImage where
  "Font_0x28 = tImage_make 6 20 8 [
     0x00, 0x08, 0x10, 0x20, 0x20, 0x40, 0x40, 0x40, 0x40, 0x40, 0x40, 0x40, 0x40, 0x40, 0x20, 0x20, 0x10, 0x08, 0x00, 0x00]"

definition Font_0x29 :: tImage where
  "Font_0x29 = tImage_make 6 20 8 [
     0x00, 0x40, 0x20, 0x10, 0x10, 0x08, 0x08, 0x08, 0x08, 0x08, 0x08, 0x08, 0x08, 0x08, 0x10, 0x10, 0x20, 0x40, 0x00, 0x00]"

definition Font_0x2a :: tImage where
  "Font_0x2a = tImage_make 11 20 8 [
     0x00, 0x00, 0x00, 0x00, 0x00, 0x00, 0x00, 0x00, 0x00, 0x00, 0x00, 0x00, 0x04, 0x00, 0x04, 0x00, 0x35, 0x80, 0x0e, 0x00,
     0x0a, 0x00, 0x11, 0x00, 0x00, 0x00, 0x00, 0x00, 0x00, 0x00, 0x00, 0x00, 0x00, 0x00, 0x00, 0x00, 0x00, 0x00, 0x00, 0x00]"

definition Font_0x2b :: tImage where
  "Font_0x2b = tImage_make 11 20 8 [
     0x00, 0x00, 0x00, 0x00, 0x00, 0x00, 0x00, 0x00, 0x00, 0x00, 0x04, 0x00, 0x04, 0x00, 0x04, 0x00, 0x04, 0x00, 0x7f, 0xc0,
     0x04, 0x00, 0x04, 0x00, 0x04, 0x00, 0x04, 0x00, 0x00, 0x00, 0x00, 0x00, 0x00, 0x00, 0x00, 0x00, 0x00, 0x00, 0x00, 0x00]"

definition Font_0x2c :: tImage where
  "Font_0x2c = tImage_make 7 20 8 [
     0x00, 0x00, 0x00, 0x00, 0x00, 0x00, 0x00, 0x00, 0x00, 0x00, 0x00, 0x00, 0x00, 0x00, 0x00, 0x10, 0x10, 0x10, 0x20, 0x00]"

definition Font_0x2d :: tImage where
  "Font_0x2d = tImage_make 11 20 8 [
     0x00, 0x00, 0x00, 0x00, 0x00, 0x00, 0x00, 0x00, 0x00, 0x00, 0x00, 0x00, 0x00, 0x00, 0x00, 0x00, 0x00, 0x00, 0x7f, 0xc0,
     0x00, 0x00, 0x00, 0x00, 0x00, 0x00, 0x00, 0x00, 0x00, 0x00, 0x00, 0x00, 0x00, 0x00, 0x00, 0x00, 0x00, 0x00, 0x00, 0x00]"

definition Font_0x2e :: tImage where
  "Font_0x2e = tImage_make 7 20 8 [
     0x00, 0x00, 0x00, 0x00, 0x00, 0x00, 0x00, 0x00, 0x00, 0x00, 0x00, 0x00, 0x00, 0x00, 0x00, 0x20, 0x20, 0x00, 0x00, 0x00]"

definition Font_0x2f :: tImage where
  "Font_0x2f = tImage_make 9 20 8 [
     0x00, 0x80, 0x00, 0x80, 0x01, 0x00, 0x01, 0x00, 0x02, 0x00, 0x02, 0x00, 0x04, 0x00, 0x04, 0x00, 0x08, 0x00, 0x08, 0x00,
     0x10, 0x00, 0x10, 0x00, 0x20, 0x00, 0x20, 0x00, 0x40, 0x00, 0x40, 0x00, 0x80, 0x00, 0x80, 0x00, 0x00, 0x00, 0x00, 0x00]"

definition Font_0x30 :: tImage where
  "Font_0x30 = tImage_make 11 20 8 [
     0x00, 0x00, 0x00, 0x00, 0x0e, 0x00, 0x11, 0x00, 0x20, 0x80, 0x40, 0x40, 0x40, 0x40, 0x40, 0x40, 0x40, 0x40, 0x40, 0x40,
     0x40, 0x40, 0x40, 0x40, 0x40, 0x40, 0x40, 0x40, 0x20, 0x80, 0x11, 0x00, 0x0e, 0x00, 0x00, 0x00, 0x00, 0x00, 0x00, 0x00]"

definition Font_0x31 :: tImage where
  "Font_0x31 = tImage_make 11 20 8 [
     0x00, 0x00, 0x00, 0x00, 0x02, 0x00, 0x02, 0x00, 0x1e, 0x00, 0x02, 0x00, 0x02, 0x00, 0x02, 0x00, 0x02, 0x00, 0x02, 0x00,
     0x02, 0x00, 0x02, 0x00, 0x02, 0x00, 0x02, 0x00, 0x02, 0x00, 0x02, 0x00, 0x02, 0x00, 0x00, 0x00, 0x00, 0x00, 0x00, 0x00]"

definition Font_0x32 :: tImage where
  "Font_0x32 = tImage_make 11 20 8 [
     0x00, 0x00, 0x00, 0x00, 0x1f, 0x00, 0x20, 0x80, 0x40, 0x40, 0x40, 0x40, 0x40, 0x40, 0x00, 0x80, 0x00, 0x80, 0x01, 0x00,
     0x06, 0x00, 0x08, 0x00, 0x10, 0x00, 0x20, 0x00, 0x20, 0x00, 0x40, 0x00, 0x7f, 0xc0, 0x00, 0x00, 0x00, 0x00, 0x00, 0x00]"

definition Font_0x33 :: tImage where
  "Font_0x33 = tImage_make 11 20 8 [
     0x00, 0x00, 0x00, 0x00, 0x1f, 0x00, 0x20, 0x80, 0x40, 0x40, 0x40, 0x40, 0x00, 0x40, 0x00, 0x80, 0x1f, 0x00, 0x00, 0x80,
     0x00, 0x40, 0x00, 0x40, 0x00, 0x40, 0x40, 0x40, 0x40, 0x40, 0x20, 0x80, 0x1f, 0x00, 0x00, 0x00, 0x00, 0x00, 0x00, 0x00]"

definition Font_0x34 :: tImage where
  "Font_0x34 = tImage_make 11 20 8 [
     0x00, 0x00, 0x00, 0x00, 0x01, 0x80, 0x02, 0x80, 0x02, 0x80, 0x04, 0x80, 0x08, 0x80, 0x08, 0x80, 0x10, 0x80, 0x20, 0x80,
     0x20, 0x80, 0x40, 0x80, 0x7f, 0xe0, 0x00, 0x80, 0x00, 0x80, 0x00, 0x80, 0x00, 0x80, 0x00, 0x00, 0x00, 0x00, 0x00, 0x00]"

definition Font_0x35 :: tImage where
  "Font_0x35 = tImage_make 11 20 8 [
     0x00, 0x00, 0x00, 0x00, 0x3f, 0xc0, 0x20, 0x00, 0x20, 0x00, 0x20, 0x00, 0x20, 0x00, 0x2f, 0x00, 0x30, 0x80, 0x20, 0x40,
     0x20, 0x40, 0x00, 0x40, 0x00, 0x40, 0x00, 0x40, 0x40, 0x40, 0x20, 0x80, 0x1f, 0x00, 0x00, 0x00, 0x00, 0x00, 0x00, 0x00]"

definition Font_0x36 :: tImage where
  "Font_0x36 = tImage_make 11 20 8 [
     0x00, 0x00, 0x00, 0x00, 0x1f, 0x00, 0x20, 0x80, 0x40, 0x40, 0x40, 0x40, 0x40, 0x00, 0x40, 0x00, 0x5f, 0x00, 0x60, 0x80,
     0x40, 0x40, 0x40, 0x40, 0x40, 0x40, 0x40, 0x40, 0x40, 0x40, 0x20, 0x80, 0x1f, 0x00, 0x00, 0x00, 0x00, 0x00, 0x00, 0x00]"

definition Font_0x37 :: tImage where
  "Font_0x37 = tImage_make 11 20 8 [
     0x00, 0x00, 0x00, 0x00, 0x7f, 0xc0, 0x00, 0x40, 0x00, 0x80, 0x00, 0x80, 0x01, 0x00, 0x01, 0x00, 0x02, 0x00, 0x02, 0x00,
     0x04, 0x00, 0x04, 0x00, 0x04, 0x00, 0x08, 0x00, 0x08, 0x00, 0x08, 0x00, 0x08, 0x00, 0x00, 0x00, 0x00, 0x00, 0x00, 0x00]"

definition Font_0x38 :: tImage where
  "Font_0x38 = tImage_make 11 20 8 [
     0x00, 0x00, 0x00, 0x00, 0x1f, 0x00, 0x20, 0x80, 0x40, 0x40, 0x40, 0x40, 0x40, 0x40, 0x20, 0x80, 0x1f, 0x00, 0x20, 0x80,
     0x40, 0x40, 0x40, 0x40, 0x40, 0x40, 0x40, 0x40, 0x40, 0x40, 0x20, 0x80, 0x1f, 0x00, 0x00, 0x00, 0x00, 0x00, 0x00, 0x00]"

definition Font_0x39 :: tImage where
  "Font_0x39 = tImage_make 11 20 8 [
     0x00, 0x00, 0x00, 0x00, 0x1f, 0x00, 0x20, 0x80, 0x40, 0x40, 0x40, 0x40, 0x40, 0x40, 0x40, 0x40, 0x40, 0x40, 0x20, 0xc0,
     0x1f, 0x40, 0x00, 0x40, 0x00, 0x40, 0x40, 0x40, 0x40, 0x40, 0x20, 0x80, 0x1f, 0x00, 0x00, 0x00, 0x00, 0x00, 0x00, 0x00]"

definition Font_0x3a :: tImage where
  "Font_0x3a = tImage_make 7 20 8 [
     0x00, 0x00, 0x00, 0x00, 0x00, 0x10, 0x10, 0x00, 0x00, 0x00, 0x00, 0x00, 0x10, 0x10, 0x00, 0x00, 0x00, 0x00, 0x00, 0x00]"

definition Font_0x3b :: tImage where
  "Font_0x3b = tImage_make 7 20 8 [
     0x00, 0x00, 0x00, 0x00, 0x00, 0x10, 0x10, 0x00, 0x00, 0x00, 0x00, 0x00, 0x10, 0x10, 0x10, 0x20, 0x00, 0x00, 0x00, 0x00]"

definition Font_0x3c :: tImage where
  "Font_0x3c = tImage_make 11 20 8 [
     0x00, 0x00, 0x00, 0x00, 0x00, 0x80, 0x01, 0x00, 0x02, 0x00, 0x04, 0x00, 0x08, 0x00, 0x10, 0x00, 0x20, 0x00, 0x40, 0x00,
     0x20, 0x00, 0x10, 0x00, 0x08, 0x00, 0x04, 0x00, 0x02, 0x00, 0x01, 0x00, 0x00, 0x80, 0x00, 0x00, 0x00, 0x00, 0x00, 0x00]"

definition Font_0x3d :: tImage where
  "Font_0x3d = tImage_make 11 20 8 [
     0x00, 0x00, 0x00, 0x00, 0x00, 0x00, 0x00, 0x00, 0x00, 0x00, 0x00, 0x00, 0x00, 0x00, 0x7f, 0xc0, 0x00, 0x00, 0x00, 0x00,
     0x00, 0x00, 0x7f, 0xc0, 0x00, 0x00, 0x00, 0x00, 0x00, 0x00, 0x00, 0x00, 0x00, 0x00, 0x00, 0x00, 0x00, 0x00, 0x00, 0x00]"

definition Font_0x3e :: tImage where
  "Font_0x3e = tImage_make 11 20 8 [
     0x00, 0x00, 0x00, 0x00, 0x20, 0x00, 0x10, 0x00, 0x08, 0x00, 0x04, 0x00, 0x02, 0x00, 0x01, 0x00, 0x00, 0x80, 0x00, 0x40,
     0x00, 0x80, 0x01, 0x00, 0x02, 0x00, 0x04, 0x00, 0x08, 0x00, 0x10, 0x00, 0x20, 0x00, 0x00, 0x00, 0x00, 0x00, 0x00, 0x00]"

definition Font_0x3f :: tImage where
  "Font_0x3f = tImage_make 11 20 8 [
     0x00, 0x00, 0x00, 0x00, 0x1f, 0x00, 0x20, 0x80, 0x40, 0x40, 0x40, 0x40, 0x40, 0x40, 0x00, 0x80, 0x01, 0x00, 0x02, 0x00,
     0x04, 0x00, 0x04, 0x00, 0x04, 0x00, 0x00, 0x00, 0x00, 0x00, 0x04, 0x00, 0x04, 0x00, 0x00, 0x00, 0x00, 0x00, 0x00, 0x00]"

definition Font_0x40 :: tImage where
  "Font_0x40 = tImage_make 17 20 8 [
     0x00, 0x00, 0x00, 0x00, 0x00, 0x00, 0x01, 0xf0, 0x00, 0x06, 0x0c, 0x00, 0x08, 0x02, 0x00, 0x10, 0xe9, 0x00, 0x21, 0x19,
     0x00, 0x22, 0x09, 0x00, 0x44, 0x09, 0x00, 0x44, 0x11, 0x00, 0x44, 0x12, 0x00, 0x44, 0x32, 0x00, 0x42, 0x64, 0x00, 0x21,
     0x98, 0x00, 0x20, 0x00, 0x00, 0x18, 0x06, 0x00, 0x07, 0xf8, 0x00, 0x00, 0x00, 0x00, 0x00, 0x00, 0x00, 0x00, 0x00, 0x00]"

definition Font_0x41 :: tImage where
  "Font_0x41 = tImage_make 13 20 8 [
     0x00, 0x00, 0x00, 0x00, 0x02, 0x00, 0x02, 0x00, 0x05, 0x00, 0x05, 0x00, 0x08, 0x80, 0x08, 0x80, 0x08, 0x80, 0x10, 0x40,
     0x10, 0x40, 0x3f, 0xe0, 0x20, 0x20, 0x20, 0x20, 0x40, 0x10, 0x40, 0x10, 0x40, 0x10, 0x00, 0x00, 0x00, 0x00, 0x00, 0x00]"

definition Font_0x42 :: tImage where
  "Font_0x42 = tImage_make 12 20 8 [
     0x00, 0x00, 0x00, 0x00, 0x7f, 0x00, 0x40, 0x80, 0x40, 0x40, 0x40, 0x40, 0x40, 0x40, 0x40, 0x80, 0x7f, 0x80, 0x40, 0x40,
     0x40, 0x20, 0x40, 0x20, 0x40, 0x20, 0x40, 0x20, 0x40, 0x20, 0x40, 0x40, 0x7f, 0x80, 0x00, 0x00, 0x00, 0x00, 0x00, 0x00]"

definition Font_0x43 :: tImage where
  "Font_0x43 = tImage_make 12 20 8 [
     0x00, 0x00, 0x00, 0x00, 0x0f, 0x80, 0x10, 0x40, 0x20, 0x20, 0x20, 0x20, 0x40, 0x00, 0x40, 0x00, 0x40, 0x00, 0x40, 0x00,
     0x40, 0x00, 0x40, 0x00, 0x40, 0x00, 0x20, 0x20, 0x20, 0x20, 0x10, 0x40, 0x0f, 0x80, 0x00, 0x00, 0x00, 0x00, 0x00, 0x00]"

definition Font_0x44 :: tImage where
  "Font_0x44 = tImage_make 13 20 8 [
     0x00, 0x00, 0x00, 0x00, 0x7f, 0x00, 0x40, 0x80, 0x40, 0x40, 0x40, 0x20, 0x40, 0x20, 0x40, 0x10, 0x40, 0x10, 0x40, 0x10,
     0x40, 0x10, 0x40, 0x10, 0x40, 0x20, 0x40, 0x20, 0x40, 0x40, 0x40, 0x80, 0x7f, 0x00, 0x00, 0x00, 0x00, 0x00, 0x00, 0x00]"

definition Font_0x45 :: tImage where
  "Font_0x45 = tImage_make 12 20 8 [
     0x00, 0x00, 0x00, 0x00, 0x7f, 0xe0, 0x40, 0x00, 0x40, 0x00, 0x40, 0x00, 0x40, 0x00, 0x40, 0x00, 0x40, 0x00, 0x7f, 0xc0,
     0x40, 0x00, 0x40, 0x00, 0x40, 0x00, 0x40, 0x00, 0x40, 0x00, 0x40, 0x00, 0x7f, 0xe0, 0x00, 0x00, 0x00, 0x00, 0x00, 0x00]"

definition Font_0x46 :: tImage where
  "Font_0x46 = tImage_make 11 20 8 [
     0x00, 0x00, 0x00, 0x00, 0x7f, 0xe0, 0x40, 0x00, 0x40, 0x00, 0x40, 0x00, 0x40, 0x00, 0x40, 0x00, 0x40, 0x00, 0x7f, 0xc0,
     0x40, 0x00, 0x40, 0x00, 0x40, 0x00, 0x40, 0x00, 0x40, 0x00, 0x40, 0x00, 0x40, 0x00, 0x00, 0x00, 0x00, 0x00, 0x00, 0x00]"

definition Font_0x47 :: tImage where
  "Font_0x47 = tImage_make 14 20 8 [
     0x00, 0x00, 0x00, 0x00, 0x07, 0xc0, 0x08, 0x20, 0x10, 0x10, 0x20, 0x08, 0x20, 0x00, 0x40, 0x00, 0x40, 0x00, 0x41, 0xf8,
     0x40, 0x08, 0x40, 0x08, 0x20, 0x08, 0x20, 0x08, 0x10, 0x18, 0x08, 0x28, 0x07, 0xc8, 0x00, 0x00, 0x00, 0x00, 0x00, 0x00]"

definition Font_0x48 :: tImage where
  "Font_0x48 = tImage_make 12 20 8 [
     0x00, 0x00, 0x00, 0x00, 0x40, 0x20, 0x40, 0x20, 0x40, 0x20, 0x40, 0x20, 0x40, 0x20, 0x40, 0x20, 0x40, 0x20, 0x7f, 0xe0,
     0x40, 0x20, 0x40, 0x20, 0x40, 0x20, 0x40, 0x20, 0x40, 0x20, 0x40, 0x20, 0x40, 0x20, 0x00, 0x00, 0x00, 0x00, 0x00, 0x00]"

definition Font_0x49 :: tImage where
  "Font_0x49 = tImage_make 3 20 8 [
     0x00, 0x00, 0x40, 0x40, 0x40, 0x40, 0x40, 0x40, 0x40, 0x40, 0x40, 0x40, 0x40, 0x40, 0x40, 0x40, 0x40, 0x00, 0x00, 0x00]"

definition Font_0x4a :: tImage where
  "Font_0x4a = tImage_make 8 20 8 [
     0x00, 0x00, 0x02, 0x02, 0x02, 0x02, 0x02, 0x02, 0x02, 0x02, 0x02, 0x02, 0x02, 0x82, 0x82, 0x44, 0x38, 0x00, 0x00, 0x00]"

definition Font_0x4b :: tImage where
  "Font_0x4b = tImage_make 11 20 8 [
     0x00, 0x00, 0x00, 0x00, 0x40, 0x40, 0x40, 0x80, 0x41, 0x00, 0x42, 0x00, 0x44, 0x00, 0x48, 0x00, 0x50, 0x00, 0x70, 0x00,
     0x48, 0x00, 0x44, 0x00, 0x42, 0x00, 0x41, 0x00, 0x40, 0x80, 0x40, 0x40, 0x40, 0x20, 0x00, 0x00, 0x00, 0x00, 0x00, 0x00]"

definition Font_0x4c :: tImage where
  "Font_0x4c = tImage_make 11 20 8 [
     0x00, 0x00, 0x00, 0x00, 0x40, 0x00, 0x40, 0x00, 0x40, 0x00, 0x40, 0x00, 0x40, 0x00, 0x40, 0x00, 0x40, 0x00, 0x40, 0x00,
     0x40, 0x00, 0x40, 0x00, 0x40, 0x00, 0x40, 0x00, 0x40, 0x00, 0x40, 0x00, 0x7f, 0xe0, 0x00, 0x00, 0x00, 0x00, 0x00, 0x00]"

definition Font_0x4d :: tImage where
  "Font_0x4d = tImage_make 15 20 8 [
     0x00, 0x00, 0x00, 0x00, 0x40, 0x04, 0x40, 0x04, 0x60, 0x0c, 0x60, 0x0c, 0x50, 0x14, 0x50, 0x14, 0x48, 0x24, 0x48, 0x24,
     0x44, 0x44, 0x44, 0x44, 0x42, 0x84, 0x42, 0x84, 0x41, 0x04, 0x41, 0x04, 0x40, 0x04, 0x00, 0x00, 0x00, 0x00, 0x00, 0x00]"

definition Font_0x4e :: tImage where
  "Font_0x4e = tImage_make 12 20 8 [
     0x00, 0x00, 0x00, 0x00, 0x60, 0x20, 0x60, 0x20, 0x50, 0x20, 0x50, 0x20, 0x48, 0x20, 0x48, 0x20, 0x44, 0x20, 0x44, 0x20,
     0x42, 0x20, 0x42, 0x20, 0x41, 0x20, 0x41, 0x20, 0x40, 0xa0, 0x40, 0xa0, 0x40, 0x60, 0x00, 0x00, 0x00, 0x00, 0x00, 0x00]"

definition Font_0x4f :: tImage where
  "Font_0x4f = tImage_make 15 20 8 [
     0x00, 0x00, 0x00, 0x00, 0x07, 0xc0, 0x08, 0x20, 0x10, 0x10, 0x20, 0x08, 0x20, 0x08, 0x40, 0x04, 0x40, 0x04, 0x40, 0x04,
     0x40, 0x04, 0x40, 0x04, 0x20, 0x08, 0x20, 0x08, 0x10, 0x10, 0x08, 0x20, 0x07, 0xc0, 0x00, 0x00, 0x00, 0x00, 0x00, 0x00]"

definition Font_0x50 :: tImage where
  "Font_0x50 = tImage_make 12 20 8 [
     0x00, 0x00, 0x00, 0x00, 0x7f, 0x80, 0x40, 0x40, 0x40, 0x20, 0x40, 0x20, 0x40, 0x20, 0x40, 0x20, 0x40, 0x40, 0x7f, 0x80,
     0x40, 0x00, 0x40, 0x00, 0x40, 0x00, 0x40, 0x00, 0x40, 0x00, 0x40, 0x00, 0x40, 0x00, 0x00, 0x00, 0x00, 0x00, 0x00, 0x00]"

definition Font_0x51 :: tImage where
  "Font_0x51 = tImage_make 15 20 8 [
     0x00, 0x00, 0x00, 0x00, 0x07, 0xc0, 0x08, 0x20, 0x10, 0x10, 0x20, 0x08, 0x20, 0x08, 0x40, 0x04, 0x40, 0x04, 0x40, 0x04,
     0x40, 0x04, 0x40, 0x04, 0x20, 0x88, 0x20, 0x48, 0x10, 0x30, 0x08, 0x30, 0x07, 0xc8, 0x00, 0x04, 0x00, 0x00, 0x00, 0x00]"

definition Font_0x52 :: tImage where
  "Font_0x52 = tImage_make 12 20 8 [
     0x00, 0x00, 0x00, 0x00, 0x7f, 0x80, 0x40, 0x40, 0x40, 0x20, 0x40, 0x20, 0x40, 0x20, 0x40, 0x20, 0x40, 0x40, 0x7f, 0x80,
     0x40, 0x40, 0x40, 0x20, 0x40, 0x20, 0x40, 0x20, 0x40, 0x20, 0x40, 0x20, 0x40, 0x20, 0x00, 0x00, 0x00, 0x00, 0x00, 0x00]"

definition Font_0x53 :: tImage where
  "Font_0x53 = tImage_make 13 20 8 [
     0x00, 0x00, 0x00, 0x00, 0x1f, 0xc0, 0x20, 0x20, 0x40, 0x10, 0x40, 0x10, 0x40, 0x00, 0x20, 0x00, 0x18, 0x00, 0x07, 0x00,
     0x00, 0xc0, 0x00, 0x20, 0x00, 0x10, 0x40, 0x10, 0x40, 0x10, 0x20, 0x20, 0x1f, 0xc0, 0x00, 0x00, 0x00, 0x00, 0x00, 0x00]"

definition Font_0x54 :: tImage where
  "Font_0x54 = tImage_make 12 20 8 [
     0x00, 0x00, 0x00, 0x00, 0x7f, 0xf0, 0x02, 0x00, 0x02, 0x00, 0x02, 0x00, 0x02, 0x00, 0x02, 0x00, 0x02, 0x00, 0x02, 0x00,
     0x02, 0x00, 0x02, 0x00, 0x02, 0x00, 0x02, 0x00, 0x02, 0x00, 0x02, 0x00, 0x02, 0x00, 0x00, 0x00, 0x00, 0x00, 0x00, 0x00]"

definition Font_0x55 :: tImage where
  "Font_0x55 = tImage_make 12 20 8 [
     0x00, 0x00, 0x00, 0x00, 0x40, 0x20, 0x40, 0x20, 0x40, 0x20, 0x40, 0x20, 0x40, 0x20, 0x40, 0x20, 0x40, 0x20, 0x40, 0x20,
     0x40, 0x20, 0x40, 0x20, 0x40, 0x20, 0x40, 0x20, 0x40, 0x20, 0x20, 0x40, 0x1f, 0x80, 0x00, 0x00, 0x00, 0x00, 0x00, 0x00]"

definition Font_0x56 :: tImage where
  "Font_0x56 = tImage_make 13 20 8 [
     0x00, 0x00, 0x00, 0x00, 0x40, 0x10, 0x40, 0x10, 0x20, 0x20, 0x20, 0x20, 0x20, 0x20, 0x10, 0x40, 0x10, 0x40, 0x10, 0x40,
     0x08, 0x80, 0x08, 0x80, 0x08, 0x80, 0x05, 0x00, 0x05, 0x00, 0x02, 0x00, 0x02, 0x00, 0x00, 0x00, 0x00, 0x00, 0x00, 0x00]"

definition Font_0x57 :: tImage where
  "Font_0x57 = tImage_make 17 20 8 [
     0x00, 0x00, 0x00, 0x00, 0x00, 0x00, 0x40, 0x81, 0x00, 0x40, 0x81, 0x00, 0x40, 0x81, 0x00, 0x41, 0x41, 0x00, 0x21, 0x42,
     0x00, 0x21, 0x42, 0x00, 0x22, 0x22, 0x00, 0x22, 0x22, 0x00, 0x12, 0x24, 0x00, 0x14, 0x14, 0x00, 0x14, 0x14, 0x00, 0x14,
     0x14, 0x00, 0x08, 0x08, 0x00, 0x08, 0x08, 0x00, 0x08, 0x08, 0x00, 0x00, 0x00, 0x00, 0x00, 0x00, 0x00, 0x00, 0x00, 0x00]"

definition Font_0x58 :: tImage where
  "Font_0x58 = tImage_make 13 20 8 [
     0x00, 0x00, 0x00, 0x00, 0x40, 0x10, 0x40, 0x10, 0x20, 0x20, 0x10, 0x40, 0x08, 0x80, 0x08, 0x80, 0x05, 0x00, 0x02, 0x00,
     0x05, 0x00, 0x08, 0x80, 0x08, 0x80, 0x10, 0x40, 0x20, 0x20, 0x40, 0x10, 0x40, 0x10, 0x00, 0x00, 0x00, 0x00, 0x00, 0x00]"

definition Font_0x59 :: tImage where
  "Font_0x59 = tImage_make 13 20 8 [
     0x00, 0x00, 0x00, 0x00, 0x40, 0x10, 0x40, 0x10, 0x20, 0x20, 0x10, 0x40, 0x10, 0x40, 0x08, 0x80, 0x05, 0x00, 0x05, 0x00,
     0x02, 0x00, 0x02, 0x00, 0x02, 0x00, 0x02, 0x00, 0x02, 0x00, 0x02, 0x00, 0x02, 0x00, 0x00, 0x00, 0x00, 0x00, 0x00, 0x00]"

definition Font_0x5a :: tImage where
  "Font_0x5a = tImage_make 12 20 8 [
     0x00, 0x00, 0x00, 0x00, 0x7f, 0xe0, 0x00, 0x20, 0x00, 0x40, 0x00, 0x80, 0x01, 0x00, 0x01, 0x00, 0x02, 0x00, 0x04, 0x00,
     0x08, 0x00, 0x08, 0x00, 0x10, 0x00, 0x20, 0x00, 0x40, 0x00, 0x7f, 0xe0, 0x00, 0x00, 0x00, 0x00, 0x00, 0x00, 0x00, 0x00]"

definition Font_0x5b :: tImage where
  "Font_0x5b = tImage_make 10 20 8 [
     0x00, 0x00, 0x0f, 0x00, 0x08, 0x00, 0x08, 0x00, 0x08, 0x00, 0x08, 0x00, 0x08, 0x00, 0x08, 0x00, 0x08, 0x00, 0x08, 0x00,
     0x08, 0x00, 0x08, 0x00, 0x08, 0x00, 0x08, 0x00, 0x08, 0x00, 0x08, 0x00, 0x08, 0x00, 0x0f, 0x00, 0x00, 0x00, 0x00, 0x00]"

definition Font_0x5c :: tImage where
  "Font_0x5c = tImage_make 19 20 8 [
     0x00, 0x00, 0x00, 0x00, 0x00, 0x00, 0x20, 0x40, 0x80, 0x20, 0x40, 0x80, 0x20, 0x40, 0x80, 0x20, 0x40, 0x80, 0x10, 0xa1,
     0x00, 0x10, 0xa1, 0x00, 0x7f, 0xff, 0xc0, 0x11, 0x11, 0x00, 0x09, 0x12, 0x00, 0x0a, 0x0a, 0x00, 0x0a, 0x0a, 0x00, 0x06,
     0x0c, 0x00, 0x04, 0x04, 0x00, 0x04, 0x04, 0x00, 0x04, 0x04, 0x00, 0x00, 0x00, 0x00, 0x00, 0x00, 0x00, 0x00, 0x00, 0x00]"

definition Font_0x5d :: tImage where
  "Font_0x5d = tImage_make 10 20 8 [
     0x00, 0x00, 0x3c, 0x00, 0x04, 0x00, 0x04, 0x00, 0x04, 0x00, 0x04, 0x00, 0x04, 0x00, 0x04, 0x00, 0x04, 0x00, 0x04, 0x00,
     0x04, 0x00, 0x04, 0x00, 0x04, 0x00, 0x04, 0x00, 0x04, 0x00, 0x04, 0x00, 0x04, 0x00, 0x3c, 0x00, 0x00, 0x00, 0x00, 0x00]"

definition Font_0x5e :: tImage where
  "Font_0x5e = tImage_make 11 20 8 [
     0x00, 0x00, 0x00, 0x00, 0x04, 0x00, 0x0a, 0x00, 0x11, 0x00, 0x20, 0x80, 0x40, 0x40, 0x00, 0x00, 0x00, 0x00, 0x00, 0x00,
     0x00, 0x00, 0x00, 0x00, 0x00, 0x00, 0x00, 0x00, 0x00, 0x00, 0x00, 0x00, 0x00, 0x00, 0x00, 0x00, 0x00, 0x00, 0x00, 0x00]"

definition Font_0x5f :: tImage where
  "Font_0x5f = tImage_make 10 20 8 [
     0x00, 0x00, 0x00, 0x00, 0x00, 0x00, 0x00, 0x00, 0x00, 0x00, 0x00, 0x00, 0x00, 0x00, 0x00, 0x00, 0x00, 0x00, 0x00, 0x00,
     0x00, 0x00, 0x00, 0x00, 0x00, 0x00, 0x00, 0x00, 0x00, 0x00, 0x00, 0x00, 0x7f, 0xc0, 0x00, 0x00, 0x00, 0x00, 0x00, 0x00]"

definition Font_0x60 :: tImage where
  "Font_0x60 = tImage_make 7 20 8 [
     0x00, 0x00, 0x20, 0x10, 0x08, 0x00, 0x00, 0x00, 0x00, 0x00, 0x00, 0x00, 0x00, 0x00, 0x00, 0x00, 0x00, 0x00, 0x00, 0x00]"

definition Font_0x61 :: tImage where
  "Font_0x61 = tImage_make 10 20 8 [
     0x00, 0x00, 0x00, 0x00, 0x00, 0x00, 0x00, 0x00, 0x00, 0x00, 0x00, 0x00, 0x1e, 0x00, 0x21, 0x00, 0x40, 0x80, 0x00, 0x80,
     0x1f, 0x80, 0x20, 0x80, 0x40, 0x80, 0x40, 0x80, 0x40, 0x80, 0x21, 0x80, 0x1e, 0x40, 0x00, 0x00, 0x00, 0x00, 0x00, 0x00]"

definition Font_0x62 :: tImage where
  "Font_0x62 = tImage_make 10 20 8 [
     0x00, 0x00, 0x00, 0x00, 0x40, 0x00, 0x40, 0x00, 0x40, 0x00, 0x40, 0x00, 0x5e, 0x00, 0x61, 0x00, 0x40, 0x80, 0x40, 0x80,
     0x40, 0x80, 0x40, 0x80, 0x40, 0x80, 0x40, 0x80, 0x40, 0x80, 0x61, 0x00, 0x5e, 0x00, 0x00, 0x00, 0x00, 0x00, 0x00, 0x00]"

definition Font_0x63 :: tImage where
  "Font_0x63 = tImage_make 10 20 8 [
     0x00, 0x00, 0x00, 0x00, 0x00, 0x00, 0x00, 0x00, 0x00, 0x00, 0x00, 0x00, 0x1e, 0x00, 0x21, 0x00, 0x40, 0x80, 0x40, 0x00,
     0x40, 0x00, 0x40, 0x00, 0x40, 0x00, 0x40, 0x00, 0x40, 0x80, 0x21, 0x00, 0x1e, 0x00, 0x00, 0x00, 0x00, 0x00, 0x00, 0x00]"

definition Font_0x64 :: tImage where
  "Font_0x64 = tImage_make 10 20 8 [
     0x00, 0x00, 0x00, 0x00, 0x00, 0x80, 0x00, 0x80, 0x00, 0x80, 0x00, 0x80, 0x1e, 0x80, 0x21, 0x80, 0x40, 0x80, 0x40, 0x80,
     0x40, 0x80, 0x40, 0x80, 0x40, 0x80, 0x40, 0x80, 0x40, 0x80, 0x21, 0x80, 0x1e, 0x80, 0x00, 0x00, 0x00, 0x00, 0x00, 0x00]"

definition Font_0x65 :: tImage where
  "Font_0x65 = tImage_make 11 20 8 [
     0x00, 0x00, 0x00, 0x00, 0x00, 0x00, 0x00, 0x00, 0x00, 0x00, 0x00, 0x00, 0x1f, 0x00, 0x20, 0x80, 0x40, 0x40, 0x40, 0x40,
     0x40, 0x40, 0x7f, 0xc0, 0x40, 0x00, 0x40, 0x00, 0x40, 0x40, 0x20, 0x80, 0x1f, 0x00, 0x00, 0x00, 0x00, 0x00, 0x00, 0x00]"

definition Font_0x66 :: tImage where
  "Font_0x66 = tImage_make 6 20 8 [
     0x00, 0x00, 0x18, 0x20, 0x20, 0x20, 0xf8, 0x20, 0x20, 0x20, 0x20, 0x20, 0x20, 0x20, 0x20, 0x20, 0x20, 0x00, 0x00, 0x00]"

definition Font_0x67 :: tImage where
  "Font_0x67 = tImage_make 10 20 8 [
     0x00, 0x00, 0x00, 0x00, 0x00, 0x00, 0x00, 0x00, 0x00, 0x00, 0x00, 0x00, 0x1e, 0x80, 0x21, 0x80, 0x40, 0x80, 0x40, 0x80,
     0x40, 0x80, 0x40, 0x80, 0x40, 0x80, 0x21, 0x80, 0x1e, 0x80, 0x00, 0x80, 0x40, 0x80, 0x21, 0x00, 0x1e, 0x00, 0x00, 0x00]"

definition Font_0x68 :: tImage where
  "Font_0x68 = tImage_make 10 20 8 [
     0x00, 0x00, 0x00, 0x00, 0x40, 0x00, 0x40, 0x00, 0x40, 0x00, 0x40, 0x00, 0x5e, 0x00, 0x61, 0x00, 0x40, 0x80, 0x40, 0x80,
     0x40, 0x80, 0x40, 0x80, 0x40, 0x80, 0x40, 0x80, 0x40, 0x80, 0x40, 0x80, 0x40, 0x80, 0x00, 0x00, 0x00, 0x00, 0x00, 0x00]"

definition Font_0x69 :: tImage where
  "Font_0x69 = tImage_make 3 20 8 [
     0x00, 0x00, 0x40, 0x40, 0x00, 0x00, 0x40, 0x40, 0x40, 0x40, 0x40, 0x40, 0x40, 0x40, 0x40, 0x40, 0x40, 0x00, 0x00, 0x00]"

definition Font_0x6a :: tImage where
  "Font_0x6a = tImage_make 4 20 8 [
     0x00, 0x00, 0x20, 0x20, 0x00, 0x00, 0x20, 0x20, 0x20, 0x20, 0x20, 0x20, 0x20, 0x20, 0x20, 0x20, 0x20, 0x20, 0xc0, 0x00]"

definition Font_0x6b :: tImage where
  "Font_0x6b = tImage_make 9 20 8 [
     0x00, 0x00, 0x00, 0x00, 0x40, 0x00, 0x40, 0x00, 0x40, 0x00, 0x40, 0x00, 0x41, 0x00, 0x42, 0x00, 0x44, 0x00, 0x48, 0x00,
     0x50, 0x00, 0x70, 0x00, 0x48, 0x00, 0x44, 0x00, 0x42, 0x00, 0x41, 0x00, 0x40, 0x80, 0x00, 0x00, 0x00, 0x00, 0x00, 0x00]"

definition Font_0x6d :: tImage where
  "Font_0x6d = tImage_make 15 20 8 [
     0x00, 0x00, 0x00, 0x00, 0x00, 0x00, 0x00, 0x00, 0x00, 0x00, 0x00, 0x00, 0x5c, 0x70, 0x62, 0x88, 0x41, 0x04, 0x41, 0x04,
     0x41, 0x04, 0x41, 0x04, 0x41, 0x04, 0x41, 0x04, 0x41, 0x04, 0x41, 0x04, 0x41, 0x04, 0x00, 0x00, 0x00, 0x00, 0x00, 0x00]"

definition Font_0x6e :: tImage where
  "Font_0x6e = tImage_make 10 20 8 [
     0x00, 0x00, 0x00, 0x00, 0x00, 0x00, 0x00, 0x00, 0x00, 0x00, 0x00, 0x00, 0x5e, 0x00, 0x61, 0x00, 0x40, 0x80, 0x40, 0x80,
     0x40, 0x80, 0x40, 0x80, 0x40, 0x80, 0x40, 0x80, 0x40, 0x80, 0x40, 0x80, 0x40, 0x80, 0x00, 0x00, 0x00, 0x00, 0x00, 0x00]"

definition Font_0x6f :: tImage where
  "Font_0x6f = tImage_make 11 20 8 [
     0x00, 0x00, 0x00, 0x00, 0x00, 0x00, 0x00, 0x00, 0x00, 0x00, 0x00, 0x00, 0x1f, 0x00, 0x20, 0x80, 0x40, 0x40, 0x40, 0x40,
     0x40, 0x40, 0x40, 0x40, 0x40, 0x40, 0x40, 0x40, 0x40, 0x40, 0x20, 0x80, 0x1f, 0x00, 0x00, 0x00, 0x00, 0x00, 0x00, 0x00]"

definition Font_0x70 :: tImage where
  "Font_0x70 = tImage_make 11 20 8 [
     0x00, 0x00, 0x00, 0x00, 0x00, 0x00, 0x00, 0x00, 0x00, 0x00, 0x00, 0x00, 0x5f, 0x00, 0x60, 0x80, 0x40, 0x40, 0x40, 0x40,
     0x40, 0x40, 0x40, 0x40, 0x40, 0x40, 0x40, 0x40, 0x60, 0x80, 0x5f, 0x00, 0x40, 0x00, 0x40, 0x00, 0x40, 0x00, 0x00, 0x00]"

definition Font_0x71 :: tImage where
  "Font_0x71 = tImage_make 11 20 8 [
     0x00, 0x00, 0x00, 0x00, 0x00, 0x00, 0x00, 0x00, 0x00, 0x00, 0x00, 0x00, 0x1f, 0x40, 0x20, 0xc0, 0x40, 0x40, 0x40, 0x40,
     0x40, 0x40, 0x40, 0x40, 0x40, 0x40, 0x40, 0x40, 0x20, 0xc0, 0x1f, 0x40, 0x00, 0x40, 0x00, 0x40, 0x00, 0x40, 0x00, 0x00]"

definition Font_0x72 :: tImage where
  "Font_0x72 = tImage_make 5 20 8 [
     0x00, 0x00, 0x00, 0x00, 0x00, 0x00, 0x58, 0x60, 0x40, 0x40, 0x40, 0x40, 0x40, 0x40, 0x40, 0x40, 0x40, 0x00, 0x00, 0x00]"

definition Font_0x73 :: tImage where
  "Font_0x73 = tImage_make 10 20 8 [
     0x00, 0x00, 0x00, 0x00, 0x00, 0x00, 0x00, 0x00, 0x00, 0x00, 0x00, 0x00, 0x3f, 0x00, 0x40, 0x80, 0x40, 0x80, 0x40, 0x00,
     0x30, 0x00, 0x0c, 0x00, 0x03, 0x00, 0x00, 0x80, 0x40, 0x80, 0x40, 0x80, 0x3f, 0x00, 0x00, 0x00, 0x00, 0x00, 0x00, 0x00]"

definition Font_0x74 :: tImage where
  "Font_0x74 = tImage_make 6 20 8 [
     0x00, 0x00, 0x00, 0x20, 0x20, 0x20, 0xf8, 0x20, 0x20, 0x20, 0x20, 0x20, 0x20, 0x20, 0x20, 0x20, 0x18, 0x00, 0x00, 0x00]"

definition Font_0x75 :: tImage where
  "Font_0x75 = tImage_make 10 20 8 [
     0x00, 0x00, 0x00, 0x00, 0x00, 0x00, 0x00, 0x00, 0x00, 0x00, 0x00, 0x00, 0x40, 0x80, 0x40, 0x80, 0x40, 0x80, 0x40, 0x80,
     0x40, 0x80, 0x40, 0x80, 0x40, 0x80, 0x40, 0x80, 0x40, 0x80, 0x21, 0x80, 0x1e, 0x80, 0x00, 0x00, 0x00, 0x00, 0x00, 0x00]"

definition Font_0x76 :: tImage where
  "Font_0x76 = tImage_make 10 20 8 [
     0x00, 0x00, 0x00, 0x00, 0x00, 0x00, 0x00, 0x00, 0x00, 0x00, 0x00, 0x00, 0x40, 0x40, 0x40, 0x40, 0x40, 0x40, 0x20, 0x80,
     0x20, 0x80, 0x11, 0x00, 0x11, 0x00, 0x0a, 0x00, 0x0a, 0x00, 0x04, 0x00, 0x04, 0x00, 0x00, 0x00, 0x00, 0x00, 0x00, 0x00]"

definition Font_0x77 :: tImage where
  "Font_0x77 = tImage_make 14 20 8 [
     0x00, 0x00, 0x00, 0x00, 0x00, 0x00, 0x00, 0x00, 0x00, 0x00, 0x00, 0x00, 0x41, 0x04, 0x41, 0x04, 0x41, 0x04, 0x22, 0x88,
     0x22, 0x88, 0x22, 0x88, 0x14, 0x50, 0x14, 0x50, 0x14, 0x50, 0x08, 0x20, 0x08, 0x20, 0x00, 0x00, 0x00, 0x00, 0x00, 0x00]"

definition Font_0x78 :: tImage where
  "Font_0x78 = tImage_make 11 20 8 [
     0x00, 0x00, 0x00, 0x00, 0x00, 0x00, 0x00, 0x00, 0x00, 0x00, 0x00, 0x00, 0x40, 0x40, 0x40, 0x40, 0x20, 0x80, 0x11, 0x00,
     0x0a, 0x00, 0x04, 0x00, 0x0a, 0x00, 0x11, 0x00, 0x20, 0x80, 0x40, 0x40, 0x40, 0x40, 0x00, 0x00, 0x00, 0x00, 0x00, 0x00]"

definition Font_0x79 :: tImage where
  "Font_0x79 = tImage_make 10 20 8 [
     0x00, 0x00, 0x00, 0x00, 0x00, 0x00, 0x00, 0x00, 0x00, 0x00, 0x00, 0x00, 0x40, 0x40, 0x40, 0x40, 0x40, 0x40, 0x20, 0x80,
     0x20, 0x80, 0x11, 0x00, 0x11, 0x00, 0x0a, 0x00, 0x0a, 0x00, 0x04, 0x00, 0x04, 0x00, 0x08, 0x00, 0x70, 0x00, 0x00, 0x00]"

definition Font_0x7a :: tImage where
  "Font_0x7a = tImage_make 10 20 8 [
     0x00, 0x00, 0x00, 0x00, 0x00, 0x00, 0x00, 0x00, 0x00, 0x00, 0x00, 0x00, 0x7f, 0x80, 0x00, 0x80, 0x01, 0x00, 0x02, 0x00,
     0x04, 0x00, 0x08, 0x00, 0x10, 0x00, 0x20, 0x00, 0x40, 0x00, 0x7f, 0x80, 0x00, 0x00, 0x00, 0x00, 0x00, 0x00, 0x00, 0x00]"

definition Font_0x7b :: tImage where
  "Font_0x7b = tImage_make 10 20 8 [
     0x00, 0x00, 0x03, 0x00, 0x04, 0x00, 0x04, 0x00, 0x04, 0x00, 0x04, 0x00, 0x04, 0x00, 0x04, 0x00, 0x04, 0x00, 0x18, 0x00,
     0x04, 0x00, 0x04, 0x00, 0x04, 0x00, 0x04, 0x00, 0x04, 0x00, 0x04, 0x00, 0x04, 0x00, 0x03, 0x00, 0x00, 0x00, 0x00, 0x00]"

definition Font_0x7c :: tImage where
  "Font_0x7c = tImage_make 10 20 8 [
     0x00, 0x00, 0x08, 0x00, 0x08, 0x00, 0x08, 0x00, 0x08, 0x00, 0x08, 0x00, 0x08, 0x00, 0x08, 0x00, 0x08, 0x00, 0x08, 0x00,
     0x08, 0x00, 0x08, 0x00, 0x08, 0x00, 0x08, 0x00, 0x08, 0x00, 0x08, 0x00, 0x08, 0x00, 0x08, 0x00, 0x00, 0x00, 0x00, 0x00]"

definition Font_0x7d :: tImage where
  "Font_0x7d = tImage_make 10 20 8 [
     0x00, 0x00, 0x30, 0x00, 0x08, 0x00, 0x08, 0x00, 0x08, 0x00, 0x08, 0x00, 0x08, 0x00, 0x08, 0x00, 0x08, 0x00, 0x06, 0x00,
     0x08, 0x00, 0x08, 0x00, 0x08, 0x00, 0x08, 0x00, 0x08, 0x00, 0x08, 0x00, 0x08, 0x00, 0x30, 0x00, 0x00, 0x00, 0x00, 0x00]"

definition Font_0x7e :: tImage where
  "Font_0x7e = tImage_make 15 20 8 [
     0x00, 0x00, 0x00, 0x00, 0x00, 0x00, 0x00, 0x00, 0x00, 0x00, 0x00, 0x00, 0x00, 0x00, 0x00, 0x00, 0x3c, 0x00, 0x43, 0x84,
     0x00, 0x78, 0x00, 0x00, 0x00, 0x00, 0x00, 0x00, 0x00, 0x00, 0x00, 0x00, 0x00, 0x00, 0x00, 0x00, 0x00, 0x00, 0x00, 0x00]"

definition ascii_images :: "tImage list" where
  "ascii_images = [
     Font_0x20, Font_0x21, Font_0x22, Font_0x23, Font_0x24, Font_0x25,
     Font_0x26, Font_0x27, Font_0x28, Font_0x29, Font_0x2a, Font_0x2b,
     Font_0x2c, Font_0x2d, Font_0x2e, Font_0x2f, Font_0x30, Font_0x31,
     Font_0x32, Font_0x33, Font_0x34, Font_0x35, Font_0x36, Font_0x37,
     Font_0x38, Font_0x39, Font_0x3a, Font_0x3b, Font_0x3c, Font_0x3d,
     Font_0x3e, Font_0x3f, Font_0x40, Font_0x41, Font_0x42, Font_0x43,
     Font_0x44, Font_0x45, Font_0x46, Font_0x47, Font_0x48, Font_0x49,
     Font_0x4a, Font_0x4b, Font_0x4c, Font_0x4d, Font_0x4e, Font_0x4f,
     Font_0x50, Font_0x51, Font_0x52, Font_0x53, Font_0x54, Font_0x55,
     Font_0x56, Font_0x57, Font_0x58, Font_0x59, Font_0x5a, Font_0x5b,
     Font_0x5c, Font_0x5d, Font_0x5e, Font_0x5f, Font_0x60, Font_0x61,
     Font_0x62, Font_0x63, Font_0x64, Font_0x65, Font_0x66, Font_0x67,
     Font_0x68, Font_0x69, Font_0x6a, Font_0x6b, Font_0x49, Font_0x6d,
     Font_0x6e, Font_0x6f, Font_0x70, Font_0x71, Font_0x72, Font_0x73,
     Font_0x74, Font_0x75, Font_0x76, Font_0x77, Font_0x78, Font_0x79,
     Font_0x7a, Font_0x7b, Font_0x7c, Font_0x7d, Font_0x7e]"

lemmas glyph_defs =
  Font_0x20_def Font_0x21_def Font_0x22_def Font_0x23_def Font_0x24_def
  Font_0x25_def Font_0x26_def Font_0x27_def Font_0x28_def Font_0x29_def
  Font_0x2a_def Font_0x2b_def Font_0x2c_def Font_0x2d_def Font_0x2e_def
  Font_0x2f_def Font_0x30_def Font_0x31_def Font_0x32_def Font_0x33_def
  Font_0x34_def Font_0x35_def Font_0x36_def Font_0x37_def Font_0x38_def
  Font_0x39_def Font_0x3a_def Font_0x3b_def Font_0x3c_def Font_0x3d_def
  Font_0x3e_def Font_0x3f_def Font_0x40_def Font_0x41_def Font_0x42_def
  Font_0x43_def Font_0x44_def Font_0x45_def Font_0x46_def Font_0x47_def
  Font_0x48_def Font_0x49_def Font_0x4a_def Font_0x4b_def Font_0x4c_def
  Font_0x4d_def Font_0x4e_def Font_0x4f_def Font_0x50_def Font_0x51_def
  Font_0x52_def Font_0x53_def Font_0x54_def Font_0x55_def Font_0x56_def
  Font_0x57_def Font_0x58_def Font_0x59_def Font_0x5a_def Font_0x5b_def
  Font_0x5c_def Font_0x5d_def Font_0x5e_def Font_0x5f_def Font_0x60_def
  Font_0x61_def Font_0x62_def Font_0x63_def Font_0x64_def Font_0x65_def
  Font_0x66_def Font_0x67_def Font_0x68_def Font_0x69_def Font_0x6a_def
  Font_0x6b_def Font_0x6d_def Font_0x6e_def Font_0x6f_def Font_0x70_def
  Font_0x71_def Font_0x72_def Font_0x73_def Font_0x74_def Font_0x75_def
  Font_0x76_def Font_0x77_def Font_0x78_def Font_0x79_def Font_0x7a_def
  Font_0x7b_def Font_0x7c_def Font_0x7d_def Font_0x7e_def

end
