(* ===== verification/Font_Letters.thy ===== *)
theory Font_Letters
  imports Font_Glyphs
begin

text \<open>
  The bitmaps of the Hangul letters U+3131 to U+318E in \<open>components/lcd_touch/Font.h\<close>, named as they are
  there by the bytes of the letter's UTF-8 encoding: 20 by 20 pixels, three bytes a row.
\<close>

definition Font_0xe384b1 :: tImage where
  "Font_0xe384b1 = tImage_make 20 20 8 [
     0x00, 0x00, 0x00, 0x00, 0x00, 0x00, 0x00, 0x00, 0x00, 0x00, 0x00, 0x00, 0x00, 0x00, 0x00, 0x00, 0x00, 0x00, 0x0f, 0xff,
     0x00, 0x00, 0x01, 0x00, 0x00, 0x01, 0x00, 0x00, 0x01, 0x00, 0x00, 0x01, 0x00, 0x00, 0x01, 0x00, 0x00, 0x01, 0x00, 0x00,
     0x01, 0x00, 0x00, 0x01, 0x00, 0x00, 0x01, 0x00, 0x00, 0x00, 0x00, 0x00, 0x00, 0x00, 0x00, 0x00, 0x00, 0x00, 0x00, 0x00]"

definition Font_0xe384b2 :: tImage where
  "Font_0xe384b2 = tImage_make 20 20 8 [
     0x00, 0x00, 0x00, 0x00, 0x00, 0x00, 0x00, 0x00, 0x00, 0x00, 0x00, 0x00, 0x00, 0x00, 0x00, 0x00, 0x00, 0x00, 0x1f, 0xbf,
     0x80, 0x00, 0x80, 0x80, 0x00, 0x80, 0x80, 0x00, 0x80, 0x80, 0x00, 0x80, 0x80, 0x00, 0x80, 0x80, 0x00, 0x80, 0x80, 0x00,
     0x80, 0x80, 0x00, 0x80, 0x80, 0x00, 0x80, 0x80, 0x00, 0x00, 0x00, 0x00, 0x00, 0x00, 0x00, 0x00, 0x00, 0x00, 0x00, 0x00]"

definition Font_0xe384b3 :: tImage where
  "Font_0xe384b3 = tImage_make 20 20 8 [
     0x00, 0x00, 0x00, 0x00, 0x00, 0x00, 0x00, 0x00, 0x00, 0x00, 0x00, 0x00, 0x00, 0x00, 0x00, 0x00, 0x00, 0x00, 0x1f, 0x84,
     0x00, 0x00, 0x84, 0x00, 0x00, 0x84, 0x00, 0x00, 0x84, 0x00, 0x00, 0x84, 0x00, 0x00, 0x8a, 0x00, 0x00, 0x8a, 0x00, 0x00,
     0x91, 0x00, 0x00, 0x91, 0x00, 0x00, 0xa0, 0x80, 0x00, 0x00, 0x00, 0x00, 0x00, 0x00, 0x00, 0x00, 0x00, 0x00, 0x00, 0x00]"

definition Font_0xe384b4 :: tImage where
  "Font_0xe384b4 = tImage_make 20 20 8 [
     0x00, 0x00, 0x00, 0x00, 0x00, 0x00, 0x00, 0x00, 0x00, 0x00, 0x00, 0x00, 0x00, 0x00, 0x00, 0x00, 0x00, 0x00, 0x08, 0x00,
     0x00, 0x08, 0x00, 0x00, 0x08, 0x00, 0x00, 0x08, 0x00, 0x00, 0x08, 0x00, 0x00, 0x08, 0x00, 0x00, 0x08, 0x00, 0x00, 0x08,
     0x00, 0x00, 0x08, 0x00, 0x00, 0x0f, 0xff, 0x00, 0x00, 0x00, 0x00, 0x00, 0x00, 0x00, 0x00, 0x00, 0x00, 0x00, 0x00, 0x00]"

definition Font_0xe384b5 :: tImage where
  "Font_0xe384b5 = tImage_make 20 20 8 [
     0x00, 0x00, 0x00, 0x00, 0x00, 0x00, 0x00, 0x00, 0x00, 0x00, 0x00, 0x00, 0x00, 0x00, 0x00, 0x00, 0x00, 0x00, 0x10, 0x7f,
     0xc0, 0x10, 0x04, 0x00, 0x10, 0x04, 0x00, 0x10, 0x04, 0x00, 0x10, 0x04, 0x00, 0x10, 0x0a, 0x00, 0x10, 0x0a, 0x00, 0x10,
     0x11, 0x00, 0x10, 0x20, 0x80, 0x1f, 0xc0, 0x40, 0x00, 0x00, 0x00, 0x00, 0x00, 0x00, 0x00, 0x00, 0x00, 0x00, 0x00, 0x00]"

definition Font_0xe384b6 :: tImage where
  "Font_0xe384b6 = tImage_make 20 20 8 [
     0x00, 0x00, 0x00, 0x00, 0x00, 0x00, 0x00, 0x00, 0x00, 0x00, 0x00, 0x00, 0x00, 0x00, 0x00, 0x00, 0x00, 0x00, 0x10, 0x1e,
     0x00, 0x10, 0x00, 0x00, 0x10, 0xff, 0xc0, 0x10, 0x00, 0x00, 0x10, 0x1e, 0x00, 0x10, 0x21, 0x00, 0x10, 0x21, 0x00, 0x10,
     0x21, 0x00, 0x10, 0x21, 0x00, 0x1f, 0x9e, 0x00, 0x00, 0x00, 0x00, 0x00, 0x00, 0x00, 0x00, 0x00, 0x00, 0x00, 0x00, 0x00]"

definition Font_0xe384b7 :: tImage where
  "Font_0xe384b7 = tImage_make 20 20 8 [
     0x00, 0x00, 0x00, 0x00, 0x00, 0x00, 0x00, 0x00, 0x00, 0x00, 0x00, 0x00, 0x00, 0x00, 0x00, 0x00, 0x00, 0x00, 0x0f, 0xfe,
     0x00, 0x08, 0x00, 0x00, 0x08, 0x00, 0x00, 0x08, 0x00, 0x00, 0x08, 0x00, 0x00, 0x08, 0x00, 0x00, 0x08, 0x00, 0x00, 0x08,
     0x00, 0x00, 0x08, 0x00, 0x00, 0x0f, 0xff, 0x00, 0x00, 0x00, 0x00, 0x00, 0x00, 0x00, 0x00, 0x00, 0x00, 0x00, 0x00, 0x00]"

definition Font_0xe384b8 :: tImage where
  "Font_0xe384b8 = tImage_make 20 20 8 [
     0x00, 0x00, 0x00, 0x00, 0x00, 0x00, 0x00, 0x00, 0x00, 0x00, 0x00, 0x00, 0x00, 0x00, 0x00, 0x00, 0x00, 0x00, 0x1f, 0xbf,
     0x00, 0x10, 0x20, 0x00, 0x10, 0x20, 0x00, 0x10, 0x20, 0x00, 0x10, 0x20, 0x00, 0x10, 0x20, 0x00, 0x10, 0x20, 0x00, 0x10,
     0x20, 0x00, 0x10, 0x20, 0x00, 0x1f, 0xbf, 0x80, 0x00, 0x00, 0x00, 0x00, 0x00, 0x00, 0x00, 0x00, 0x00, 0x00, 0x00, 0x00]"

definition Font_0xe384b9 :: tImage where
  "Font_0xe384b9 = tImage_make 20 20 8 [
     0x00, 0x00, 0x00, 0x00, 0x00, 0x00, 0x00, 0x00, 0x00, 0x00, 0x00, 0x00, 0x00, 0x00, 0x00, 0x00, 0x00, 0x00, 0x0f, 0xfe,
     0x00, 0x00, 0x02, 0x00, 0x00, 0x02, 0x00, 0x00, 0x02, 0x00, 0x0f, 0xfe, 0x00, 0x08, 0x00, 0x00, 0x08, 0x00, 0x00, 0x08,
     0x00, 0x00, 0x08, 0x00, 0x00, 0x0f, 0xfe, 0x00, 0x00, 0x00, 0x00, 0x00, 0x00, 0x00, 0x00, 0x00, 0x00, 0x00, 0x00, 0x00]"

definition Font_0xe384ba :: tImage where
  "Font_0xe384ba = tImage_make 20 20 8 [
     0x00, 0x00, 0x00, 0x00, 0x00, 0x00, 0x00, 0x00, 0x00, 0x00, 0x00, 0x00, 0x00, 0x00, 0x00, 0x00, 0x00, 0x00, 0x1f, 0xdf,
     0x80, 0x00, 0x40, 0x80, 0x00, 0x40, 0x80, 0x00, 0x40, 0x80, 0x1f, 0xc0, 0x80, 0x10, 0x00, 0x80, 0x10, 0x00, 0x80, 0x10,
     0x00, 0x80, 0x10, 0x00, 0x80, 0x1f, 0xe0, 0x80, 0x00, 0x00, 0x00, 0x00, 0x00, 0x00, 0x00, 0x00, 0x00, 0x00, 0x00, 0x00]"

definition Font_0xe384bb :: tImage where
  "Font_0xe384bb = tImage_make 20 20 8 [
     0x00, 0x00, 0x00, 0x00, 0x00, 0x00, 0x00, 0x00, 0x00, 0x00, 0x00, 0x00, 0x00, 0x00, 0x00, 0x00, 0x00, 0x00, 0x1f, 0x9f,
     0xc0, 0x00, 0x90, 0x40, 0x00, 0x90, 0x40, 0x00, 0x90, 0x40, 0x1f, 0x90, 0x40, 0x10, 0x10, 0x40, 0x10, 0x10, 0x40, 0x10,
     0x10, 0x40, 0x10, 0x10, 0x40, 0x1f, 0xdf, 0xc0, 0x00, 0x00, 0x00, 0x00, 0x00, 0x00, 0x00, 0x00, 0x00, 0x00, 0x00, 0x00]"

definition Font_0xe384bc :: tImage where
  "Font_0xe384bc = tImage_make 20 20 8 [
     0x00, 0x00, 0x00, 0x00, 0x00, 0x00, 0x00, 0x00, 0x00, 0x00, 0x00, 0x00, 0x00, 0x00, 0x00, 0x00, 0x00, 0x00, 0x1f, 0x90,
     0x40, 0x00, 0x90, 0x40, 0x00, 0x90, 0x40, 0x00, 0x9f, 0xc0, 0x1f, 0x90, 0x40, 0x10, 0x10, 0x40, 0x10, 0x10, 0x40, 0x10,
     0x10, 0x40, 0x10, 0x10, 0x40, 0x1f, 0xdf, 0xc0, 0x00, 0x00, 0x00, 0x00, 0x00, 0x00, 0x00, 0x00, 0x00, 0x00, 0x00, 0x00]"

definition Font_0xe384bd :: tImage where
  "Font_0xe384bd = tImage_make 20 20 8 [
     0x00, 0x00, 0x00, 0x00, 0x00, 0x00, 0x00, 0x00, 0x00, 0x00, 0x00, 0x00, 0x00, 0x00, 0x00, 0x00, 0x00, 0x00, 0x1f, 0x82,
     0x00, 0x00, 0x82, 0x00, 0x00, 0x82, 0x00, 0x00, 0x82, 0x00, 0x1f, 0x82, 0x00, 0x10, 0x05, 0x00, 0x10, 0x05, 0x00, 0x10,
     0x08, 0x80, 0x10, 0x08, 0x80, 0x1f, 0xd0, 0x40, 0x00, 0x00, 0x00, 0x00, 0x00, 0x00, 0x00, 0x00, 0x00, 0x00, 0x00, 0x00]"

definition Font_0xe384be :: tImage where
  "Font_0xe384be = tImage_make 20 20 8 [
     0x00, 0x00, 0x00, 0x00, 0x00, 0x00, 0x00, 0x00, 0x00, 0x00, 0x00, 0x00, 0x00, 0x00, 0x00, 0x00, 0x00, 0x00, 0x1f, 0x9f,
     0xc0, 0x00, 0x90, 0x00, 0x00, 0x90, 0x00, 0x00, 0x90, 0x00, 0x1f, 0x9f, 0x80, 0x10, 0x10, 0x00, 0x10, 0x10, 0x00, 0x10,
     0x10, 0x00, 0x10, 0x10, 0x00, 0x1f, 0xdf, 0xc0, 0x00, 0x00, 0x00, 0x00, 0x00, 0x00, 0x00, 0x00, 0x00, 0x00, 0x00, 0x00]"

definition Font_0xe384bf :: tImage where
  "Font_0xe384bf = tImage_make 20 20 8 [
     0x00, 0x00, 0x00, 0x00, 0x00, 0x00, 0x00, 0x00, 0x00, 0x00, 0x00, 0x00, 0x00, 0x00, 0x00, 0x00, 0x00, 0x00, 0x1f, 0xbf,
     0xc0, 0x00, 0x80, 0x00, 0x00, 0x88, 0x80, 0x00, 0x88, 0x80, 0x1f, 0x88, 0x80, 0x10, 0x08, 0x80, 0x10, 0x08, 0x80, 0x10,
     0x08, 0x80, 0x10, 0x08, 0x80, 0x1f, 0xbf, 0xe0, 0x00, 0x00, 0x00, 0x00, 0x00, 0x00, 0x00, 0x00, 0x00, 0x00, 0x00, 0x00]"

definition Font_0xe38580 :: tImage where
  "Font_0xe38580 = tImage_make 20 20 8 [
     0x00, 0x00, 0x00, 0x00, 0x00, 0x00, 0x00, 0x00, 0x00, 0x00, 0x00, 0x00, 0x00, 0x00, 0x00, 0x00, 0x00, 0x00, 0x1f, 0x8f,
     0x00, 0x00, 0x80, 0x00, 0x00, 0x80, 0x00, 0x00, 0xbf, 0xe0, 0x1f, 0x80, 0x00, 0x10, 0x0f, 0x00, 0x10, 0x10, 0x80, 0x10,
     0x10, 0x80, 0x10, 0x10, 0x80, 0x1f, 0xcf, 0x00, 0x00, 0x00, 0x00, 0x00, 0x00, 0x00, 0x00, 0x00, 0x00, 0x00, 0x00, 0x00]"

definition Font_0xe38581 :: tImage where
  "Font_0xe38581 = tImage_make 20 20 8 [
     0x00, 0x00, 0x00, 0x00, 0x00, 0x00, 0x00, 0x00, 0x00, 0x00, 0x00, 0x00, 0x00, 0x00, 0x00, 0x00, 0x00, 0x00, 0x07, 0xff,
     0x00, 0x04, 0x01, 0x00, 0x04, 0x01, 0x00, 0x04, 0x01, 0x00, 0x04, 0x01, 0x00, 0x04, 0x01, 0x00, 0x04, 0x01, 0x00, 0x04,
     0x01, 0x00, 0x04, 0x01, 0x00, 0x07, 0xff, 0x00, 0x00, 0x00, 0x00, 0x00, 0x00, 0x00, 0x00, 0x00, 0x00, 0x00, 0x00, 0x00]"

definition Font_0xe38582 :: tImage where
  "Font_0xe38582 = tImage_make 20 20 8 [
     0x00, 0x00, 0x00, 0x00, 0x00, 0x00, 0x00, 0x00, 0x00, 0x00, 0x00, 0x00, 0x00, 0x00, 0x00, 0x00, 0x00, 0x00, 0x04, 0x01,
     0x00, 0x04, 0x01, 0x00, 0x04, 0x01, 0x00, 0x04, 0x01, 0x00, 0x07, 0xff, 0x00, 0x04, 0x01, 0x00, 0x04, 0x01, 0x00, 0x04,
     0x01, 0x00, 0x04, 0x01, 0x00, 0x07, 0xff, 0x00, 0x00, 0x00, 0x00, 0x00, 0x00, 0x00, 0x00, 0x00, 0x00, 0x00, 0x00, 0x00]"

definition Font_0xe38583 :: tImage where
  "Font_0xe38583 = tImage_make 20 20 8 [
     0x00, 0x00, 0x00, 0x00, 0x00, 0x00, 0x00, 0x00, 0x00, 0x00, 0x00, 0x00, 0x00, 0x00, 0x00, 0x00, 0x00, 0x00, 0x08, 0x50,
     0x80, 0x08, 0x50, 0x80, 0x08, 0x50, 0x80, 0x08, 0x50, 0x80, 0x0f, 0xdf, 0x80, 0x08, 0x50, 0x80, 0x08, 0x50, 0x80, 0x08,
     0x50, 0x80, 0x08, 0x50, 0x80, 0x0f, 0xdf, 0x80, 0x00, 0x00, 0x00, 0x00, 0x00, 0x00, 0x00, 0x00, 0x00, 0x00, 0x00, 0x00]"

definition Font_0xe38584 :: tImage where
  "Font_0xe38584 = tImage_make 20 20 8 [
     0x00, 0x00, 0x00, 0x00, 0x00, 0x00, 0x00, 0x00, 0x00, 0x00, 0x00, 0x00, 0x00, 0x00, 0x00, 0x00, 0x00, 0x00, 0x08, 0x42,
     0x00, 0x08, 0x42, 0x00, 0x08, 0x42, 0x00, 0x08, 0x42, 0x00, 0x0f, 0xc2, 0x00, 0x08, 0x45, 0x00, 0x08, 0x45, 0x00, 0x08,
     0x48, 0x80, 0x08, 0x48, 0x80, 0x0f, 0xd0, 0x40, 0x00, 0x00, 0x00, 0x00, 0x00, 0x00, 0x00, 0x00, 0x00, 0x00, 0x00, 0x00]"

definition Font_0xe38585 :: tImage where
  "Font_0xe38585 = tImage_make 20 20 8 [
     0x00, 0x00, 0x00, 0x00, 0x00, 0x00, 0x00, 0x00, 0x00, 0x00, 0x00, 0x00, 0x00, 0x00, 0x00, 0x00, 0x00, 0x00, 0x00, 0x20,
     0x00, 0x00, 0x20, 0x00, 0x00, 0x20, 0x00, 0x00, 0x20, 0x00, 0x00, 0x60, 0x00, 0x00, 0x50, 0x00, 0x00, 0x88, 0x00, 0x01,
     0x04, 0x00, 0x02, 0x02, 0x00, 0x0c, 0x01, 0x80, 0x00, 0x00, 0x00, 0x00, 0x00, 0x00, 0x00, 0x00, 0x00, 0x00, 0x00, 0x00]"

definition Font_0xe38586 :: tImage where
  "Font_0xe38586 = tImage_make 20 20 8 [
     0x00, 0x00, 0x00, 0x00, 0x00, 0x00, 0x00, 0x00, 0x00, 0x00, 0x00, 0x00, 0x00, 0x00, 0x00, 0x00, 0x00, 0x00, 0x02, 0x04,
     0x00, 0x02, 0x04, 0x00, 0x02, 0x04, 0x00, 0x02, 0x04, 0x00, 0x02, 0x04, 0x00, 0x05, 0x0a, 0x00, 0x05, 0x0a, 0x00, 0x08,
     0x91, 0x00, 0x08, 0x91, 0x00, 0x10, 0x60, 0x80, 0x00, 0x00, 0x00, 0x00, 0x00, 0x00, 0x00, 0x00, 0x00, 0x00, 0x00, 0x00]"

definition Font_0xe38587 :: tImage where
  "Font_0xe38587 = tImage_make 20 20 8 [
     0x00, 0x00, 0x00, 0x00, 0x00, 0x00, 0x00, 0x00, 0x00, 0x00, 0x00, 0x00, 0x00, 0x00, 0x00, 0x00, 0x00, 0x00, 0x00, 0x78,
     0x00, 0x00, 0x84, 0x00, 0x01, 0x02, 0x00, 0x02, 0x01, 0x00, 0x02, 0x01, 0x00, 0x02, 0x01, 0x00, 0x02, 0x01, 0x00, 0x01,
     0x02, 0x00, 0x00, 0x84, 0x00, 0x00, 0x78, 0x00, 0x00, 0x00, 0x00, 0x00, 0x00, 0x00, 0x00, 0x00, 0x00, 0x00, 0x00, 0x00]"

definition Font_0xe38588 :: tImage where
  "Font_0xe38588 = tImage_make 20 20 8 [
     0x00, 0x00, 0x00, 0x00, 0x00, 0x00, 0x00, 0x00, 0x00, 0x00, 0x00, 0x00, 0x00, 0x00, 0x00, 0x00, 0x00, 0x00, 0x07, 0xff,
     0x00, 0x00, 0x20, 0x00, 0x00, 0x20, 0x00, 0x00, 0x20, 0x00, 0x00, 0x50, 0x00, 0x00, 0x50, 0x00, 0x00, 0x88, 0x00, 0x01,
     0x04, 0x00, 0x02, 0x02, 0x00, 0x0c, 0x01, 0x80, 0x00, 0x00, 0x00, 0x00, 0x00, 0x00, 0x00, 0x00, 0x00, 0x00, 0x00, 0x00]"

definition Font_0xe38589 :: tImage where
  "Font_0xe38589 = tImage_make 20 20 8 [
     0x00, 0x00, 0x00, 0x00, 0x00, 0x00, 0x00, 0x00, 0x00, 0x00, 0x00, 0x00, 0x00, 0x00, 0x00, 0x00, 0x00, 0x00, 0x1f, 0xff,
     0x80, 0x02, 0x04, 0x00, 0x02, 0x04, 0x00, 0x02, 0x04, 0x00, 0x02, 0x04, 0x00, 0x05, 0x0a, 0x00, 0x05, 0x0a, 0x00, 0x08,
     0x91, 0x00, 0x08, 0x91, 0x00, 0x10, 0x60, 0x80, 0x00, 0x00, 0x00, 0x00, 0x00, 0x00, 0x00, 0x00, 0x00, 0x00, 0x00, 0x00]"

definition Font_0xe3858a :: tImage where
  "Font_0xe3858a = tImage_make 20 20 8 [
     0x00, 0x00, 0x00, 0x00, 0x00, 0x00, 0x00, 0x00, 0x00, 0x00, 0x00, 0x00, 0x00, 0x00, 0x00, 0x00, 0xf8, 0x00, 0x00, 0x00,
     0x00, 0x00, 0x00, 0x00, 0x07, 0xff, 0x00, 0x00, 0x20, 0x00, 0x00, 0x20, 0x00, 0x00, 0x50, 0x00, 0x00, 0x88, 0x00, 0x01,
     0x04, 0x00, 0x02, 0x02, 0x00, 0x0c, 0x01, 0x80, 0x00, 0x00, 0x00, 0x00, 0x00, 0x00, 0x00, 0x00, 0x00, 0x00, 0x00, 0x00]"

definition Font_0xe3858b :: tImage where
  "Font_0xe3858b = tImage_make 20 20 8 [
     0x00, 0x00, 0x00, 0x00, 0x00, 0x00, 0x00, 0x00, 0x00, 0x00, 0x00, 0x00, 0x00, 0x00, 0x00, 0x00, 0x00, 0x00, 0x0f, 0xff,
     0x00, 0x00, 0x01, 0x00, 0x00, 0x01, 0x00, 0x00, 0x01, 0x00, 0x0f, 0xff, 0x00, 0x00, 0x01, 0x00, 0x00, 0x01, 0x00, 0x00,
     0x01, 0x00, 0x00, 0x01, 0x00, 0x00, 0x01, 0x00, 0x00, 0x00, 0x00, 0x00, 0x00, 0x00, 0x00, 0x00, 0x00, 0x00, 0x00, 0x00]"

definition Font_0xe3858c :: tImage where
  "Font_0xe3858c = tImage_make 20 20 8 [
     0x00, 0x00, 0x00, 0x00, 0x00, 0x00, 0x00, 0x00, 0x00, 0x00, 0x00, 0x00, 0x00, 0x00, 0x00, 0x00, 0x00, 0x00, 0x07, 0xff,
     0x00, 0x04, 0x00, 0x00, 0x04, 0x00, 0x00, 0x04, 0x00, 0x00, 0x07, 0xff, 0x00, 0x04, 0x00, 0x00, 0x04, 0x00, 0x00, 0x04,
     0x00, 0x00, 0x04, 0x00, 0x00, 0x07, 0xff, 0x00, 0x00, 0x00, 0x00, 0x00, 0x00, 0x00, 0x00, 0x00, 0x00, 0x00, 0x00, 0x00]"

definition Font_0xe3858d :: tImage where
  "Font_0xe3858d = tImage_make 20 20 8 [
     0x00, 0x00, 0x00, 0x00, 0x00, 0x00, 0x00, 0x00, 0x00, 0x00, 0x00, 0x00, 0x00, 0x00, 0x00, 0x00, 0x00, 0x00, 0x0f, 0xff,
     0x00, 0x00, 0x00, 0x00, 0x02, 0x04, 0x00, 0x02, 0x04, 0x00, 0x02, 0x04, 0x00, 0x02, 0x04, 0x00, 0x01, 0x08, 0x00, 0x01,
     0x08, 0x00, 0x01, 0x08, 0x00, 0x1f, 0xff, 0x80, 0x00, 0x00, 0x00, 0x00, 0x00, 0x00, 0x00, 0x00, 0x00, 0x00, 0x00, 0x00]"

definition Font_0xe3858e :: tImage where
  "Font_0xe3858e = tImage_make 20 20 8 [
     0x00, 0x00, 0x00, 0x00, 0x00, 0x00, 0x00, 0x00, 0x00, 0x00, 0x00, 0x00, 0x00, 0x00, 0x00, 0x00, 0xf8, 0x00, 0x00, 0x00,
     0x00, 0x00, 0x00, 0x00, 0x0f, 0xff, 0x80, 0x00, 0x00, 0x00, 0x00, 0x00, 0x00, 0x01, 0xfc, 0x00, 0x02, 0x02, 0x00, 0x02,
     0x02, 0x00, 0x02, 0x02, 0x00, 0x01, 0xfc, 0x00, 0x00, 0x00, 0x00, 0x00, 0x00, 0x00, 0x00, 0x00, 0x00, 0x00, 0x00, 0x00]"

definition Font_0xe3858f :: tImage where
  "Font_0xe3858f = tImage_make 20 20 8 [
     0x00, 0x00, 0x00, 0x00, 0x40, 0x00, 0x00, 0x40, 0x00, 0x00, 0x40, 0x00, 0x00, 0x40, 0x00, 0x00, 0x40, 0x00, 0x00, 0x40,
     0x00, 0x00, 0x40, 0x00, 0x00, 0x40, 0x00, 0x00, 0x7c, 0x00, 0x00, 0x40, 0x00, 0x00, 0x40, 0x00, 0x00, 0x40, 0x00, 0x00,
     0x40, 0x00, 0x00, 0x40, 0x00, 0x00, 0x40, 0x00, 0x00, 0x40, 0x00, 0x00, 0x40, 0x00, 0x00, 0x40, 0x00, 0x00, 0x00, 0x00]"

definition Font_0xe38590 :: tImage where
  "Font_0xe38590 = tImage_make 20 20 8 [
     0x00, 0x00, 0x00, 0x00, 0x84, 0x00, 0x00, 0x84, 0x00, 0x00, 0x84, 0x00, 0x00, 0x84, 0x00, 0x00, 0x84, 0x00, 0x00, 0x84,
     0x00, 0x00, 0x84, 0x00, 0x00, 0x84, 0x00, 0x00, 0xfc, 0x00, 0x00, 0x84, 0x00, 0x00, 0x84, 0x00, 0x00, 0x84, 0x00, 0x00,
     0x84, 0x00, 0x00, 0x84, 0x00, 0x00, 0x84, 0x00, 0x00, 0x84, 0x00, 0x00, 0x84, 0x00, 0x00, 0x04, 0x00, 0x00, 0x00, 0x00]"

definition Font_0xe38591 :: tImage where
  "Font_0xe38591 = tImage_make 20 20 8 [
     0x00, 0x00, 0x00, 0x00, 0x40, 0x00, 0x00, 0x40, 0x00, 0x00, 0x40, 0x00, 0x00, 0x40, 0x00, 0x00, 0x40, 0x00, 0x00, 0x40,
     0x00, 0x00, 0x7c, 0x00, 0x00, 0x40, 0x00, 0x00, 0x40, 0x00, 0x00, 0x40, 0x00, 0x00, 0x40, 0x00, 0x00, 0x7c, 0x00, 0x00,
     0x40, 0x00, 0x00, 0x40, 0x00, 0x00, 0x40, 0x00, 0x00, 0x40, 0x00, 0x00, 0x40, 0x00, 0x00, 0x40, 0x00, 0x00, 0x00, 0x00]"

definition Font_0xe38592 :: tImage where
  "Font_0xe38592 = tImage_make 20 20 8 [
     0x00, 0x00, 0x00, 0x00, 0x84, 0x00, 0x00, 0x84, 0x00, 0x00, 0x84, 0x00, 0x00, 0x84, 0x00, 0x00, 0x84, 0x00, 0x00, 0xfc,
     0x00, 0x00, 0x84, 0x00, 0x00, 0x84, 0x00, 0x00, 0x84, 0x00, 0x00, 0x84, 0x00, 0x00, 0xfc, 0x00, 0x00, 0x84, 0x00, 0x00,
     0x84, 0x00, 0x00, 0x84, 0x00, 0x00, 0x84, 0x00, 0x00, 0x84, 0x00, 0x00, 0x84, 0x00, 0x00, 0x04, 0x00, 0x00, 0x00, 0x00]"

definition Font_0xe38593 :: tImage where
  "Font_0xe38593 = tImage_make 20 20 8 [
     0x00, 0x00, 0x00, 0x00, 0x10, 0x00, 0x00, 0x10, 0x00, 0x00, 0x10, 0x00, 0x00, 0x10, 0x00, 0x00, 0x10, 0x00, 0x00, 0x10,
     0x00, 0x00, 0x10, 0x00, 0x00, 0x10, 0x00, 0x01, 0xf0, 0x00, 0x00, 0x10, 0x00, 0x00, 0x10, 0x00, 0x00, 0x10, 0x00, 0x00,
     0x10, 0x00, 0x00, 0x10, 0x00, 0x00, 0x10, 0x00, 0x00, 0x10, 0x00, 0x00, 0x10, 0x00, 0x00, 0x10, 0x00, 0x00, 0x00, 0x00]"

definition Font_0xe38594 :: tImage where
  "Font_0xe38594 = tImage_make 20 20 8 [
     0x00, 0x00, 0x00, 0x00, 0x08, 0x00, 0x00, 0x88, 0x00, 0x00, 0x88, 0x00, 0x00, 0x88, 0x00, 0x00, 0x88, 0x00, 0x00, 0x88,
     0x00, 0x00, 0x88, 0x00, 0x00, 0x88, 0x00, 0x07, 0x88, 0x00, 0x00, 0x88, 0x00, 0x00, 0x88, 0x00, 0x00, 0x88, 0x00, 0x00,
     0x88, 0x00, 0x00, 0x88, 0x00, 0x00, 0x88, 0x00, 0x00, 0x88, 0x00, 0x00, 0x88, 0x00, 0x00, 0x08, 0x00, 0x00, 0x00, 0x00]"

definition Font_0xe38595 :: tImage where
  "Font_0xe38595 = tImage_make 20 20 8 [
     0x00, 0x00, 0x00, 0x00, 0x10, 0x00, 0x00, 0x10, 0x00, 0x00, 0x10, 0x00, 0x00, 0x10, 0x00, 0x00, 0x10, 0x00, 0x01, 0xf0,
     0x00, 0x00, 0x10, 0x00, 0x00, 0x10, 0x00, 0x00, 0x10, 0x00, 0x00, 0x10, 0x00, 0x01, 0xf0, 0x00, 0x00, 0x10, 0x00, 0x00,
     0x10, 0x00, 0x00, 0x10, 0x00, 0x00, 0x10, 0x00, 0x00, 0x10, 0x00, 0x00, 0x10, 0x00, 0x00, 0x10, 0x00, 0x00, 0x00, 0x00]"

definition Font_0xe38596 :: tImage where
  "Font_0xe38596 = tImage_make 20 20 8 [
     0x00, 0x00, 0x00, 0x00, 0x08, 0x00, 0x00, 0x88, 0x00, 0x00, 0x88, 0x00, 0x00, 0x88, 0x00, 0x00, 0x88, 0x00, 0x07, 0x88,
     0x00, 0x00, 0x88, 0x00, 0x00, 0x88, 0x00, 0x00, 0x88, 0x00, 0x00, 0x88, 0x00, 0x07, 0x88, 0x00, 0x00, 0x88, 0x00, 0x00,
     0x88, 0x00, 0x00, 0x88, 0x00, 0x00, 0x88, 0x00, 0x00, 0x88, 0x00, 0x00, 0x88, 0x00, 0x00, 0x08, 0x00, 0x00, 0x00, 0x00]"

definition Font_0xe38597 :: tImage where
  "Font_0xe38597 = tImage_make 20 20 8 [
     0x00, 0x00, 0x00, 0x00, 0x00, 0x00, 0x00, 0x00, 0x00, 0x00, 0x00, 0x00, 0x00, 0x00, 0x00, 0x00, 0x00, 0x00, 0x00, 0x00,
     0x00, 0x00, 0x20, 0x00, 0x00, 0x20, 0x00, 0x00, 0x20, 0x00, 0x00, 0x20, 0x00, 0x00, 0x20, 0x00, 0x00, 0x20, 0x00, 0x3f,
     0xff, 0xe0, 0x00, 0x00, 0x00, 0x00, 0x00, 0x00, 0x00, 0x00, 0x00, 0x00, 0x00, 0x00, 0x00, 0x00, 0x00, 0x00, 0x00, 0x00]"

definition Font_0xe38598 :: tImage where
  "Font_0xe38598 = tImage_make 20 20 8 [
     0x00, 0x00, 0x00, 0x00, 0x01, 0x00, 0x00, 0x01, 0x00, 0x00, 0x01, 0x00, 0x00, 0x01, 0x00, 0x00, 0x01, 0x00, 0x00, 0x01,
     0x00, 0x01, 0x01, 0x00, 0x01, 0x01, 0x00, 0x01, 0x01, 0xe0, 0x01, 0x01, 0x00, 0x01, 0x01, 0x00, 0x01, 0x1d, 0x00, 0x3f,
     0xe1, 0x00, 0x00, 0x01, 0x00, 0x00, 0x01, 0x00, 0x00, 0x01, 0x00, 0x00, 0x01, 0x00, 0x00, 0x01, 0x00, 0x00, 0x00, 0x00]"

definition Font_0xe38599 :: tImage where
  "Font_0xe38599 = tImage_make 20 20 8 [
     0x00, 0x00, 0x00, 0x00, 0x00, 0x40, 0x00, 0x04, 0x40, 0x00, 0x04, 0x40, 0x00, 0x04, 0x40, 0x00, 0x04, 0x40, 0x00, 0x04,
     0x40, 0x00, 0x04, 0x40, 0x02, 0x04, 0x40, 0x02, 0x04, 0x40, 0x02, 0x04, 0x40, 0x02, 0x07, 0xc0, 0x02, 0x34, 0x40, 0x3f,
     0xc4, 0x40, 0x00, 0x04, 0x40, 0x00, 0x04, 0x40, 0x00, 0x04, 0x40, 0x00, 0x04, 0x40, 0x00, 0x00, 0x40, 0x00, 0x00, 0x00]"

definition Font_0xe3859a :: tImage where
  "Font_0xe3859a = tImage_make 20 20 8 [
     0x00, 0x00, 0x00, 0x00, 0x00, 0x80, 0x00, 0x00, 0x80, 0x00, 0x00, 0x80, 0x00, 0x00, 0x80, 0x00, 0x00, 0x80, 0x00, 0x00,
     0x80, 0x00, 0x00, 0x80, 0x00, 0x80, 0x80, 0x00, 0x80, 0x80, 0x00, 0x80, 0x80, 0x00, 0x80, 0x80, 0x00, 0x86, 0x80, 0x3f,
     0xf8, 0x80, 0x00, 0x00, 0x80, 0x00, 0x00, 0x80, 0x00, 0x00, 0x80, 0x00, 0x00, 0x80, 0x00, 0x00, 0x80, 0x00, 0x00, 0x00]"

definition Font_0xe3859b :: tImage where
  "Font_0xe3859b = tImage_make 20 20 8 [
     0x00, 0x00, 0x00, 0x00, 0x00, 0x00, 0x00, 0x00, 0x00, 0x00, 0x00, 0x00, 0x00, 0x00, 0x00, 0x00, 0x00, 0x00, 0x00, 0x00,
     0x00, 0x00, 0x00, 0x00, 0x01, 0x04, 0x00, 0x01, 0x04, 0x00, 0x01, 0x04, 0x00, 0x01, 0x04, 0x00, 0x01, 0x04, 0x00, 0x3f,
     0xff, 0xe0, 0x00, 0x00, 0x00, 0x00, 0x00, 0x00, 0x00, 0x00, 0x00, 0x00, 0x00, 0x00, 0x00, 0x00, 0x00, 0x00, 0x00, 0x00]"

definition Font_0xe3859c :: tImage where
  "Font_0xe3859c = tImage_make 20 20 8 [
     0x00, 0x00, 0x00, 0x00, 0x00, 0x00, 0x00, 0x00, 0x00, 0x00, 0x00, 0x00, 0x00, 0x00, 0x00, 0x00, 0x00, 0x00, 0x00, 0x00,
     0x00, 0x00, 0x00, 0x00, 0x00, 0x00, 0x00, 0x3f, 0xff, 0xe0, 0x00, 0x20, 0x00, 0x00, 0x20, 0x00, 0x00, 0x20, 0x00, 0x00,
     0x20, 0x00, 0x00, 0x20, 0x00, 0x00, 0x20, 0x00, 0x00, 0x20, 0x00, 0x00, 0x20, 0x00, 0x00, 0x00, 0x00, 0x00, 0x00, 0x00]"

definition Font_0xe3859d :: tImage where
  "Font_0xe3859d = tImage_make 20 20 8 [
     0x00, 0x00, 0x00, 0x00, 0x00, 0x80, 0x00, 0x00, 0x80, 0x00, 0x00, 0x80, 0x00, 0x00, 0x80, 0x00, 0x00, 0x80, 0x00, 0x00,
     0x80, 0x00, 0x00, 0x80, 0x00, 0x00, 0x80, 0x3f, 0xfc, 0x80, 0x00, 0x80, 0x80, 0x00, 0x80, 0x80, 0x00, 0x80, 0x80, 0x00,
     0x8f, 0x80, 0x00, 0x80, 0x80, 0x00, 0x80, 0x80, 0x01, 0x00, 0x80, 0x01, 0x00, 0x80, 0x00, 0x00, 0x80, 0x00, 0x00, 0x00]"

definition Font_0xe3859e :: tImage where
  "Font_0xe3859e = tImage_make 20 20 8 [
     0x00, 0x00, 0x00, 0x00, 0x00, 0x40, 0x00, 0x04, 0x40, 0x00, 0x04, 0x40, 0x00, 0x04, 0x40, 0x00, 0x04, 0x40, 0x00, 0x04,
     0x40, 0x00, 0x04, 0x40, 0x00, 0x04, 0x40, 0x3f, 0xf4, 0x40, 0x02, 0x04, 0x40, 0x02, 0x04, 0x40, 0x02, 0x04, 0x40, 0x02,
     0x7c, 0x40, 0x02, 0x04, 0x40, 0x02, 0x04, 0x40, 0x04, 0x04, 0x40, 0x04, 0x04, 0x40, 0x00, 0x00, 0x40, 0x00, 0x00, 0x00]"

definition Font_0xe3859f :: tImage where
  "Font_0xe3859f = tImage_make 20 20 8 [
     0x00, 0x00, 0x00, 0x00, 0x00, 0x80, 0x00, 0x00, 0x80, 0x00, 0x00, 0x80, 0x00, 0x00, 0x80, 0x00, 0x00, 0x80, 0x00, 0x00,
     0x80, 0x00, 0x00, 0x80, 0x00, 0x00, 0x80, 0x3f, 0xfe, 0x80, 0x00, 0x80, 0x80, 0x00, 0x80, 0x80, 0x00, 0x80, 0x80, 0x00,
     0x80, 0x80, 0x00, 0x80, 0x80, 0x00, 0x80, 0x80, 0x01, 0x00, 0x80, 0x01, 0x00, 0x80, 0x00, 0x00, 0x80, 0x00, 0x00, 0x00]"

definition Font_0xe385a0 :: tImage where
  "Font_0xe385a0 = tImage_make 20 20 8 [
     0x00, 0x00, 0x00, 0x00, 0x00, 0x00, 0x00, 0x00, 0x00, 0x00, 0x00, 0x00, 0x00, 0x00, 0x00, 0x00, 0x00, 0x00, 0x00, 0x00,
     0x00, 0x00, 0x00, 0x00, 0x00, 0x00, 0x00, 0x3f, 0xff, 0xe0, 0x01, 0x04, 0x00, 0x01, 0x04, 0x00, 0x01, 0x04, 0x00, 0x01,
     0x04, 0x00, 0x01, 0x04, 0x00, 0x01, 0x04, 0x00, 0x02, 0x04, 0x00, 0x02, 0x04, 0x00, 0x00, 0x00, 0x00, 0x00, 0x00, 0x00]"

definition Font_0xe385a1 :: tImage where
  "Font_0xe385a1 = tImage_make 20 20 8 [
     0x00, 0x00, 0x00, 0x00, 0x00, 0x00, 0x00, 0x00, 0x00, 0x00, 0x00, 0x00, 0x00, 0x00, 0x00, 0x00, 0x00, 0x00, 0x00, 0x00,
     0x00, 0x00, 0x00, 0x00, 0x00, 0x00, 0x00, 0x3f, 0xff, 0xe0, 0x00, 0x00, 0x00, 0x00, 0x00, 0x00, 0x00, 0x00, 0x00, 0x00,
     0x00, 0x00, 0x00, 0x00, 0x00, 0x00, 0x00, 0x00, 0x00, 0x00, 0x00, 0x00, 0x00, 0x00, 0x00, 0x00, 0x00, 0x00, 0x00, 0x00]"

definition Font_0xe385a2 :: tImage where
  "Font_0xe385a2 = tImage_make 20 20 8 [
     0x00, 0x00, 0x00, 0x00, 0x00, 0x80, 0x00, 0x00, 0x80, 0x00, 0x00, 0x80, 0x00, 0x00, 0x80, 0x00, 0x00, 0x80, 0x00, 0x00,
     0x80, 0x00, 0x00, 0x80, 0x00, 0x00, 0x80, 0x00, 0x00, 0x80, 0x00, 0x00, 0x80, 0x00, 0x00, 0x80, 0x00, 0x0e, 0x80, 0x3f,
     0xf0, 0x80, 0x00, 0x00, 0x80, 0x00, 0x00, 0x80, 0x00, 0x00, 0x80, 0x00, 0x00, 0x80, 0x00, 0x00, 0x80, 0x00, 0x00, 0x00]"

definition Font_0xe385a3 :: tImage where
  "Font_0xe385a3 = tImage_make 20 20 8 [
     0x00, 0x00, 0x00, 0x00, 0x20, 0x00, 0x00, 0x20, 0x00, 0x00, 0x20, 0x00, 0x00, 0x20, 0x00, 0x00, 0x20, 0x00, 0x00, 0x20,
     0x00, 0x00, 0x20, 0x00, 0x00, 0x20, 0x00, 0x00, 0x20, 0x00, 0x00, 0x20, 0x00, 0x00, 0x20, 0x00, 0x00, 0x20, 0x00, 0x00,
     0x20, 0x00, 0x00, 0x20, 0x00, 0x00, 0x20, 0x00, 0x00, 0x20, 0x00, 0x00, 0x20, 0x00, 0x00, 0x20, 0x00, 0x00, 0x00, 0x00]"

definition Font_0xe385a4 :: tImage where
  "Font_0xe385a4 = tImage_make 20 20 8 [
     0x00, 0x00, 0x00, 0x00, 0x00, 0x00, 0x00, 0x00, 0x00, 0x00, 0x00, 0x00, 0x00, 0x00, 0x00, 0x00, 0x00, 0x00, 0x00, 0x00,
     0x00, 0x00, 0x00, 0x00, 0x00, 0x00, 0x00, 0x00, 0x00, 0x00, 0x00, 0x00, 0x00, 0x00, 0x00, 0x00, 0x00, 0x00, 0x00, 0x00,
     0x00, 0x00, 0x00, 0x00, 0x00, 0x00, 0x00, 0x00, 0x00, 0x00, 0x00, 0x00, 0x00, 0x00, 0x00, 0x00, 0x00, 0x00, 0x00, 0x00]"

definition Font_0xe385a5 :: tImage where
  "Font_0xe385a5 = tImage_make 20 20 8 [
     0x00, 0x00, 0x00, 0x00, 0x00, 0x00, 0x00, 0x00, 0x00, 0x00, 0x00, 0x00, 0x00, 0x00, 0x00, 0x00, 0x00, 0x00, 0x10, 0x10,
     0x00, 0x10, 0x10, 0x00, 0x10, 0x10, 0x00, 0x10, 0x10, 0x00, 0x10, 0x10, 0x00, 0x10, 0x10, 0x00, 0x10, 0x10, 0x00, 0x10,
     0x10, 0x00, 0x10, 0x10, 0x00, 0x1f, 0xdf, 0xc0, 0x00, 0x00, 0x00, 0x00, 0x00, 0x00, 0x00, 0x00, 0x00, 0x00, 0x00, 0x00]"

definition Font_0xe385a6 :: tImage where
  "Font_0xe385a6 = tImage_make 20 20 8 [
     0x00, 0x00, 0x00, 0x00, 0x00, 0x00, 0x00, 0x00, 0x00, 0x00, 0x00, 0x00, 0x00, 0x00, 0x00, 0x00, 0x00, 0x00, 0x10, 0x3f,
     0x00, 0x10, 0x20, 0x00, 0x10, 0x20, 0x00, 0x10, 0x20, 0x00, 0x10, 0x20, 0x00, 0x10, 0x20, 0x00, 0x10, 0x20, 0x00, 0x10,
     0x20, 0x00, 0x10, 0x20, 0x00, 0x1f, 0xbf, 0x80, 0x00, 0x00, 0x00, 0x00, 0x00, 0x00, 0x00, 0x00, 0x00, 0x00, 0x00, 0x00]"

definition Font_0xe385a7 :: tImage where
  "Font_0xe385a7 = tImage_make 20 20 8 [
     0x00, 0x00, 0x00, 0x00, 0x00, 0x00, 0x00, 0x00, 0x00, 0x00, 0x00, 0x00, 0x00, 0x00, 0x00, 0x00, 0x00, 0x00, 0x10, 0x04,
     0x00, 0x10, 0x04, 0x00, 0x10, 0x04, 0x00, 0x10, 0x04, 0x00, 0x10, 0x04, 0x00, 0x10, 0x0a, 0x00, 0x10, 0x0a, 0x00, 0x10,
     0x11, 0x00, 0x10, 0x11, 0x00, 0x1f, 0xa0, 0x80, 0x00, 0x00, 0x00, 0x00, 0x00, 0x00, 0x00, 0x00, 0x00, 0x00, 0x00, 0x00]"

definition Font_0xe385a8 :: tImage where
  "Font_0xe385a8 = tImage_make 20 20 8 [
     0x00, 0x00, 0x00, 0x00, 0x00, 0x00, 0x00, 0x00, 0x00, 0x00, 0x00, 0x00, 0x00, 0x00, 0x00, 0x00, 0x00, 0x00, 0x10, 0x04,
     0x00, 0x10, 0x04, 0x00, 0x10, 0x04, 0x00, 0x10, 0x0a, 0x00, 0x10, 0x0a, 0x00, 0x10, 0x11, 0x00, 0x10, 0x11, 0x00, 0x10,
     0x20, 0x80, 0x10, 0x20, 0x80, 0x1f, 0xff, 0xc0, 0x00, 0x00, 0x00, 0x00, 0x00, 0x00, 0x00, 0x00, 0x00, 0x00, 0x00, 0x00]"

definition Font_0xe385a9 :: tImage where
  "Font_0xe385a9 = tImage_make 20 20 8 [
     0x00, 0x00, 0x00, 0x00, 0x00, 0x00, 0x00, 0x00, 0x00, 0x00, 0x00, 0x00, 0x00, 0x00, 0x00, 0x00, 0x00, 0x00, 0x3f, 0xf1,
     0x00, 0x02, 0x11, 0x00, 0x02, 0x11, 0x00, 0x02, 0x11, 0x00, 0x3e, 0x11, 0x00, 0x20, 0x12, 0x80, 0x20, 0x12, 0x80, 0x20,
     0x14, 0x40, 0x20, 0x14, 0x40, 0x3f, 0x18, 0x20, 0x00, 0x00, 0x00, 0x00, 0x00, 0x00, 0x00, 0x00, 0x00, 0x00, 0x00, 0x00]"

definition Font_0xe385aa :: tImage where
  "Font_0xe385aa = tImage_make 20 20 8 [
     0x00, 0x00, 0x00, 0x00, 0x00, 0x00, 0x00, 0x00, 0x00, 0x00, 0x00, 0x00, 0x00, 0x00, 0x00, 0x00, 0x00, 0x00, 0x1f, 0x9f,
     0x80, 0x00, 0x90, 0x00, 0x00, 0x90, 0x00, 0x00, 0x90, 0x00, 0x1f, 0x90, 0x00, 0x10, 0x10, 0x00, 0x10, 0x10, 0x00, 0x10,
     0x10, 0x00, 0x10, 0x10, 0x00, 0x1f, 0xdf, 0xc0, 0x00, 0x00, 0x00, 0x00, 0x00, 0x00, 0x00, 0x00, 0x00, 0x00, 0x00, 0x00]"

definition Font_0xe385ab :: tImage where
  "Font_0xe385ab = tImage_make 20 20 8 [
     0x00, 0x00, 0x00, 0x00, 0x00, 0x00, 0x00, 0x00, 0x00, 0x00, 0x00, 0x00, 0x00, 0x00, 0x00, 0x00, 0x00, 0x00, 0x7d, 0x11,
     0x00, 0x05, 0x11, 0x00, 0x05, 0x11, 0x00, 0x05, 0x11, 0x00, 0x7d, 0xf1, 0x00, 0x41, 0x12, 0x80, 0x41, 0x12, 0x80, 0x41,
     0x14, 0x40, 0x41, 0x14, 0x40, 0x7f, 0xf8, 0x20, 0x00, 0x00, 0x00, 0x00, 0x00, 0x00, 0x00, 0x00, 0x00, 0x00, 0x00, 0x00]"

definition Font_0xe385ac :: tImage where
  "Font_0xe385ac = tImage_make 20 20 8 [
     0x00, 0x00, 0x00, 0x00, 0x00, 0x00, 0x00, 0x00, 0x00, 0x00, 0x00, 0x00, 0x00, 0x00, 0x00, 0x00, 0x00, 0x00, 0x1f, 0x82,
     0x00, 0x00, 0x82, 0x00, 0x00, 0x82, 0x00, 0x00, 0x85, 0x00, 0x1f, 0x85, 0x00, 0x10, 0x08, 0x80, 0x10, 0x08, 0x80, 0x10,
     0x10, 0x40, 0x10, 0x10, 0x40, 0x1f, 0xbf, 0xe0, 0x00, 0x00, 0x00, 0x00, 0x00, 0x00, 0x00, 0x00, 0x00, 0x00, 0x00, 0x00]"

definition Font_0xe385ad :: tImage where
  "Font_0xe385ad = tImage_make 20 20 8 [
     0x00, 0x00, 0x00, 0x00, 0x00, 0x00, 0x00, 0x00, 0x00, 0x00, 0x00, 0x00, 0x00, 0x00, 0x00, 0x00, 0x00, 0x00, 0x1f, 0xbf,
     0xe0, 0x00, 0x80, 0x00, 0x00, 0x80, 0x00, 0x00, 0x87, 0x00, 0x1f, 0x88, 0x80, 0x10, 0x10, 0x40, 0x10, 0x10, 0x40, 0x10,
     0x10, 0x40, 0x10, 0x08, 0x80, 0x1f, 0xc7, 0x00, 0x00, 0x00, 0x00, 0x00, 0x00, 0x00, 0x00, 0x00, 0x00, 0x00, 0x00, 0x00]"

definition Font_0xe385ae :: tImage where
  "Font_0xe385ae = tImage_make 20 20 8 [
     0x00, 0x00, 0x00, 0x00, 0x00, 0x00, 0x00, 0x00, 0x00, 0x00, 0x00, 0x00, 0x00, 0x00, 0x00, 0x00, 0x00, 0x00, 0x1f, 0x90,
     0x80, 0x10, 0x90, 0x80, 0x10, 0x90, 0x80, 0x10, 0x90, 0x80, 0x10, 0x9f, 0x80, 0x10, 0x90, 0x80, 0x10, 0x90, 0x80, 0x10,
     0x90, 0x80, 0x10, 0x90, 0x80, 0x1f, 0x9f, 0x80, 0x00, 0x00, 0x00, 0x00, 0x00, 0x00, 0x00, 0x00, 0x00, 0x00, 0x00, 0x00]"

definition Font_0xe385af :: tImage where
  "Font_0xe385af = tImage_make 20 20 8 [
     0x00, 0x00, 0x00, 0x00, 0x00, 0x00, 0x00, 0x00, 0x00, 0x00, 0x00, 0x00, 0x00, 0x00, 0x00, 0x00, 0x00, 0x00, 0x1f, 0x84,
     0x00, 0x10, 0x84, 0x00, 0x10, 0x84, 0x00, 0x10, 0x84, 0x00, 0x10, 0x84, 0x00, 0x10, 0x8a, 0x00, 0x10, 0x8a, 0x00, 0x10,
     0x91, 0x00, 0x10, 0x91, 0x00, 0x1f, 0xa0, 0x80, 0x00, 0x00, 0x00, 0x00, 0x00, 0x00, 0x00, 0x00, 0x00, 0x00, 0x00, 0x00]"

definition Font_0xe385b0 :: tImage where
  "Font_0xe385b0 = tImage_make 20 20 8 [
     0x00, 0x00, 0x00, 0x00, 0x00, 0x00, 0x00, 0x00, 0x00, 0x00, 0x00, 0x00, 0x00, 0x00, 0x00, 0x00, 0x00, 0x00, 0x1f, 0x82,
     0x00, 0x10, 0x82, 0x00, 0x10, 0x82, 0x00, 0x10, 0x85, 0x00, 0x10, 0x85, 0x00, 0x10, 0x88, 0x80, 0x10, 0x88, 0x80, 0x10,
     0x90, 0x40, 0x10, 0x90, 0x40, 0x1f, 0xbf, 0xe0, 0x00, 0x00, 0x00, 0x00, 0x00, 0x00, 0x00, 0x00, 0x00, 0x00, 0x00, 0x00]"

definition Font_0xe385b1 :: tImage where
  "Font_0xe385b1 = tImage_make 20 20 8 [
     0x00, 0x00, 0x00, 0x00, 0x00, 0x00, 0x00, 0x00, 0x00, 0x07, 0xfe, 0x00, 0x04, 0x02, 0x00, 0x04, 0x02, 0x00, 0x04, 0x02,
     0x00, 0x04, 0x02, 0x00, 0x07, 0xfe, 0x00, 0x00, 0x00, 0x00, 0x00, 0x20, 0x00, 0x00, 0xf8, 0x00, 0x01, 0x04, 0x00, 0x02,
     0x02, 0x00, 0x02, 0x02, 0x00, 0x01, 0x04, 0x00, 0x00, 0xf8, 0x00, 0x00, 0x00, 0x00, 0x00, 0x00, 0x00, 0x00, 0x00, 0x00]"

definition Font_0xe385b2 :: tImage where
  "Font_0xe385b2 = tImage_make 20 20 8 [
     0x00, 0x00, 0x00, 0x00, 0x00, 0x00, 0x00, 0x00, 0x00, 0x00, 0x00, 0x00, 0x00, 0x00, 0x00, 0x00, 0x00, 0x00, 0x10, 0x5f,
     0x80, 0x10, 0x40, 0x80, 0x10, 0x40, 0x80, 0x10, 0x40, 0x80, 0x1f, 0xc0, 0x80, 0x10, 0x40, 0x80, 0x10, 0x40, 0x80, 0x10,
     0x40, 0x80, 0x10, 0x40, 0x80, 0x1f, 0xc0, 0x80, 0x00, 0x00, 0x00, 0x00, 0x00, 0x00, 0x00, 0x00, 0x00, 0x00, 0x00, 0x00]"

definition Font_0xe385b3 :: tImage where
  "Font_0xe385b3 = tImage_make 20 20 8 [
     0x00, 0x00, 0x00, 0x00, 0x00, 0x00, 0x00, 0x00, 0x00, 0x00, 0x00, 0x00, 0x00, 0x00, 0x00, 0x00, 0x00, 0x00, 0x10, 0x9f,
     0x80, 0x10, 0x90, 0x00, 0x10, 0x90, 0x00, 0x10, 0x90, 0x00, 0x1f, 0x90, 0x00, 0x10, 0x90, 0x00, 0x10, 0x90, 0x00, 0x10,
     0x90, 0x00, 0x10, 0x90, 0x00, 0x1f, 0x9f, 0x80, 0x00, 0x00, 0x00, 0x00, 0x00, 0x00, 0x00, 0x00, 0x00, 0x00, 0x00, 0x00]"

definition Font_0xe385b4 :: tImage where
  "Font_0xe385b4 = tImage_make 20 20 8 [
     0x00, 0x00, 0x00, 0x00, 0x00, 0x00, 0x00, 0x00, 0x00, 0x00, 0x00, 0x00, 0x00, 0x00, 0x00, 0x00, 0x00, 0x00, 0x22, 0x13,
     0xe0, 0x22, 0x10, 0x20, 0x22, 0x10, 0x20, 0x22, 0x10, 0x20, 0x3e, 0x10, 0x20, 0x22, 0x28, 0x20, 0x22, 0x28, 0x20, 0x22,
     0x44, 0x20, 0x22, 0x44, 0x20, 0x3e, 0x82, 0x20, 0x00, 0x00, 0x00, 0x00, 0x00, 0x00, 0x00, 0x00, 0x00, 0x00, 0x00, 0x00]"

definition Font_0xe385b5 :: tImage where
  "Font_0xe385b5 = tImage_make 20 20 8 [
     0x00, 0x00, 0x00, 0x00, 0x00, 0x00, 0x00, 0x00, 0x00, 0x00, 0x00, 0x00, 0x00, 0x00, 0x00, 0x00, 0x00, 0x00, 0x22, 0x23,
     0xe0, 0x22, 0x22, 0x00, 0x22, 0x22, 0x00, 0x22, 0x22, 0x00, 0x3e, 0x22, 0x00, 0x22, 0x52, 0x00, 0x22, 0x52, 0x00, 0x22,
     0x8a, 0x00, 0x22, 0x8a, 0x00, 0x3f, 0x07, 0xe0, 0x00, 0x00, 0x00, 0x00, 0x00, 0x00, 0x00, 0x00, 0x00, 0x00, 0x00, 0x00]"

definition Font_0xe385b6 :: tImage where
  "Font_0xe385b6 = tImage_make 20 20 8 [
     0x00, 0x00, 0x00, 0x00, 0x00, 0x00, 0x00, 0x00, 0x00, 0x00, 0x00, 0x00, 0x00, 0x00, 0x00, 0x00, 0x00, 0x00, 0x10, 0xbf,
     0x80, 0x10, 0x84, 0x00, 0x10, 0x84, 0x00, 0x10, 0x84, 0x00, 0x1f, 0x84, 0x00, 0x10, 0x8a, 0x00, 0x10, 0x8a, 0x00, 0x10,
     0x91, 0x00, 0x10, 0x91, 0x00, 0x1f, 0xa0, 0x80, 0x00, 0x00, 0x00, 0x00, 0x00, 0x00, 0x00, 0x00, 0x00, 0x00, 0x00, 0x00]"

definition Font_0xe385b7 :: tImage where
  "Font_0xe385b7 = tImage_make 20 20 8 [
     0x00, 0x00, 0x00, 0x00, 0x00, 0x00, 0x00, 0x00, 0x00, 0x00, 0x00, 0x00, 0x00, 0x00, 0x00, 0x00, 0x00, 0x00, 0x10, 0x9f,
     0x80, 0x10, 0x90, 0x00, 0x10, 0x90, 0x00, 0x10, 0x90, 0x00, 0x1f, 0x9f, 0x00, 0x10, 0x90, 0x00, 0x10, 0x90, 0x00, 0x10,
     0x90, 0x00, 0x10, 0x90, 0x00, 0x1f, 0x9f, 0x80, 0x00, 0x00, 0x00, 0x00, 0x00, 0x00, 0x00, 0x00, 0x00, 0x00, 0x00, 0x00]"

definition Font_0xe385b8 :: tImage where
  "Font_0xe385b8 = tImage_make 20 20 8 [
     0x00, 0x00, 0x00, 0x00, 0x00, 0x00, 0x04, 0x02, 0x00, 0x04, 0x02, 0x00, 0x07, 0xfe, 0x00, 0x04, 0x02, 0x00, 0x04, 0x02,
     0x00, 0x04, 0x02, 0x00, 0x07, 0xfe, 0x00, 0x00, 0x00, 0x00, 0x00, 0x20, 0x00, 0x00, 0xf8, 0x00, 0x01, 0x04, 0x00, 0x02,
     0x02, 0x00, 0x02, 0x02, 0x00, 0x01, 0x04, 0x00, 0x00, 0xf8, 0x00, 0x00, 0x00, 0x00, 0x00, 0x00, 0x00, 0x00, 0x00, 0x00]"

definition Font_0xe385b9 :: tImage where
  "Font_0xe385b9 = tImage_make 20 20 8 [
     0x00, 0x00, 0x00, 0x00, 0x00, 0x00, 0x08, 0x50, 0x80, 0x08, 0x50, 0x80, 0x0f, 0xdf, 0x80, 0x08, 0x50, 0x80, 0x08, 0x50,
     0x80, 0x08, 0x50, 0x80, 0x0f, 0xdf, 0x80, 0x00, 0x00, 0x00, 0x00, 0x20, 0x00, 0x00, 0xf8, 0x00, 0x01, 0x04, 0x00, 0x02,
     0x02, 0x00, 0x02, 0x02, 0x00, 0x01, 0x04, 0x00, 0x00, 0xf8, 0x00, 0x00, 0x00, 0x00, 0x00, 0x00, 0x00, 0x00, 0x00, 0x00]"

definition Font_0xe385ba :: tImage where
  "Font_0xe385ba = tImage_make 20 20 8 [
     0x00, 0x00, 0x00, 0x00, 0x00, 0x00, 0x00, 0x00, 0x00, 0x00, 0x00, 0x00, 0x00, 0x00, 0x00, 0x00, 0x00, 0x00, 0x02, 0x1f,
     0x80, 0x02, 0x00, 0x80, 0x02, 0x00, 0x80, 0x02, 0x00, 0x80, 0x05, 0x00, 0x80, 0x05, 0x00, 0x80, 0x08, 0x80, 0x80, 0x08,
     0x80, 0x80, 0x10, 0x40, 0x80, 0x20, 0x20, 0x80, 0x00, 0x00, 0x00, 0x00, 0x00, 0x00, 0x00, 0x00, 0x00, 0x00, 0x00, 0x00]"

definition Font_0xe385bb :: tImage where
  "Font_0xe385bb = tImage_make 20 20 8 [
     0x00, 0x00, 0x00, 0x00, 0x00, 0x00, 0x00, 0x00, 0x00, 0x00, 0x00, 0x00, 0x00, 0x00, 0x00, 0x00, 0x00, 0x00, 0x02, 0x08,
     0x00, 0x02, 0x08, 0x00, 0x02, 0x08, 0x00, 0x02, 0x08, 0x00, 0x05, 0x08, 0x00, 0x05, 0x08, 0x00, 0x08, 0x88, 0x00, 0x08,
     0x88, 0x00, 0x10, 0x48, 0x00, 0x20, 0x2f, 0xc0, 0x00, 0x00, 0x00, 0x00, 0x00, 0x00, 0x00, 0x00, 0x00, 0x00, 0x00, 0x00]"

definition Font_0xe385bc :: tImage where
  "Font_0xe385bc = tImage_make 20 20 8 [
     0x00, 0x00, 0x00, 0x00, 0x00, 0x00, 0x00, 0x00, 0x00, 0x00, 0x00, 0x00, 0x00, 0x00, 0x00, 0x00, 0x00, 0x00, 0x02, 0x0f,
     0xc0, 0x02, 0x08, 0x00, 0x02, 0x08, 0x00, 0x02, 0x08, 0x00, 0x05, 0x08, 0x00, 0x05, 0x08, 0x00, 0x08, 0x88, 0x00, 0x08,
     0x88, 0x00, 0x10, 0x48, 0x00, 0x20, 0x2f, 0xc0, 0x00, 0x00, 0x00, 0x00, 0x00, 0x00, 0x00, 0x00, 0x00, 0x00, 0x00, 0x00]"

definition Font_0xe385bd :: tImage where
  "Font_0xe385bd = tImage_make 20 20 8 [
     0x00, 0x00, 0x00, 0x00, 0x00, 0x00, 0x00, 0x00, 0x00, 0x00, 0x00, 0x00, 0x00, 0x00, 0x00, 0x00, 0x00, 0x00, 0x02, 0x08,
     0x40, 0x02, 0x08, 0x40, 0x02, 0x08, 0x40, 0x02, 0x08, 0x40, 0x05, 0x0f, 0xc0, 0x05, 0x08, 0x40, 0x08, 0x88, 0x40, 0x08,
     0x88, 0x40, 0x10, 0x48, 0x40, 0x20, 0x2f, 0xc0, 0x00, 0x00, 0x00, 0x00, 0x00, 0x00, 0x00, 0x00, 0x00, 0x00, 0x00, 0x00]"

definition Font_0xe385be :: tImage where
  "Font_0xe385be = tImage_make 20 20 8 [
     0x00, 0x00, 0x00, 0x00, 0x00, 0x00, 0x00, 0x00, 0x00, 0x00, 0x00, 0x00, 0x00, 0x00, 0x00, 0x00, 0x00, 0x00, 0x04, 0x3f,
     0x80, 0x04, 0x04, 0x00, 0x04, 0x04, 0x00, 0x04, 0x04, 0x00, 0x04, 0x04, 0x00, 0x0a, 0x0a, 0x00, 0x0a, 0x0a, 0x00, 0x11,
     0x11, 0x00, 0x11, 0x11, 0x00, 0x20, 0xa0, 0x80, 0x00, 0x00, 0x00, 0x00, 0x00, 0x00, 0x00, 0x00, 0x00, 0x00, 0x00, 0x00]"

definition Font_0xe385bf :: tImage where
  "Font_0xe385bf = tImage_make 20 20 8 [
     0x00, 0x00, 0x00, 0x00, 0x00, 0x00, 0x00, 0x00, 0x00, 0x00, 0x00, 0x00, 0x00, 0x00, 0x00, 0x00, 0x20, 0x00, 0x00, 0x20,
     0x00, 0x00, 0x50, 0x00, 0x00, 0x50, 0x00, 0x00, 0x88, 0x00, 0x00, 0x88, 0x00, 0x01, 0x04, 0x00, 0x01, 0x04, 0x00, 0x02,
     0x02, 0x00, 0x02, 0x02, 0x00, 0x07, 0xff, 0x00, 0x00, 0x00, 0x00, 0x00, 0x00, 0x00, 0x00, 0x00, 0x00, 0x00, 0x00, 0x00]"

definition Font_0xe38680 :: tImage where
  "Font_0xe38680 = tImage_make 20 20 8 [
     0x00, 0x00, 0x00, 0x00, 0x00, 0x00, 0x00, 0x00, 0x00, 0x00, 0x00, 0x00, 0x00, 0x00, 0x00, 0x02, 0x02, 0x00, 0x02, 0x02,
     0x00, 0x07, 0x07, 0x00, 0x08, 0x88, 0x80, 0x10, 0x50, 0x40, 0x10, 0x50, 0x40, 0x10, 0x50, 0x40, 0x10, 0x50, 0x40, 0x10,
     0x50, 0x40, 0x08, 0x88, 0x80, 0x07, 0x07, 0x00, 0x00, 0x00, 0x00, 0x00, 0x00, 0x00, 0x00, 0x00, 0x00, 0x00, 0x00, 0x00]"

definition Font_0xe38681 :: tImage where
  "Font_0xe38681 = tImage_make 20 20 8 [
     0x00, 0x00, 0x00, 0x00, 0x00, 0x00, 0x00, 0x00, 0x00, 0x00, 0x00, 0x00, 0x00, 0x00, 0x00, 0x00, 0x20, 0x00, 0x00, 0x20,
     0x00, 0x00, 0xf8, 0x00, 0x01, 0x04, 0x00, 0x02, 0x02, 0x00, 0x02, 0x02, 0x00, 0x02, 0x02, 0x00, 0x02, 0x02, 0x00, 0x02,
     0x02, 0x00, 0x01, 0x04, 0x00, 0x00, 0xf8, 0x00, 0x00, 0x00, 0x00, 0x00, 0x00, 0x00, 0x00, 0x00, 0x00, 0x00, 0x00, 0x00]"

definition Font_0xe38682 :: tImage where
  "Font_0xe38682 = tImage_make 20 20 8 [
     0x00, 0x00, 0x00, 0x00, 0x00, 0x00, 0x00, 0x00, 0x00, 0x00, 0x00, 0x00, 0x00, 0x00, 0x00, 0x02, 0x02, 0x00, 0x02, 0x02,
     0x00, 0x07, 0x02, 0x00, 0x08, 0x82, 0x00, 0x10, 0x42, 0x00, 0x10, 0x42, 0x00, 0x10, 0x45, 0x00, 0x10, 0x45, 0x00, 0x10,
     0x48, 0x80, 0x08, 0x88, 0x80, 0x07, 0x10, 0x40, 0x00, 0x00, 0x00, 0x00, 0x00, 0x00, 0x00, 0x00, 0x00, 0x00, 0x00, 0x00]"

definition Font_0xe38683 :: tImage where
  "Font_0xe38683 = tImage_make 20 20 8 [
     0x00, 0x00, 0x00, 0x00, 0x00, 0x00, 0x00, 0x00, 0x00, 0x00, 0x00, 0x00, 0x00, 0x00, 0x00, 0x02, 0x02, 0x00, 0x02, 0x02,
     0x00, 0x07, 0x02, 0x00, 0x08, 0x85, 0x00, 0x10, 0x45, 0x00, 0x10, 0x48, 0x80, 0x10, 0x48, 0x80, 0x10, 0x48, 0x80, 0x10,
     0x50, 0x40, 0x08, 0x90, 0x40, 0x07, 0x3f, 0xe0, 0x00, 0x00, 0x00, 0x00, 0x00, 0x00, 0x00, 0x00, 0x00, 0x00, 0x00, 0x00]"

definition Font_0xe38684 :: tImage where
  "Font_0xe38684 = tImage_make 20 20 8 [
     0x00, 0x00, 0x00, 0x00, 0x00, 0x00, 0x07, 0xfe, 0x00, 0x00, 0x00, 0x00, 0x01, 0x08, 0x00, 0x01, 0x08, 0x00, 0x01, 0x08,
     0x00, 0x0f, 0xff, 0x00, 0x00, 0x00, 0x00, 0x00, 0x20, 0x00, 0x00, 0xf8, 0x00, 0x01, 0x04, 0x00, 0x02, 0x02, 0x00, 0x02,
     0x02, 0x00, 0x02, 0x02, 0x00, 0x01, 0x04, 0x00, 0x00, 0xf8, 0x00, 0x00, 0x00, 0x00, 0x00, 0x00, 0x00, 0x00, 0x00, 0x00]"

definition Font_0xe38685 :: tImage where
  "Font_0xe38685 = tImage_make 20 20 8 [
     0x00, 0x00, 0x00, 0x00, 0x00, 0x00, 0x00, 0x00, 0x00, 0x00, 0x00, 0x00, 0x00, 0x00, 0x00, 0x0f, 0x07, 0x80, 0x00, 0x00,
     0x00, 0x3f, 0xdf, 0xe0, 0x00, 0x00, 0x00, 0x07, 0x07, 0x00, 0x08, 0x88, 0x80, 0x10, 0x50, 0x40, 0x10, 0x50, 0x40, 0x10,
     0x50, 0x40, 0x08, 0x88, 0x80, 0x07, 0x07, 0x00, 0x00, 0x00, 0x00, 0x00, 0x00, 0x00, 0x00, 0x00, 0x00, 0x00, 0x00, 0x00]"

definition Font_0xe38686 :: tImage where
  "Font_0xe38686 = tImage_make 20 20 8 [
     0x00, 0x00, 0x00, 0x00, 0x00, 0x00, 0x00, 0x00, 0x00, 0x00, 0x00, 0x00, 0x00, 0x00, 0x00, 0x00, 0x00, 0x00, 0x0f, 0xff,
     0x80, 0x00, 0x00, 0x00, 0x00, 0x00, 0x00, 0x00, 0xf8, 0x00, 0x01, 0x04, 0x00, 0x02, 0x02, 0x00, 0x02, 0x02, 0x00, 0x02,
     0x02, 0x00, 0x01, 0x04, 0x00, 0x00, 0xf8, 0x00, 0x00, 0x00, 0x00, 0x00, 0x00, 0x00, 0x00, 0x00, 0x00, 0x00, 0x00, 0x00]"

definition Font_0xe38687 :: tImage where
  "Font_0xe38687 = tImage_make 20 20 8 [
     0x00, 0x00, 0x00, 0x00, 0x01, 0x00, 0x00, 0x01, 0x00, 0x00, 0x01, 0x00, 0x00, 0x01, 0x00, 0x00, 0x01, 0x00, 0x00, 0x01,
     0x00, 0x00, 0x01, 0xe0, 0x00, 0x01, 0x00, 0x08, 0x41, 0x00, 0x08, 0x41, 0x00, 0x08, 0x41, 0x00, 0x08, 0x41, 0xe0, 0x08,
     0x4d, 0x00, 0x7f, 0xf1, 0x00, 0x00, 0x01, 0x00, 0x00, 0x01, 0x00, 0x00, 0x01, 0x00, 0x00, 0x01, 0x00, 0x00, 0x00, 0x00]"

definition Font_0xe38688 :: tImage where
  "Font_0xe38688 = tImage_make 20 20 8 [
     0x00, 0x00, 0x00, 0x00, 0x08, 0x80, 0x00, 0x08, 0x80, 0x00, 0x08, 0x80, 0x00, 0x08, 0x80, 0x00, 0x08, 0x80, 0x00, 0x08,
     0x80, 0x00, 0x0f, 0x80, 0x08, 0x88, 0x80, 0x08, 0x88, 0x80, 0x08, 0x88, 0x80, 0x08, 0x88, 0x80, 0x08, 0x8f, 0x80, 0x7f,
     0xf8, 0x80, 0x00, 0x08, 0x80, 0x00, 0x08, 0x80, 0x00, 0x08, 0x80, 0x00, 0x08, 0x80, 0x00, 0x00, 0x80, 0x00, 0x00, 0x00]"

definition Font_0xe38689 :: tImage where
  "Font_0xe38689 = tImage_make 20 20 8 [
     0x00, 0x00, 0x00, 0x00, 0x01, 0x00, 0x00, 0x01, 0x00, 0x00, 0x01, 0x00, 0x00, 0x01, 0x00, 0x00, 0x01, 0x00, 0x00, 0x01,
     0x00, 0x00, 0x01, 0x00, 0x00, 0x01, 0x00, 0x08, 0x41, 0x00, 0x08, 0x41, 0x00, 0x08, 0x41, 0x00, 0x08, 0x41, 0x00, 0x08,
     0x4d, 0x00, 0x7f, 0xf1, 0x00, 0x00, 0x01, 0x00, 0x00, 0x01, 0x00, 0x00, 0x01, 0x00, 0x00, 0x01, 0x00, 0x00, 0x00, 0x00]"

definition Font_0xe3868a :: tImage where
  "Font_0xe3868a = tImage_make 20 20 8 [
     0x00, 0x00, 0x00, 0x00, 0x01, 0x00, 0x00, 0x01, 0x00, 0x00, 0x01, 0x00, 0x00, 0x01, 0x00, 0x00, 0x01, 0x00, 0x00, 0x01,
     0x00, 0x00, 0x01, 0x00, 0x00, 0x01, 0x00, 0x7f, 0xf9, 0x00, 0x08, 0x81, 0x00, 0x08, 0x81, 0x00, 0x08, 0x9f, 0x00, 0x08,
     0x81, 0x00, 0x08, 0x81, 0x00, 0x08, 0x9f, 0x00, 0x10, 0x81, 0x00, 0x10, 0x81, 0x00, 0x00, 0x01, 0x00, 0x00, 0x00, 0x00]"

definition Font_0xe3868b :: tImage where
  "Font_0xe3868b = tImage_make 20 20 8 [
     0x00, 0x00, 0x00, 0x00, 0x08, 0x80, 0x00, 0x08, 0x80, 0x00, 0x08, 0x80, 0x00, 0x08, 0x80, 0x00, 0x08, 0x80, 0x00, 0x08,
     0x80, 0x00, 0x08, 0x80, 0x00, 0x08, 0x80, 0x7f, 0xc8, 0x80, 0x12, 0x08, 0x80, 0x12, 0x78, 0x80, 0x12, 0x08, 0x80, 0x12,
     0x08, 0x80, 0x12, 0x78, 0x80, 0x22, 0x08, 0x80, 0x22, 0x08, 0x80, 0x00, 0x08, 0x80, 0x00, 0x00, 0x80, 0x00, 0x00, 0x00]"

definition Font_0xe3868c :: tImage where
  "Font_0xe3868c = tImage_make 20 20 8 [
     0x00, 0x00, 0x00, 0x00, 0x01, 0x00, 0x00, 0x01, 0x00, 0x00, 0x01, 0x00, 0x00, 0x01, 0x00, 0x00, 0x01, 0x00, 0x00, 0x01,
     0x00, 0x00, 0x01, 0x00, 0x00, 0x01, 0x00, 0x7f, 0xfd, 0x00, 0x08, 0x41, 0x00, 0x08, 0x41, 0x00, 0x08, 0x41, 0x00, 0x08,
     0x41, 0x00, 0x08, 0x41, 0x00, 0x08, 0x41, 0x00, 0x10, 0x41, 0x00, 0x10, 0x41, 0x00, 0x00, 0x01, 0x00, 0x00, 0x00, 0x00]"

definition Font_0xe3868d :: tImage where
  "Font_0xe3868d = tImage_make 20 20 8 [
     0x00, 0x00, 0x00, 0x00, 0x00, 0x00, 0x00, 0x00, 0x00, 0x00, 0x00, 0x00, 0x00, 0x00, 0x00, 0x00, 0x00, 0x00, 0x00, 0x00,
     0x00, 0x00, 0x00, 0x00, 0x00, 0x40, 0x00, 0x00, 0xe0, 0x00, 0x00, 0x40, 0x00, 0x00, 0x00, 0x00, 0x00, 0x00, 0x00, 0x00,
     0x00, 0x00, 0x00, 0x00, 0x00, 0x00, 0x00, 0x00, 0x00, 0x00, 0x00, 0x00, 0x00, 0x00, 0x00, 0x00, 0x00, 0x00, 0x00, 0x00]"

definition Font_0xe3868e :: tImage where
  "Font_0xe3868e = tImage_make 20 20 8 [
     0x00, 0x00, 0x00, 0x00, 0x00, 0x80, 0x00, 0x00, 0x80, 0x00, 0x00, 0x80, 0x00, 0x00, 0x80, 0x00, 0x00, 0x80, 0x00, 0x00,
     0x80, 0x00, 0x00, 0x80, 0x01, 0x00, 0x80, 0x03, 0x80, 0x80, 0x01, 0x00, 0x80, 0x00, 0x00, 0x80, 0x00, 0x00, 0x80, 0x00,
     0x00, 0x80, 0x00, 0x00, 0x80, 0x00, 0x00, 0x80, 0x00, 0x00, 0x80, 0x00, 0x00, 0x80, 0x00, 0x00, 0x80, 0x00, 0x00, 0x00]"

definition letter_images :: "tImage list" where
  "letter_images = [
     Font_0xe384b1, Font_0xe384b2, Font_0xe384b3, Font_0xe384b4, Font_0xe384b5,
     Font_0xe384b6, Font_0xe384b7, Font_0xe384b8, Font_0xe384b9, Font_0xe384ba,
     Font_0xe384bb, Font_0xe384bc, Font_0xe384bd, Font_0xe384be, Font_0xe384bf,
     Font_0xe38580, Font_0xe38581, Font_0xe38582, Font_0xe38583, Font_0xe38584,
     Font_0xe38585, Font_0xe38586, Font_0xe38587, Font_0xe38588, Font_0xe38589,
     Font_0xe3858a, Font_0xe3858b, Font_0xe3858c, Font_0xe3858d, Font_0xe3858e,
     Font_0xe3858f, Font_0xe38590, Font_0xe38591, Font_0xe38592, Font_0xe38593,
     Font_0xe38594, Font_0xe38595, Font_0xe38596, Font_0xe38597, Font_0xe38598,
     Font_0xe38599, Font_0xe3859a, Font_0xe3859b, Font_0xe3859c, Font_0xe3859d,
     Font_0xe3859e, Font_0xe3859f, Font_0xe385a0, Font_0xe385a1, Font_0xe385a2,
     Font_0xe385a3, Font_0xe385a4, Font_0xe385a5, Font_0xe385a6, Font_0xe385a7,
     Font_0xe385a8, Font_0xe385a9, Font_0xe385aa, Font_0xe385ab, Font_0xe385ac,
     Font_0xe385ad, Font_0xe385ae, Font_0xe385af, Font_0xe385b0, Font_0xe385b1,
     Font_0xe385b2, Font_0xe385b3, Font_0xe385b4, Font_0xe385b5, Font_0xe385b6,
     Font_0xe385b7, Font_0xe385b8, Font_0xe385b9, Font_0xe385ba, Font_0xe385bb,
     Font_0xe385bc, Font_0xe385bd, Font_0xe385be, Font_0xe385bf, Font_0xe38680,
     Font_0xe38681, Font_0xe38682, Font_0xe38683, Font_0xe38684, Font_0xe38685,
     Font_0xe38686, Font_0xe38687, Font_0xe38688, Font_0xe38689, Font_0xe3868a,
     Font_0xe3868b, Font_0xe3868c, Font_0xe3868d, Font_0xe3868e]"

lemmas letter_defs =
  Font_0xe384b1_def Font_0xe384b2_def Font_0xe384b3_def Font_0xe384b4_def
  Font_0xe384b5_def Font_0xe384b6_def Font_0xe384b7_def Font_0xe384b8_def
  Font_0xe384b9_def Font_0xe384ba_def Font_0xe384bb_def Font_0xe384bc_def
  Font_0xe384bd_def Font_0xe384be_def Font_0xe384bf_def Font_0xe38580_def
  Font_0xe38581_def Font_0xe38582_def Font_0xe38583_def Font_0xe38584_def
  Font_0xe38585_def Font_0xe38586_def Font_0xe38587_def Font_0xe38588_def
  Font_0xe38589_def Font_0xe3858a_def Font_0xe3858b_def Font_0xe3858c_def
  Font_0xe3858d_def Font_0xe3858e_def Font_0xe3858f_def Font_0xe38590_def
  Font_0xe38591_def Font_0xe38592_def Font_0xe38593_def Font_0xe38594_def
  Font_0xe38595_def Font_0xe38596_def Font_0xe38597_def Font_0xe38598_def
  Font_0xe38599_def Font_0xe3859a_def Font_0xe3859b_def Font_0xe3859c_def
  Font_0xe3859d_def Font_0xe3859e_def Font_0xe3859f_def Font_0xe385a0_def
  Font_0xe385a1_def Font_0xe385a2_def Font_0xe385a3_def Font_0xe385a4_def
  Font_0xe385a5_def Font_0xe385a6_def Font_0xe385a7_def Font_0xe385a8_def
  Font_0xe385a9_def Font_0xe385aa_def Font_0xe385ab_def Font_0xe385ac_def
  Font_0xe385ad_def Font_0xe385ae_def Font_0xe385af_def Font_0xe385b0_def
  Font_0xe385b1_def Font_0xe385b2_def Font_0xe385b3_def Font_0xe385b4_def
  Font_0xe385b5_def Font_0xe385b6_def Font_0xe385b7_def Font_0xe385b8_def
  Font_0xe385b9_def Font_0xe385ba_def Font_0xe385bb_def Font_0xe385bc_def
  Font_0xe385bd_def Font_0xe385be_def Font_0xe385bf_def Font_0xe38680_def
  Font_0xe38681_def Font_0xe38682_def Font_0xe38683_def Font_0xe38684_def
  Font_0xe38685_def Font_0xe38686_def Font_0xe38687_def Font_0xe38688_def
  Font_0xe38689_def Font_0xe3868a_def Font_0xe3868b_def Font_0xe3868c_def
  Font_0xe3868d_def Font_0xe3868e_def

text \<open>The length of the table, and the shape of its entries.\<close>

lemma length_letter_images: "length letter_images = 94"
  by (simp add: letter_images_def)

definition whole_glyph :: "tImage \<Rightarrow> bool" where
  "whole_glyph im \<longleftrightarrow> ti_width im = 20 \<and> ti_height im = 20 \<and> length (ti_data im) = 60"

lemma whole_glyph_make: "whole_glyph (tImage_make 20 20 d bs) \<longleftrightarrow> length bs = 60"
  by (simp add: whole_glyph_def tImage_make_def)

lemma letter_images_whole: "list_all whole_glyph letter_images"
  unfolding letter_images_def letter_defs list.pred_inject whole_glyph_make
  by (simp only: list.pred_inject(1) list.size(3,4) add_Suc_right add_0_right eval_nat_numeral BitM.simps simp_thms)

end
