(* ===== verification/C_String.thy ===== *)
theory C_String
  imports TV_Prelude
begin

text \<open>
  The functions of \<open>string.h\<close> the firmware uses, on byte arrays. An array is the list of its
  bytes; a pointer into it is the list of the bytes from there to the end of the array. Reading
  or writing past the end is \<open>Undef\<close>. \<open>cstr a\<close> is the string an array holds: its bytes before
  the first NUL.
\<close>

definition cstr :: "byte list \<Rightarrow> byte list" where
  "cstr a = takeWhile (\<lambda>b. b \<noteq> 0) a"

definition terminated :: "byte list \<Rightarrow> bool" where
  "terminated a \<longleftrightarrow> 0 \<in> set a"

subsection \<open>The functions\<close>

fun c_strlen :: "byte list \<Rightarrow> nat run" where
  "c_strlen [] = Inl Undef"
| "c_strlen (b # bs) = (if b = 0 then Inr 0 else bindR (c_strlen bs) (\<lambda>n. Inr (Suc n)))"

text \<open>\<open>strncpy(dst, src, n)\<close> writes exactly \<open>n\<close> bytes, with NULs after the end of \<open>src\<close>.\<close>

fun strncpy_bytes :: "byte list \<Rightarrow> nat \<Rightarrow> byte list run" where
  "strncpy_bytes src 0 = Inr []"
| "strncpy_bytes [] (Suc n) = Inl Undef"
| "strncpy_bytes (b # bs) (Suc n) =
     (if b = 0 then Inr (replicate (Suc n) 0)
      else bindR (strncpy_bytes bs n) (\<lambda>ys. Inr (b # ys)))"

definition c_memcpy :: "byte list \<Rightarrow> byte list \<Rightarrow> byte list run" where
  "c_memcpy dst xs =
     (if length xs \<le> length dst then Inr (xs @ drop (length xs) dst) else Inl Undef)"

definition c_strncpy :: "byte list \<Rightarrow> byte list \<Rightarrow> nat \<Rightarrow> byte list run" where
  "c_strncpy dst src n = bindR (strncpy_bytes src n) (c_memcpy dst)"

definition c_memset :: "byte list \<Rightarrow> byte \<Rightarrow> nat \<Rightarrow> byte list run" where
  "c_memset dst v n = c_memcpy dst (replicate n v)"

text \<open>The two searches return the offset of the match, \<open>None\<close> for a null pointer.\<close>

fun c_strchr :: "byte list \<Rightarrow> byte \<Rightarrow> nat option run" where
  "c_strchr [] c = Inl Undef"
| "c_strchr (b # bs) c =
     (if b = c then Inr (Some 0)
      else if b = 0 then Inr None
      else bindR (c_strchr bs c) (\<lambda>r. Inr (map_option Suc r)))"

fun c_strstr :: "byte list \<Rightarrow> byte list \<Rightarrow> nat option run" where
  "c_strstr [] needle = Inl Undef"
| "c_strstr (b # bs) needle =
     (if take (length needle) (b # bs) = needle then Inr (Some 0)
      else if b = 0 then Inr None
      else bindR (c_strstr bs needle) (\<lambda>r. Inr (map_option Suc r)))"

subsection \<open>Laws\<close>

lemma cstr_simps [simp]:
  "cstr [] = []"
  "cstr (b # bs) = (if b = 0 then [] else b # cstr bs)"
  by (simp_all add: cstr_def)

lemma terminated_simps [simp]:
  "\<not> terminated []"
  "terminated (b # bs) \<longleftrightarrow> b = 0 \<or> terminated bs"
  by (auto simp: terminated_def)

lemma terminated_append [simp]: "terminated (xs @ ys) \<longleftrightarrow> terminated xs \<or> terminated ys"
  by (auto simp: terminated_def)

lemma cstr_no_nul: "0 \<notin> set (cstr a)"
  by (metis (mono_tags, lifting) cstr_def set_takeWhileD)

lemma cstr_length_le: "length (cstr a) \<le> length a"
  by (simp add: cstr_def length_takeWhile_le)

lemma cstr_length_less: "terminated a \<Longrightarrow> length (cstr a) < length a"
  by (induction a) (auto simp: cstr_def)

lemma cstr_append_nul: "0 \<notin> set s \<Longrightarrow> cstr (s @ 0 # rest) = s"
  by (induction s) auto

lemma cstr_append_clean: "0 \<notin> set s \<Longrightarrow> cstr (s @ rest) = s @ cstr rest"
  by (induction s) auto

lemma terminated_split:
  assumes "terminated a"
  obtains rest where "a = cstr a @ 0 # rest"
proof -
  have "\<exists>rest. a = cstr a @ 0 # rest"
    using assms by (induction a) (auto simp: cstr_def)
  then show ?thesis using that by blast
qed

lemma nth_cstr: "i < length (cstr a) \<Longrightarrow> a ! i = cstr a ! i"
  by (simp add: cstr_def takeWhile_nth)

lemma c_strlen_eq: "c_strlen a = (if terminated a then Inr (length (cstr a)) else Inl Undef)"
  by (induction a) auto

lemma c_strlen_terminated [simp]: "terminated a \<Longrightarrow> c_strlen a = Inr (length (cstr a))"
  by (simp add: c_strlen_eq)

lemma strncpy_bytes_eq:
  assumes "n \<le> length src \<or> terminated src"
  shows "strncpy_bytes src n = Inr (take n (cstr src @ replicate n 0))"
  using assms
proof (induction src n rule: strncpy_bytes.induct)
  case (3 b bs n)
  show ?case
  proof (cases "b = 0")
    case False
    with 3 have "strncpy_bytes bs n = Inr (take n (cstr bs @ replicate n 0))" by auto
    with False show ?thesis
      by (simp add: replicate_append_same[symmetric] take_append)
  qed simp
qed auto

lemma c_strncpy_eq:
  assumes "n \<le> length src \<or> terminated src" "n \<le> length dst"
  shows "c_strncpy dst src n = Inr (take n (cstr src @ replicate n 0) @ drop n dst)"
proof -
  have "length (take n (cstr src @ replicate n 0)) = n" by simp
  with assms show ?thesis
    by (simp only: c_strncpy_def c_memcpy_def strncpy_bytes_eq bindR_simps if_True)
qed

lemma c_memset_eq: "n \<le> length dst \<Longrightarrow> c_memset dst v n = Inr (replicate n v @ drop n dst)"
  by (simp add: c_memset_def c_memcpy_def)

lemma c_strchr_eq_None:
  "terminated a \<Longrightarrow> c \<noteq> 0 \<Longrightarrow> c \<notin> set (cstr a) \<Longrightarrow> c_strchr a c = Inr None"
  by (induction a) (auto split: if_splits)

lemma c_strchr_found:
  "0 \<notin> set w \<Longrightarrow> c \<notin> set w \<Longrightarrow> c_strchr (w @ c # rest) c = Inr (Some (length w))"
  by (induction w) auto

lemma c_strchr_total:
  assumes "terminated a" "c \<noteq> 0"
  shows "c_strchr a c = Inr (if c \<in> set (cstr a)
     then Some (length (takeWhile (\<lambda>b. b \<noteq> c) a)) else None)"
  using assms by (induction a) auto

lemma c_strchr_before_end:
  "c \<in> set (cstr a) \<Longrightarrow> length (takeWhile (\<lambda>b. b \<noteq> c) a) < length (cstr a)"
  by (induction a) (auto split: if_splits)

lemma c_strstr_total:
  assumes "terminated a" "0 \<notin> set nd"
  shows "\<exists>r. c_strstr a nd = Inr r \<and>
    (\<forall>i. r = Some i \<longrightarrow> i + length nd \<le> length (cstr a) \<and> take (length nd) (drop i a) = nd)"
  using assms
proof (induction a)
  case (Cons b bs)
  show ?case
  proof (cases "take (length nd) (b # bs) = nd")
    case True
    have "length nd \<le> length (cstr (b # bs))"
    proof (rule ccontr)
      assume "\<not> ?thesis"
      then have less: "length (cstr (b # bs)) < length nd" by simp
      obtain rest where s: "b # bs = cstr (b # bs) @ 0 # rest"
        using Cons.prems(1) by (rule terminated_split)
      have "nd ! length (cstr (b # bs)) = 0"
        using less True s by (metis nth_append_length nth_take)
      with less Cons.prems(2) show False by (metis nth_mem)
    qed
    with True show ?thesis by simp
  next
    case False
    show ?thesis
    proof (cases "b = 0")
      case True with False show ?thesis by simp
    next
      case nz: False
      with Cons obtain r where "c_strstr bs nd = Inr r"
        "\<forall>i. r = Some i \<longrightarrow> i + length nd \<le> length (cstr bs) \<and> take (length nd) (drop i bs) = nd"
        by auto
      with False nz show ?thesis by (cases r) auto
    qed
  qed
qed simp

lemma c_strstr_found:
  assumes "\<And>i. i < length h \<Longrightarrow> take (length nd) (drop i (h @ nd @ rest)) \<noteq> nd" "0 \<notin> set h"
  shows "nd \<noteq> [] \<Longrightarrow> c_strstr (h @ nd @ rest) nd = Inr (Some (length h))"
  using assms
proof (induction h)
  case Nil
  then show ?case by (cases nd) auto
next
  case (Cons b h)
  have "c_strstr (h @ nd @ rest) nd = Inr (Some (length h))"
  proof (rule Cons.IH)
    fix i assume "i < length h"
    then show "take (length nd) (drop i (h @ nd @ rest)) \<noteq> nd"
      using Cons.prems(2)[of "Suc i"] by simp
  qed (use Cons.prems in auto)
  moreover have "take (length nd) (b # h @ nd @ rest) \<noteq> nd"
    using Cons.prems(2)[of 0] by simp
  ultimately show ?case using Cons.prems(3) by simp
qed


lemma drop_cstr:
  "n \<le> length (cstr a) \<Longrightarrow> terminated a \<Longrightarrow>
     terminated (drop n a) \<and> cstr (drop n a) = drop n (cstr a)"
proof (induction a arbitrary: n)
  case (Cons b a)
  then show ?case by (cases n) (auto split: if_splits)
qed simp

lemma cstr_replicate_nul [simp]: "0 \<notin> set s \<Longrightarrow> cstr (s @ replicate n 0) = s"
  by (induction s) (auto simp: cstr_def takeWhile_replicate)

lemma take_cstr: "n \<le> length (cstr a) \<Longrightarrow> take n (cstr a) = take n a"
proof -
  assume n: "n \<le> length (cstr a)"
  have "a = cstr a @ dropWhile (\<lambda>b. b \<noteq> 0) a" by (simp add: cstr_def)
  then have "take n a = take n (cstr a @ dropWhile (\<lambda>b. b \<noteq> 0) a)" by (rule arg_cong)
  with n show ?thesis by simp
qed

lemma nul_at_end:
  "(take n c @ replicate (n - length c) 0 @ [0])[n := 0] = take n c @ replicate (n - length c) 0 @ [0]"
proof -
  have "length (take n c @ replicate (n - length c) 0) = n" by simp
  then show ?thesis by (metis append_assoc list_update_length)
qed

lemma terminated_replicate [simp]: "terminated (replicate n 0) \<longleftrightarrow> n \<noteq> 0"
  by (simp add: terminated_def)

lemma terminated_nth: "i < length a \<Longrightarrow> a ! i = 0 \<Longrightarrow> terminated a"
  unfolding terminated_def by (metis nth_mem)


lemma cstr_take_pad: "0 \<notin> set s \<Longrightarrow> cstr (take n s @ replicate m 0 @ [0]) = take n s"
proof -
  assume "0 \<notin> set s"
  then have "0 \<notin> set (take n s)" by (meson in_set_takeD)
  then have "cstr (take n s @ replicate (Suc m) 0) = take n s" by (rule cstr_replicate_nul)
  then show ?thesis by (simp add: replicate_append_same)
qed

lemma c_strstr_absent:
  assumes "terminated a" "0 \<notin> set nd" "\<And>i. take (length nd) (drop i (cstr a)) \<noteq> nd"
  shows "c_strstr a nd = Inr None"
proof -
  obtain r where r: "c_strstr a nd = Inr r" and
    found: "\<And>i. r = Some i \<Longrightarrow> i + length nd \<le> length (cstr a) \<and> take (length nd) (drop i a) = nd"
    using c_strstr_total [OF assms(1,2)] by auto
  have "take (length nd) (drop i (cstr a)) = take (length nd) (drop i a)"
    if "i + length nd \<le> length (cstr a)" for i
  proof -
    have "a = cstr a @ dropWhile (\<lambda>b. b \<noteq> 0) a" by (simp add: cstr_def)
    then have "take (length nd) (drop i a) =
        take (length nd) (drop i (cstr a @ dropWhile (\<lambda>b. b \<noteq> 0) a))"
      by (rule arg_cong)
    with that show ?thesis by simp
  qed
  with found assms(3) r show ?thesis by (cases r) force+
qed

end
