(* ===== verification/Parser_Char.thy ===== *)
theory Parser_Char
  imports TV_Prelude C_String
begin

text \<open>
  \<open>components/lcd_touch/parser_char.c\<close>: reading one character of a UTF-8 string. A pointer into
  a C array is the list of the bytes from the pointer to the end of the array.
\<close>

definition PC_CONSONANTS_VOWELS_INDEX_IN_UNICODE :: u32 where
  "PC_CONSONANTS_VOWELS_INDEX_IN_UNICODE = 0x3131"

definition PC_COMPLETE_TYPE_TEXT_INDEX_IN_UNICODE :: u32 where
  "PC_COMPLETE_TYPE_TEXT_INDEX_IN_UNICODE = 0xAC00"

definition ParserChar_IsASCIIText :: "byte \<Rightarrow> bool" where
  "ParserChar_IsASCIIText text = (if text < 127 then True else False)"

text \<open>The conjunction is evaluated left to right and stops at the first false operand.\<close>

definition ParserChar_IsKoreanText :: "byte list \<Rightarrow> byte \<Rightarrow> bool run" where
  "ParserChar_IsKoreanText text startIndex =
     bindR (c_read text (unat startIndex)) (\<lambda>b0.
       if \<not> (b0 AND 0b11100000 \<noteq> 0 \<and> \<not> (b0 AND 0b00010000 \<noteq> 0)) then Inr False
       else bindR (c_read text (unat startIndex + 1)) (\<lambda>b1.
         if \<not> (b1 AND 0b10000000 \<noteq> 0 \<and> \<not> (b1 AND 0b01000000 \<noteq> 0)) then Inr False
         else bindR (c_read text (unat startIndex + 2)) (\<lambda>b2.
           if \<not> (b2 AND 0b10000000 \<noteq> 0 \<and> \<not> (b2 AND 0b01000000 \<noteq> 0)) then Inr False
           else Inr True)))"

definition ParserChar_GetUnicodeNumOfKorean :: "byte list \<Rightarrow> byte \<Rightarrow> u32 run" where
  "ParserChar_GetUnicodeNumOfKorean text startIndex =
     bindR (c_read text (unat startIndex)) (\<lambda>b0.
     let num1 = push_bit 12 (ucast b0 - 0b11100000) in
     bindR (c_read text (unat startIndex + 1)) (\<lambda>b1.
     let num2 = push_bit 6 (ucast b1 - 0b10000000) in
     bindR (c_read text (unat startIndex + 2)) (\<lambda>b2.
     let num3 = ucast b2 - 0b10000000 in
     Inr (num1 + num2 + num3))))"

text \<open>The result is the code and the number of bytes consumed (\<open>*outLen\<close>).\<close>

definition ParserChar_GetUnicode :: "byte list \<Rightarrow> (u32 \<times> byte) run" where
  "ParserChar_GetUnicode text =
     bindR (c_read text 0) (\<lambda>b0.
       if ParserChar_IsASCIIText b0 then Inr (ucast b0, 1)
       else bindR (ParserChar_IsKoreanText text 0) (\<lambda>korean.
         if korean
         then bindR (ParserChar_GetUnicodeNumOfKorean text 0) (\<lambda>u. Inr (u, 3))
         else Inr (ucast b0, 1)))"


subsection \<open>Reference: the UTF-8 encoding\<close>

text \<open>
  The encoding of one code point (below \<open>0x110000\<close>) in one to four bytes, and the shape of
  a continuation byte. The parser is checked against it.
\<close>

definition utf8_encode :: "nat \<Rightarrow> byte list" where
  "utf8_encode c =
     (if c < 0x80 then [of_nat c]
      else if c < 0x800 then [of_nat (0xC0 + c div 64), of_nat (0x80 + c mod 64)]
      else if c < 0x10000 then
        [of_nat (0xE0 + c div 4096), of_nat (0x80 + c div 64 mod 64), of_nat (0x80 + c mod 64)]
      else [of_nat (0xF0 + c div 262144), of_nat (0x80 + c div 4096 mod 64),
            of_nat (0x80 + c div 64 mod 64), of_nat (0x80 + c mod 64)])"

definition is_cont :: "byte \<Rightarrow> bool" where
  "is_cont b \<longleftrightarrow> b AND 0b10000000 \<noteq> 0 \<and> b AND 0b01000000 = 0"

definition korean_lead :: "byte \<Rightarrow> bool" where
  "korean_lead b \<longleftrightarrow> b AND 0b11100000 \<noteq> 0 \<and> b AND 0b00010000 = 0"

lemmas parser_char_defs =
  ParserChar_GetUnicode_def ParserChar_IsASCIIText_def ParserChar_IsKoreanText_def
  ParserChar_GetUnicodeNumOfKorean_def

lemma is_cont_of_nat: "m < 64 \<Longrightarrow> is_cont (of_nat (0x80 + m))"
proof -
  have "\<forall>i<64. is_cont (of_nat (0x80 + i))"
    unfolding all_less_iff_upt by code_simp
  then show "m < 64 \<Longrightarrow> is_cont (of_nat (0x80 + m))" by blast
qed

lemma lead3_of_nat:
  "m < 16 \<Longrightarrow> korean_lead (of_nat (0xE0 + m)) \<and> \<not> (of_nat (0xE0 + m) :: byte) < 127"
proof -
  have "\<forall>m<16. korean_lead (of_nat (0xE0 + m)) \<and> \<not> (of_nat (0xE0 + m) :: byte) < 127"
    unfolding all_less_iff_upt by code_simp
  then show "m < 16 \<Longrightarrow> ?thesis" by blast
qed

lemma zero_not_cont [simp]: "\<not> is_cont 0"
  by (simp add: is_cont_def)

text \<open>The three branches of the parser.\<close>

lemma GetUnicode_ascii:
  "b < 127 \<Longrightarrow> ParserChar_GetUnicode (b # rest) = Inr (ucast b, 1)"
  by (simp add: parser_char_defs)

lemma GetUnicode_three:
  assumes "korean_lead b0 \<and> \<not> b0 < 127" "is_cont b1" "is_cont b2"
  shows "ParserChar_GetUnicode (b0 # b1 # b2 # rest) =
     Inr (push_bit 12 (ucast b0 - 0xE0) + push_bit 6 (ucast b1 - 0x80) + (ucast b2 - 0x80), 3)"
  using assms by (simp add: parser_char_defs is_cont_def korean_lead_def c_read_def)

lemma GetUnicode_other_lead:
  "\<not> korean_lead b \<Longrightarrow> ParserChar_GetUnicode (b # rest) = Inr (ucast b, 1)"
  by (auto simp: parser_char_defs korean_lead_def)

lemma GetUnicode_bad_second:
  "\<not> is_cont b1 \<Longrightarrow> ParserChar_GetUnicode (b # b1 # rest) = Inr (ucast b, 1)"
  by (auto simp: parser_char_defs is_cont_def c_read_def)

lemma GetUnicode_bad_third:
  "\<not> is_cont b2 \<Longrightarrow> ParserChar_GetUnicode (b # b1 # b2 # rest) = Inr (ucast b, 1)"
  by (auto simp: parser_char_defs is_cont_def c_read_def)


subsection \<open>Properties\<close>

definition parser_code :: "nat \<Rightarrow> bool" where
  "parser_code c \<longleftrightarrow> c < 127 \<or> 0x800 \<le> c \<and> c < 0x10000"

lemma utf8_encode_three:
  assumes "0x800 \<le> c" "c < 0x10000"
  shows "ParserChar_GetUnicode (utf8_encode c @ rest) = Inr (of_nat c, 3)"
proof -
  have a: "c div 4096 < 16" and b: "c div 64 mod 64 < 64" and d: "c mod 64 < 64"
    using assms by auto
  have eq: "c div 4096 * 4096 + ((c div 64 mod 64) * 64 + c mod 64) = c"
  proof -
    have "c div 4096 = c div 64 div 64" using div_mult2_eq [of c 64 64] by simp
    then show ?thesis
      using div_mult_mod_eq [of c 64] div_mult_mod_eq [of "c div 64" 64] by linarith
  qed
  have "ParserChar_GetUnicode (utf8_encode c @ rest) =
     Inr (of_nat (c div 4096 * 4096 + ((c div 64 mod 64) * 64 + c mod 64)), 3)"
    using assms a b d
      GetUnicode_three [OF lead3_of_nat [OF a] is_cont_of_nat [OF b] is_cont_of_nat [OF d]]
    by (simp add: utf8_encode_def ucast_byte_minus [where k = 224, simplified]
        ucast_byte_minus [where k = 128, simplified] push_bit_of_nat32 del: of_nat_mult)
  then show ?thesis by (simp only: eq)
qed

lemma utf8_encode_ascii:
  "c < 127 \<Longrightarrow> utf8_encode c = [of_nat c] \<and> (of_nat c :: byte) < 127"
  by (simp add: utf8_encode_def word_less_nat_alt unat_of_nat)

lemma parse_utf8:
  assumes "parser_code c"
  shows "ParserChar_GetUnicode (utf8_encode c @ rest) = Inr (of_nat c, of_nat (length (utf8_encode c)))"
proof (cases "c < 127")
  case True
  then show ?thesis
    using utf8_encode_ascii [OF True] GetUnicode_ascii [of "of_nat c" rest]
    by (simp add: ucast_of_nat_byte)
next
  case False
  with assms have c: "0x800 \<le> c" "c < 0x10000" by (auto simp: parser_code_def)
  then have "length (utf8_encode c) = 3" by (simp add: utf8_encode_def)
  with utf8_encode_three [OF c] show ?thesis by simp
qed

text \<open>
  C16. Round trip with UTF-8: on the encoding of an ASCII character below DEL or of any
  three-byte code point (all of Hangul is among them), whatever follows it in memory, the
  parser returns exactly that code point and the length of its encoding.
\<close>

theorem GetUnicode_utf8_roundtrip:
  assumes "parser_code c"
  shows "ParserChar_GetUnicode (utf8_encode c @ rest) = Inr (of_nat c, of_nat (length (utf8_encode c)))"
  using assms by (rule parse_utf8)

theorem GetUnicode_utf8_roundtrip_witness:
  "ParserChar_GetUnicode ([0xEA, 0xB0, 0x80] @ [0]) = Inr (0xAC00, 3)"
proof -
  have "parser_code 0xAC00" by (simp add: parser_code_def)
  from GetUnicode_utf8_roundtrip [OF this, of "[0]"] show ?thesis
    by (simp add: utf8_encode_def)
qed

lemma GetUnicode_total:
  assumes "terminated a" "cstr a \<noteq> []"
  shows "\<exists>u k. ParserChar_GetUnicode a = Inr (u, k) \<and> 1 \<le> unat k \<and> unat k \<le> length (cstr a)"
proof -
  obtain b r where t: "a = b # r" and b: "b \<noteq> 0" and r: "terminated r"
    using assms by (cases a) (auto split: if_splits)
  show ?thesis
  proof (cases "b < 127 \<or> \<not> korean_lead b")
    case True
    then show ?thesis using t b by (auto simp: GetUnicode_ascii GetUnicode_other_lead)
  next
    case lead: False
    obtain b1 r1 where r1: "r = b1 # r1" using r by (cases r) auto
    show ?thesis
    proof (cases "is_cont b1")
      case False
      then show ?thesis using t b r1 by (auto simp: GetUnicode_bad_second)
    next
      case c1: True
      then have nz: "b1 \<noteq> 0" by auto
      with r r1 obtain b2 r2 where r2: "r1 = b2 # r2" by (cases r1) auto
      show ?thesis
      proof (cases "is_cont b2")
        case False
        then show ?thesis using t b r1 r2 by (auto simp: GetUnicode_bad_third)
      next
        case True
        then have "b2 \<noteq> 0" by auto
        then show ?thesis using t b r1 r2 nz lead c1 True by (auto simp: GetUnicode_three)
      qed
    qed
  qed
qed

lemma other_lead_bytes:
  "m < 32 \<Longrightarrow> \<not> (of_nat (0xC0 + m) :: byte) < 127"
  "m < 8 \<Longrightarrow> \<not> korean_lead (of_nat (0xF0 + m))"
proof -
  have "\<forall>m<32. \<not> (of_nat (0xC0 + m) :: byte) < 127"
    unfolding all_less_iff_upt by code_simp
  then show "m < 32 \<Longrightarrow> \<not> (of_nat (0xC0 + m) :: byte) < 127" by blast
  have "\<forall>m<8. \<not> korean_lead (of_nat (0xF0 + m))"
    unfolding all_less_iff_upt by code_simp
  then show "m < 8 \<Longrightarrow> \<not> korean_lead (of_nat (0xF0 + m))" by blast
qed

text \<open>
  Characters of two or four bytes are not decoded: at the start of such a character (with
  a following byte that is no continuation) the parser reports the lead byte as if it were a
  code point and consumes only that byte, so the next call starts inside the character.
\<close>

lemma GetUnicode_two_or_four_bytes:
  assumes "0x80 \<le> c \<and> c < 0x800 \<or> 0x10000 \<le> c \<and> c < 0x110000" "\<not> is_cont nxt"
  shows "ParserChar_GetUnicode (utf8_encode c @ nxt # rest) =
           Inr (ucast (hd (utf8_encode c)), 1)"
proof (cases "c < 0x800")
  case True
  with assms show ?thesis
    by (auto simp: utf8_encode_def GetUnicode_bad_third)
next
  case False
  with assms have c: "0x10000 \<le> c" "c < 0x110000" by auto
  then have "c div 262144 < 8" by auto
  from other_lead_bytes(2) [OF this] c show ?thesis
    by (simp add: utf8_encode_def GetUnicode_other_lead)
qed

end
