(* ===== verification/Font_Table.thy ===== *)
theory Font_Table
  imports Font_Letters Parser_Char
begin

text \<open>
  The font table at the end of \<open>components/lcd_touch/Font.h\<close> and the function of \<open>lcd_touch.c\<close> that
  finds a character in it. The table has 95 ASCII characters, the 94 Hangul letters from U+3131 and
  the 11172 Hangul syllables from U+AC00. The codes are as in the file (the bytes of the character's
  UTF-8 encoding, packed into a number); the bitmaps of the Hangul syllables, all 20 by 20 in 60 bytes,
  are an argument \<open>G\<close> of the table, and the theorems hold for every choice of them.
\<close>

record tChar =
  ch_code :: nat
  ch_image :: "tImage option"

record tFont =
  ft_length :: nat
  ft_chars :: "tChar list"

type_synonym bitmaps = "nat \<Rightarrow> byte list"

definition packed :: "byte list \<Rightarrow> nat" where
  "packed bs = foldl (\<lambda>n b. n * 256 + unat b) 0 bs"

definition LT_CONSONANTS_VOWELS_INDEX_IN_FONT :: nat where "LT_CONSONANTS_VOWELS_INDEX_IN_FONT = 95"
definition LT_COMPLETE_TYPE_TEXT_INDEX_IN_FONT :: nat where "LT_COMPLETE_TYPE_TEXT_INDEX_IN_FONT = 189"
definition LT_GAP_UNICODE_FONTFILE :: u32 where "LT_GAP_UNICODE_FONTFILE = 32"

definition LT_CALI_VALUE_OF_CV_INDEX :: u32 where
  "LT_CALI_VALUE_OF_CV_INDEX = PC_CONSONANTS_VOWELS_INDEX_IN_UNICODE - of_nat LT_CONSONANTS_VOWELS_INDEX_IN_FONT"

definition LT_CALI_VALUE_OF_CT_INDEX :: u32 where
  "LT_CALI_VALUE_OF_CT_INDEX = PC_COMPLETE_TYPE_TEXT_INDEX_IN_UNICODE - of_nat LT_COMPLETE_TYPE_TEXT_INDEX_IN_FONT"

text \<open>The code point of the \<open>i\<close>th entry, and the entry.\<close>

definition font_code_point :: "nat \<Rightarrow> nat" where
  "font_code_point i =
     (if i < LT_CONSONANTS_VOWELS_INDEX_IN_FONT then 0x20 + i
      else if i < LT_COMPLETE_TYPE_TEXT_INDEX_IN_FONT then 0x3131 + (i - LT_CONSONANTS_VOWELS_INDEX_IN_FONT)
      else 0xAC00 + (i - LT_COMPLETE_TYPE_TEXT_INDEX_IN_FONT))"

definition Font_array :: "bitmaps \<Rightarrow> nat \<Rightarrow> tChar" where
  "Font_array G i = \<lparr>ch_code = packed (utf8_encode (font_code_point i)),
     ch_image = Some (if i < LT_CONSONANTS_VOWELS_INDEX_IN_FONT then ascii_images ! i
                      else if i < LT_COMPLETE_TYPE_TEXT_INDEX_IN_FONT
                      then letter_images ! (i - LT_CONSONANTS_VOWELS_INDEX_IN_FONT)
                      else tImage_make 20 20 8 (G i))\<rparr>"

definition FONT_LENGTH :: nat where "FONT_LENGTH = 11361"

definition Font :: "bitmaps \<Rightarrow> tFont" where
  "Font G = \<lparr>ft_length = FONT_LENGTH, ft_chars = map (Font_array G) [0..<FONT_LENGTH]\<rparr>"

definition bitmaps_ok :: "bitmaps \<Rightarrow> bool" where
  "bitmaps_ok G \<longleftrightarrow> (\<forall>i. length (G i) = 60)"

text \<open>\<open>LcdTouch_GetFontIndexOfUnicode\<close>, with the wrap-around of \<open>uint32_t\<close>.\<close>

definition LcdTouch_GetFontIndexOfUnicode :: "u32 \<Rightarrow> u32" where
  "LcdTouch_GetFontIndexOfUnicode unicode =
     (if unicode < 127 then unicode - LT_GAP_UNICODE_FONTFILE
      else if unicode \<ge> PC_COMPLETE_TYPE_TEXT_INDEX_IN_UNICODE then unicode - LT_CALI_VALUE_OF_CT_INDEX
      else unicode - LT_CALI_VALUE_OF_CV_INDEX)"

lemmas font_index_defs =
  LT_CONSONANTS_VOWELS_INDEX_IN_FONT_def LT_COMPLETE_TYPE_TEXT_INDEX_IN_FONT_def
  LT_GAP_UNICODE_FONTFILE_def LT_CALI_VALUE_OF_CV_INDEX_def LT_CALI_VALUE_OF_CT_INDEX_def
  PC_CONSONANTS_VOWELS_INDEX_IN_UNICODE_def PC_COMPLETE_TYPE_TEXT_INDEX_IN_UNICODE_def

subsection \<open>Reading the table\<close>

lemma Font_read:
  "c_read (ft_chars (Font G)) i = (if i < FONT_LENGTH then Inr (Font_array G i) else Inl Undef)"
  by (simp add: Font_def c_read_def)

lemma length_ascii_images: "length ascii_images = 95"
  by (simp add: ascii_images_def)

text \<open>What the drawing code relies on: every image is at most 20 by 20, at least 1 wide, and has whole rows.\<close>

definition stride :: "tImage \<Rightarrow> nat" where
  "stride im = (unat (ti_width im) + 7) div 8"

definition image_ok :: "tImage \<Rightarrow> bool" where
  "image_ok im \<longleftrightarrow> 0 < unat (ti_width im) \<and> unat (ti_width im) \<le> 20 \<and> unat (ti_height im) = 20 \<and>
     length (ti_data im) = stride im * unat (ti_height im)"

lemma ascii_images_ok: "list_all image_ok ascii_images"
  unfolding ascii_images_def image_ok_def stride_def glyph_defs tImage_make_def
  by simp

lemma whole_glyph_ok: "whole_glyph im \<Longrightarrow> image_ok im"
  by (simp add: whole_glyph_def image_ok_def stride_def)

lemma letter_image_whole: "k < 94 \<Longrightarrow> whole_glyph (letter_images ! k)"
  using letter_images_whole by (simp add: list_all_length length_letter_images)

lemma Font_array_image:
  assumes "bitmaps_ok G"
  obtains im where "ch_image (Font_array G i) = Some im" "image_ok im"
proof -
  have "image_ok (ascii_images ! i)" if "i < 95"
    using ascii_images_ok that by (simp add: list_all_length length_ascii_images)
  moreover have "image_ok (letter_images ! (i - 95))" if "\<not> i < 95" "i < 189"
    using letter_image_whole [of "i - 95"] that by (simp add: whole_glyph_ok)
  moreover have "image_ok (tImage_make 20 20 8 (G i))"
    using assms by (simp add: whole_glyph_ok whole_glyph_make bitmaps_ok_def)
  ultimately show ?thesis
    using that
    by (simp add: Font_array_def LT_CONSONANTS_VOWELS_INDEX_IN_FONT_def LT_COMPLETE_TYPE_TEXT_INDEX_IN_FONT_def split: if_splits)
qed

subsection \<open>Which characters are found\<close>

text \<open>The characters the font is for: printable ASCII, Hangul letters, Hangul syllables.\<close>

definition supported :: "nat \<Rightarrow> bool" where
  "supported c \<longleftrightarrow> 32 \<le> c \<and> c < 127 \<or> 0x3131 \<le> c \<and> c \<le> 0x318E \<or> 0xAC00 \<le> c \<and> c \<le> 0xD7A3"

definition font_index :: "nat \<Rightarrow> nat" where
  "font_index c = unat (LcdTouch_GetFontIndexOfUnicode (of_nat c))"

lemma unat_of_nat32: "c < 2 ^ 32 \<Longrightarrow> unat (of_nat c :: u32) = c"
  by (simp add: unsigned_of_nat take_bit_nat_eq_self)

lemma minus_of_nat32:
  "c < 2 ^ 32 \<Longrightarrow> k < 2 ^ 32 \<Longrightarrow> unat (of_nat c - of_nat k :: u32) = (if k \<le> c then c - k else c + 2 ^ 32 - k)"
proof (cases "k \<le> c")
  case True
  assume "c < 2 ^ 32"
  hence "unat (of_nat (c - k) :: u32) = c - k" by (intro unat_of_nat32) simp
  with True show ?thesis by simp
next
  case False
  assume "c < 2 ^ 32" "k < 2 ^ 32"
  have "(of_nat (c + 2 ^ 32 - k) :: u32) = of_nat c - of_nat k"
    using \<open>k < 2 ^ 32\<close> by simp
  moreover have "unat (of_nat (c + 2 ^ 32 - k) :: u32) = c + 2 ^ 32 - k"
    using False \<open>c < 2 ^ 32\<close> by (intro unat_of_nat32) simp
  ultimately show ?thesis using False by simp
qed

lemma font_index_eq:
  assumes "c < 2 ^ 32"
  shows "font_index c =
    (if c < 127 then (if 32 \<le> c then c - 32 else c + 2 ^ 32 - 32)
     else if 0xAC00 \<le> c then c - 43843
     else if 12498 \<le> c then c - 12498 else c + 2 ^ 32 - 12498)"
proof -
  have lt: "(of_nat c :: u32) < 127 \<longleftrightarrow> c < 127" "(0xAC00 :: u32) \<le> of_nat c \<longleftrightarrow> 0xAC00 \<le> c"
    using assms by (simp_all add: word_less_nat_alt word_le_nat_alt unat_of_nat32)
  show ?thesis
    using minus_of_nat32 [OF assms, of 32] minus_of_nat32 [OF assms, of 43843] minus_of_nat32 [OF assms, of 12498]
    by (simp add: font_index_def LcdTouch_GetFontIndexOfUnicode_def font_index_defs lt)
qed

lemma font_index_supported:
  assumes "supported c"
  shows "font_index c < FONT_LENGTH" "font_code_point (font_index c) = c"
  using assms
  by (auto simp: supported_def font_index_eq FONT_LENGTH_def font_code_point_def font_index_defs)

subsection \<open>Properties\<close>

text \<open>
  C17. The table and the index function fit: for every printable ASCII character, Hangul letter and
  Hangul syllable, the index that \<open>LcdTouch_GetFontIndexOfUnicode\<close> computes is inside the table and
  the entry there carries exactly the bytes of that character's UTF-8 encoding.
\<close>

theorem FontIndex_hits:
  assumes "supported c"
  shows "\<exists>ch. c_read (ft_chars (Font G)) (unat (LcdTouch_GetFontIndexOfUnicode (of_nat c))) = Inr ch \<and>
    ch_code ch = packed (utf8_encode c)"
  using font_index_supported [OF assms]
  by (simp add: Font_read font_index_def [symmetric] Font_array_def)

theorem FontIndex_hits_witness:
  "supported 0xAC01 \<and> (\<exists>ch. c_read (ft_chars (Font (\<lambda>_. []))) (unat (LcdTouch_GetFontIndexOfUnicode (of_nat 0xAC01))) = Inr ch \<and>
    ch_code ch = packed (utf8_encode 0xAC01))"
  using FontIndex_hits [of "0xAC01" "\<lambda>_. []"] by (simp add: supported_def)

text \<open>
  Every other code is a mistake of the index function, of one of two kinds. The codes U+30D2
  to U+3130 and U+318F to U+5D32 fall inside the table, on the glyph of a different character. All
  others (control characters, DEL, the lead bytes the parser returns for two- and four-byte
  characters, Greek to Katakana, most Chinese characters, everything after the syllables) fall
  outside the table: reading the entry is an access out of bounds.
\<close>

lemma FontIndex_misses:
  assumes "c < 2 ^ 32" "\<not> supported c"
  shows "if 0x30D2 \<le> c \<and> c \<le> 0x5D32
    then font_index c < FONT_LENGTH \<and> font_code_point (font_index c) \<noteq> c
    else c_read (ft_chars (Font G)) (font_index c) = Inl Undef"
  using assms
  by (auto simp: Font_read supported_def font_index_eq FONT_LENGTH_def font_code_point_def font_index_defs)

end
