(* ===== verification/Lcd_Text.thy ===== *)
theory Lcd_Text
  imports Lcd_Draw Font_Table C_String
begin

text \<open>
  \<open>components/lcd_touch/lcd_touch.c\<close>, second part: expanding a glyph's bitmap to pixels
  (\<open>LcdTouch_GetFontImageData\<close>), drawing one character (\<open>LcdTouch_DrawText\<close>) and a string
  (\<open>LcdTouch_DrawString\<close>).
\<close>

subsection \<open>\<open>LcdTouch_GetFontImageData\<close>\<close>

definition put_pixel :: "u16 \<Rightarrow> nat \<Rightarrow> byte list \<Rightarrow> byte list run" where
  "put_pixel c buf_idx buf =
     bindR (c_write buf buf_idx (hi8 c)) (\<lambda>buf. c_write buf (buf_idx + 1) (lo8 c))"

text \<open>
  The loop over the bits of one byte of the bitmap; the first argument is \<open>j + 1\<close>. The state is
  \<open>width_idx\<close>, \<open>buf_idx\<close> and the buffer.
\<close>

primrec bit_loop ::
  "nat \<Rightarrow> tImage \<Rightarrow> u16 \<Rightarrow> u16 \<Rightarrow> nat \<Rightarrow> nat \<Rightarrow> nat \<Rightarrow> byte list \<Rightarrow> (nat \<times> nat \<times> byte list) run" where
  "bit_loop 0 im fg bg image_idx width_idx buf_idx buf = Inr (width_idx, buf_idx, buf)"
| "bit_loop (Suc j) im fg bg image_idx width_idx buf_idx buf =
     (if width_idx \<ge> unat (ti_width im) then Inr (0, buf_idx, buf)
      else bindR (c_read (ti_data im) image_idx) (\<lambda>b.
           bindR (put_pixel (if b AND push_bit j 1 = push_bit j 1 then fg else bg) buf_idx buf) (\<lambda>buf.
           bit_loop j im fg bg image_idx (width_idx + 1) (buf_idx + 2) buf)))"

text \<open>The loop over the bytes; running out of fuel would be a loop that never ends.\<close>

fun expand ::
  "nat \<Rightarrow> tImage \<Rightarrow> u16 \<Rightarrow> u16 \<Rightarrow> nat \<Rightarrow> nat \<Rightarrow> nat \<Rightarrow> nat \<Rightarrow> byte list \<Rightarrow> byte list run" where
  "expand 0 im fg bg len image_idx width_idx buf_idx buf = Inl Blocked"
| "expand (Suc fuel) im fg bg len image_idx width_idx buf_idx buf =
     (if buf_idx + 1 < len
      then bindR (bit_loop 8 im fg bg image_idx width_idx buf_idx buf) (\<lambda>(width_idx, buf_idx, buf).
           expand fuel im fg bg len (image_idx + 1) width_idx buf_idx buf)
      else Inr buf)"

definition LcdTouch_GetFontImageData ::
  "tFont \<Rightarrow> image_data \<Rightarrow> u32 \<Rightarrow> ('d, 'a) lcd_state_scheme \<Rightarrow> (image_data \<times> ('d, 'a) lcd_state_scheme) run" where
  "LcdTouch_GetFontImageData font im fontIndex st =
     bindR (c_read (ft_chars font) (unat fontIndex)) (\<lambda>ch.
       case ch_image ch of
         None \<Rightarrow> Inr (im, st)
       | Some img \<Rightarrow>
           let len = ucast (ti_width img) * ucast (ti_height img) * of_nat (LT_LCD_BIT_PER_PIXEL div 8) :: u32;
               im = im\<lparr>width_px := ti_width img, height_px := ti_height img, buf_len := len\<rparr>;
               (buf, w) = heap_calloc (unat len) (dev st);
               st = st\<lparr>dev := w\<rparr> in
           (case buf of
              None \<Rightarrow> Inr (im\<lparr>data_buf := None\<rparr>, st)
            | Some buf \<Rightarrow>
                bindR (expand (unat len + 1) img (im_color im) (s_backgroud_color st) (unat len) 0 0 0 buf) (\<lambda>buf.
                Inr (im\<lparr>data_buf := Some buf\<rparr>, st))))"

subsection \<open>\<open>LcdTouch_DrawText\<close> and \<open>LcdTouch_DrawString\<close>\<close>

record text_data =
  td_color :: u16
  td_start_x_pos :: u16
  td_start_y_pos :: u16
  td_fontIndex :: u32
  td_textWidth :: u32
  td_textHeight :: u32

definition LcdTouch_DrawText ::
  "tFont \<Rightarrow> 'd lcd_panel option \<Rightarrow> text_data \<Rightarrow> ('d, 'a) lcd_state_scheme \<Rightarrow>
    (text_data \<times> ('d, 'a) lcd_state_scheme) run" where
  "LcdTouch_DrawText font panel_handle td st =
     (let im = \<lparr>im_color = td_color td, data_buf = None, buf_len = 0, start_x_pos = td_start_x_pos td,
                start_y_pos = td_start_y_pos td, width_px = 0, height_px = 0\<rparr> in
      bindR (LcdTouch_GetFontImageData font im (td_fontIndex td) st) (\<lambda>(im, st).
      bindR (LcdToudh_DrawImageData panel_handle im st) (\<lambda>st.
      let td = td\<lparr>td_textWidth := ucast (width_px im), td_textHeight := ucast (height_px im)\<rparr>;
          st = (if data_buf im \<noteq> None then st\<lparr>dev := io_emit Free (dev st)\<rparr> else st) in
      Inr (td, st))))"

definition LT_WHITE :: u16 where "LT_WHITE = 0xFFFF"
definition LT_FONT_COLOR :: u16 where "LT_FONT_COLOR = LT_WHITE"
definition LT_X_SPACE_TEXT_PIXEL :: u32 where "LT_X_SPACE_TEXT_PIXEL = 1"
definition LT_Y_SPACE_TEXT_PIXEL :: u32 where "LT_Y_SPACE_TEXT_PIXEL = 5"
definition LT_HORIZONTAL_MARGIN :: u16 where "LT_HORIZONTAL_MARGIN = 20"

lemmas text_config_defs =
  LT_WHITE_def LT_FONT_COLOR_def LT_X_SPACE_TEXT_PIXEL_def LT_Y_SPACE_TEXT_PIXEL_def LT_HORIZONTAL_MARGIN_def

text \<open>The position after a character: to its right, or at the margin of the next line.\<close>

definition advance :: "text_data \<Rightarrow> text_data" where
  "advance td =
     (let td = td\<lparr>td_start_x_pos := td_start_x_pos td + ucast (td_textWidth td + LT_X_SPACE_TEXT_PIXEL)\<rparr> in
      if td_start_x_pos td \<ge> of_nat LT_LCD_H_RES - LT_HORIZONTAL_MARGIN
      then td\<lparr>td_start_x_pos := LT_HORIZONTAL_MARGIN,
              td_start_y_pos := ucast (ucast (td_start_y_pos td) + td_textHeight td + LT_Y_SPACE_TEXT_PIXEL)\<rparr>
      else td)"

text \<open>The parser consumes at least one byte, so the loop over the string ends.\<close>

lemma GetUnicode_progress:
  assumes "ParserChar_GetUnicode s = Inr (u, n)"
  shows "0 < unat n"
  using assms
  by (auto simp: ParserChar_GetUnicode_def bindR_eq_Inr_iff split: if_splits)

function draw_chars ::
  "tFont \<Rightarrow> byte list \<Rightarrow> nat \<Rightarrow> nat \<Rightarrow> text_data \<Rightarrow> ('d, 'a) lcd_state_scheme \<Rightarrow>
    ('d, 'a) lcd_state_scheme run" where
  "draw_chars font str str_len str_index td st =
     (if str_index < str_len
      then bindR (ParserChar_GetUnicode (drop str_index str)) (\<lambda>(unicode, out_len).
           bindR (LcdTouch_DrawText font (s_panelHandle st) (td\<lparr>td_fontIndex := LcdTouch_GetFontIndexOfUnicode unicode\<rparr>) st)
             (\<lambda>(td, st).
           draw_chars font str str_len (str_index + unat out_len) (advance td) st))
      else Inr st)"
  by pat_completeness auto
termination
  by (relation "measure (\<lambda>(_, _, n, i, _, _). n - i)")
    (auto dest: GetUnicode_progress)

declare draw_chars.simps [simp del]

definition LcdTouch_DrawString ::
  "tFont \<Rightarrow> byte list \<Rightarrow> u32 \<Rightarrow> u32 \<Rightarrow> ('d, 'a) lcd_state_scheme \<Rightarrow> ('d, 'a) lcd_state_scheme run" where
  "LcdTouch_DrawString font str x y st =
     (if \<not> isInitDisplay st then Inr st
      else bindR (c_strlen str) (\<lambda>str_len.
        let td = \<lparr>td_color = LT_FONT_COLOR, td_start_x_pos = ucast x, td_start_y_pos = ucast y, td_fontIndex = 0,
                  td_textWidth = 0, td_textHeight = 0\<rparr> in
        draw_chars font str str_len 0 td st))"

subsection \<open>Expanding a bitmap gives the picture of the glyph\<close>

text \<open>The bit of the bitmap for a pixel, and its colour.\<close>

definition glyph_bit :: "tImage \<Rightarrow> nat \<Rightarrow> nat \<Rightarrow> bool" where
  "glyph_bit im x y = bit (ti_data im ! (y * stride im + x div 8)) (7 - x mod 8)"

definition glyph_pixel :: "tImage \<Rightarrow> u16 \<Rightarrow> u16 \<Rightarrow> nat \<Rightarrow> nat \<Rightarrow> u16" where
  "glyph_pixel im fg bg x y = (if glyph_bit im x y then fg else bg)"

lemma and_single_bit: "j < 8 \<Longrightarrow> b AND push_bit j 1 = push_bit j 1 \<longleftrightarrow> bit (b :: byte) j"
proof
  assume j: "j < 8" and eq: "b AND push_bit j 1 = push_bit j 1"
  have "bit (push_bit j 1 :: byte) j" using j by (simp add: bit_simps)
  hence "bit (b AND push_bit j 1) j" using eq by simp
  thus "bit b j" by (simp add: bit_simps)
next
  assume "j < 8" "bit b j"
  thus "b AND push_bit j 1 = push_bit j 1"
    by (intro bit_word_eqI) (auto simp: bit_simps)
qed

lemmas and_power_bit = and_single_bit [simplified push_bit_of_1]

lemma put_pixel_ok:
  assumes "2 * q + 1 < length buf"
  shows "\<exists>buf'. put_pixel c (2 * q) buf = Inr buf' \<and> length buf' = length buf \<and> pixel_at buf' q = c \<and>
    (\<forall>k. k \<noteq> q \<longrightarrow> pixel_at buf' k = pixel_at buf k)"
proof -
  have "2 * k \<noteq> 2 * q + 1" "2 * k + 1 \<noteq> 2 * q" for k by presburger+
  thus ?thesis using assms by (auto simp: put_pixel_def pixel_at_def)
qed

lemma bit_loop_ok:
  assumes "a < length (ti_data im)" "n \<le> 8" "m = min n (unat (ti_width im) - v)" "2 * (q + m) \<le> length buf"
    and "v \<le> unat (ti_width im)"
  shows "\<exists>buf'. bit_loop n im fg bg a v (2 * q) buf =
      Inr (if unat (ti_width im) - v < n then 0 else v + n, 2 * (q + m), buf') \<and> length buf' = length buf \<and>
    (\<forall>k<q. pixel_at buf' k = pixel_at buf k) \<and>
    (\<forall>k<m. pixel_at buf' (q + k) = (if bit (ti_data im ! a) (n - 1 - k) then fg else bg))"
  using assms
proof (induction n arbitrary: v q buf m)
  case 0
  thus ?case by simp
next
  case (Suc j)
  show ?case
  proof (cases "unat (ti_width im) \<le> v")
    case True
    thus ?thesis using Suc.prems by simp
  next
    case False
    let ?c = "if bit (ti_data im ! a) j then fg else bg"
    have m: "m = Suc (min j (unat (ti_width im) - Suc v))" using False Suc.prems(3) by simp
    obtain b1 where b1: "put_pixel ?c (2 * q) buf = Inr b1" "length b1 = length buf" "pixel_at b1 q = ?c"
      "\<forall>k. k \<noteq> q \<longrightarrow> pixel_at b1 k = pixel_at buf k"
      using put_pixel_ok [of q buf ?c] Suc.prems(4) m by auto
    obtain b2 where b2: "bit_loop j im fg bg a (Suc v) (2 * Suc q) b1 =
        Inr (if unat (ti_width im) - Suc v < j then 0 else Suc v + j, 2 * (q + m), b2)" "length b2 = length buf"
      "\<forall>k<Suc q. pixel_at b2 k = pixel_at b1 k"
      "\<forall>k<m - 1. pixel_at b2 (Suc q + k) = (if bit (ti_data im ! a) (j - 1 - k) then fg else bg)"
      using Suc.IH [of "m - 1" "Suc v" "Suc q" b1] Suc.prems(1,2,4) False m b1(2) by auto
    have step: "bit_loop (Suc j) im fg bg a v (2 * q) buf = bit_loop j im fg bg a (Suc v) (2 * Suc q) b1"
      using False Suc.prems(1,2) b1(1) by (simp add: and_power_bit)
    have "pixel_at b2 (q + k) = (if bit (ti_data im ! a) (Suc j - 1 - k) then fg else bg)" if "k < m" for k
      using that b2(3,4) b1(3) by (cases k) auto
    moreover have "\<forall>k<q. pixel_at b2 k = pixel_at buf k" using b2(3) b1(4) by simp
    moreover have "unat (ti_width im) - Suc v < j \<longleftrightarrow> unat (ti_width im) - v < Suc j" using False by auto
    ultimately show ?thesis using step b2(1,2) by auto
  qed
qed

text \<open>
  The outer loop, from byte \<open>c\<close> of row \<open>r\<close> on, when the width is not a multiple of 8: then the last
  byte of a row is the one whose bits run out.
\<close>

definition painted :: "tImage \<Rightarrow> u16 \<Rightarrow> u16 \<Rightarrow> byte list \<Rightarrow> nat \<Rightarrow> bool" where
  "painted im fg bg buf n \<longleftrightarrow> (let w = unat (ti_width im) in
     \<forall>k<n. pixel_at buf k = glyph_pixel im fg bg (k mod w) (k div w))"

lemma painted_add:
  assumes "painted im fg bg buf n" "\<forall>k<n. pixel_at buf' k = pixel_at buf k"
    and "\<forall>k<m. pixel_at buf' (n + k) = glyph_pixel im fg bg ((n + k) mod unat (ti_width im)) ((n + k) div unat (ti_width im))"
  shows "painted im fg bg buf' (n + m)"
  unfolding painted_def Let_def
proof (intro allI impI)
  fix k assume "k < n + m"
  thus "pixel_at buf' k = glyph_pixel im fg bg (k mod unat (ti_width im)) (k div unat (ti_width im))"
    using assms by (cases "k < n") (auto simp: painted_def Let_def dest: spec [of _ "k - n"])
qed

lemma glyph_row_byte:
  assumes "8 * c + k < w" "k < 8" "w = unat (ti_width im)"
  shows "glyph_pixel im fg bg ((r * w + 8 * c + k) mod w) ((r * w + 8 * c + k) div w) =
    (if bit (ti_data im ! (r * stride im + c)) (7 - k) then fg else bg)"
proof -
  have "(r * w + (8 * c + k)) mod w = 8 * c + k" "(r * w + (8 * c + k)) div w = r"
    using assms(1) by simp_all
  moreover have "(8 * c + k) div 8 = c" "(8 * c + k) mod 8 = k" using assms(2) by simp_all
  ultimately show ?thesis by (simp add: glyph_pixel_def glyph_bit_def add.assoc)
qed

text \<open>One byte of a row: it paints the pixels of the row it holds.\<close>

lemma expand_byte:
  assumes "unat (ti_width im) = w" "8 * c < w" "r < h" "length buf = 2 * (w * h)"
    and "length (ti_data im) = stride im * h" "painted im fg bg buf (r * w + 8 * c)"
  shows "\<exists>buf'. expand (Suc fuel) im fg bg (2 * (w * h)) (r * stride im + c) (8 * c) (2 * (r * w + 8 * c)) buf =
      expand fuel im fg bg (2 * (w * h)) (r * stride im + c + 1) (if w - 8 * c < 8 then 0 else 8 * c + 8)
        (2 * (r * w + 8 * c + min 8 (w - 8 * c))) buf' \<and>
    length buf' = length buf \<and> painted im fg bg buf' (r * w + 8 * c + min 8 (w - 8 * c))"
proof -
  let ?q = "r * w + 8 * c"
  let ?m = "min 8 (w - 8 * c)"
  have row: "Suc r * w \<le> h * w" using assms(3) by (intro mult_right_mono) simp_all
  have srow: "Suc r * stride im \<le> h * stride im" using assms(3) by (intro mult_right_mono) simp_all
  have stride: "c < stride im" using assms(1,2) by (auto simp: stride_def)
  have data: "r * stride im + c < length (ti_data im)"
    using srow stride assms(5) by (simp add: mult.commute)
  have space: "2 * (?q + ?m) \<le> length buf" using row assms(2,4) by (simp add: mult.commute)
  obtain buf' where b: "bit_loop 8 im fg bg (r * stride im + c) (8 * c) (2 * ?q) buf =
      Inr (if w - 8 * c < 8 then 0 else 8 * c + 8, 2 * (?q + ?m), buf')" "length buf' = length buf"
    "\<forall>k<?q. pixel_at buf' k = pixel_at buf k"
    "\<forall>k<?m. pixel_at buf' (?q + k) = (if bit (ti_data im ! (r * stride im + c)) (7 - k) then fg else bg)"
    using bit_loop_ok [OF data order.refl, of ?m "8 * c" ?q buf fg bg] assms(1,2) space by auto
  have painted: "painted im fg bg buf' (?q + ?m)"
  proof (rule painted_add [OF assms(6) b(3)], intro allI impI)
    fix k assume k: "k < ?m"
    hence "8 * c + k < w" "k < 8" using assms(2) by auto
    note px = glyph_row_byte [OF this assms(1) [symmetric], of fg bg r]
    show "pixel_at buf' (?q + k) =
        glyph_pixel im fg bg ((?q + k) mod unat (ti_width im)) ((?q + k) div unat (ti_width im))"
      unfolding assms(1) px using b(4) k by blast
  qed
  have enter: "2 * ?q + 1 < 2 * (w * h)" using row assms(2) by (simp add: mult.commute)
  have step: "expand (Suc fuel) im fg bg (2 * (w * h)) (r * stride im + c) (8 * c) (2 * ?q) buf =
      expand fuel im fg bg (2 * (w * h)) (r * stride im + c + 1) (if w - 8 * c < 8 then 0 else 8 * c + 8) (2 * (?q + ?m)) buf'"
    using enter b(1) by simp
  from step b(2) painted show ?thesis by blast
qed

lemma expand_row_byte:
  assumes "unat (ti_width im) = w" "8 * c < w" "w mod 8 \<noteq> 0" "r < h" "length buf = 2 * (w * h)"
    and "length (ti_data im) = stride im * h" "painted im fg bg buf (r * w + 8 * c)"
  shows "\<exists>buf' r' c'. expand (Suc fuel) im fg bg (2 * (w * h)) (r * stride im + c) (8 * c) (2 * (r * w + 8 * c)) buf =
      expand fuel im fg bg (2 * (w * h)) (r' * stride im + c') (8 * c') (2 * (r' * w + 8 * c')) buf' \<and>
    length buf' = 2 * (w * h) \<and> painted im fg bg buf' (r' * w + 8 * c') \<and> r' \<le> h \<and> 8 * c' < w \<and>
    (r' = h \<longrightarrow> c' = 0) \<and> r' * stride im + c' = Suc (r * stride im + c)"
proof -
  let ?q = "r * w + 8 * c"
  let ?m = "min 8 (w - 8 * c)"
  have stride: "8 * stride im \<ge> w" "8 * (stride im - 1) < w" "c < stride im"
    using assms(1-3) by (auto simp: stride_def)
  obtain buf' where step: "expand (Suc fuel) im fg bg (2 * (w * h)) (r * stride im + c) (8 * c) (2 * ?q) buf =
      expand fuel im fg bg (2 * (w * h)) (r * stride im + c + 1) (if w - 8 * c < 8 then 0 else 8 * c + 8) (2 * (?q + ?m)) buf'"
    and len: "length buf' = length buf" and painted: "painted im fg bg buf' (?q + ?m)"
    using expand_byte [OF assms(1,2,4-7)] by blast
  show ?thesis
  proof (cases "w - 8 * c < 8")
    case True
    hence "c = stride im - 1" using stride assms(2) by linarith
    hence "Suc r * stride im + 0 = Suc (r * stride im + c)" using stride(3) by simp
    moreover have "?q + ?m = Suc r * w + 8 * 0" "0 < w" using True assms(2) by simp_all
    ultimately show ?thesis
      using step painted len assms(2,4,5) True
      by - (rule exI [of _ buf'], rule exI [of _ "Suc r"], rule exI [of _ 0], simp add: ac_simps del: expand.simps)
  next
    case False
    have "8 * Suc c \<noteq> w" using assms(3) by auto
    hence "8 * Suc c < w" using False by simp
    moreover have "?q + ?m = r * w + 8 * Suc c" using False by simp
    ultimately show ?thesis
      using step painted len assms(4,5) False
      by - (rule exI [of _ buf'], rule exI [of _ r], rule exI [of _ "Suc c"], simp add: ac_simps del: expand.simps)
  qed
qed

lemma expand_ok:
  assumes "unat (ti_width im) = w" "w mod 8 \<noteq> 0" "length (ti_data im) = stride im * h"
    and "length buf = 2 * (w * h)" "painted im fg bg buf (r * w + 8 * c)" "8 * c < w" "r \<le> h" "r = h \<longrightarrow> c = 0"
    and "stride im * h - (r * stride im + c) < fuel"
  shows "\<exists>buf'. expand fuel im fg bg (2 * (w * h)) (r * stride im + c) (8 * c) (2 * (r * w + 8 * c)) buf = Inr buf' \<and>
    length buf' = 2 * (w * h) \<and> painted im fg bg buf' (w * h)"
  using assms(4-)
proof (induction fuel arbitrary: r c buf)
  case 0
  thus ?case by simp
next
  case (Suc fuel)
  show ?case
  proof (cases "r = h")
    case True
    thus ?thesis using Suc.prems by (auto simp: mult.commute)
  next
    case False
    hence r: "r < h" using Suc.prems(4) by simp
    obtain buf' r' c' where one:
      "expand (Suc fuel) im fg bg (2 * (w * h)) (r * stride im + c) (8 * c) (2 * (r * w + 8 * c)) buf =
        expand fuel im fg bg (2 * (w * h)) (r' * stride im + c') (8 * c') (2 * (r' * w + 8 * c')) buf'"
      "length buf' = 2 * (w * h)" "painted im fg bg buf' (r' * w + 8 * c')" "r' \<le> h" "8 * c' < w"
      "r' = h \<longrightarrow> c' = 0" "r' * stride im + c' = Suc (r * stride im + c)"
      using expand_row_byte [OF assms(1) Suc.prems(3) assms(2) r Suc.prems(1) assms(3) Suc.prems(2), of fuel]
      by blast
    have "Suc r * stride im \<le> h * stride im" using r by (intro mult_right_mono) simp_all
    moreover have "c < stride im" using Suc.prems(3) assms(1) by (simp add: stride_def)
    ultimately have "stride im * h - (r' * stride im + c') < fuel"
      using Suc.prems(6) unfolding one(7) by (simp add: mult.commute)
    thus ?thesis using Suc.IH [OF one(2,3,5,4,6)] one(1) by simp
  qed
qed

subsection \<open>Drawing one character\<close>

definition draw_glyph :: "tImage \<Rightarrow> u16 \<Rightarrow> u16 \<Rightarrow> nat \<Rightarrow> nat \<Rightarrow> frame \<Rightarrow> frame" where
  "draw_glyph im fg bg xs ys f = (\<lambda>x y.
     if xs \<le> x \<and> x < xs + unat (ti_width im) \<and> ys \<le> y \<and> y < ys + unat (ti_height im)
     then glyph_pixel im fg bg (x - xs) (y - ys) else f x y)"

definition glyph_ok :: "tImage \<Rightarrow> bool" where
  "glyph_ok im \<longleftrightarrow> image_ok im \<and> unat (ti_width im) mod 8 \<noteq> 0"

lemma blit_painted:
  assumes "painted im fg bg buf (unat (ti_width im) * unat (ti_height im))"
  shows "blit xs ys (xs + unat (ti_width im)) (ys + unat (ti_height im)) buf f = draw_glyph im fg bg xs ys f"
proof (intro ext)
  fix x y
  let ?w = "unat (ti_width im)"
  show "blit xs ys (xs + ?w) (ys + unat (ti_height im)) buf f x y = draw_glyph im fg bg xs ys f x y"
  proof (cases "xs \<le> x \<and> x < xs + ?w \<and> ys \<le> y \<and> y < ys + unat (ti_height im)")
    case True
    then obtain d e where "x = xs + d" "d < ?w" "y = ys + e" "e < unat (ti_height im)"
      by (metis le_Suc_ex nat_add_left_cancel_less)
    moreover from this have "e * ?w + d < ?w * unat (ti_height im)"
      using window_index [of 0 d ?w 0 e] by simp
    ultimately show ?thesis
      using assms by (simp add: blit_def draw_glyph_def painted_def Let_def)
  qed (auto simp: blit_def draw_glyph_def)
qed

lemma image_len:
  assumes "image_ok im"
  shows "unat (ucast (ti_width im) * ucast (ti_height im) * of_nat (LT_LCD_BIT_PER_PIXEL div 8) :: u32) =
    2 * (unat (ti_width im) * unat (ti_height im))"
proof -
  have h: "unat (ti_height im) = 20" and w: "unat (ti_width im) \<le> 20" using assms by (simp_all add: image_ok_def)
  have "(ucast (ti_width im) * ucast (ti_height im) * of_nat (LT_LCD_BIT_PER_PIXEL div 8) :: u32) =
      of_nat (unat (ti_width im) * unat (ti_height im) * 2)"
    by (simp add: LT_LCD_BIT_PER_PIXEL_def unsigned_ucast_eq)
  also have "unat \<dots> = unat (ti_width im) * unat (ti_height im) * 2"
    using w by (intro unat_of_nat32) (simp add: h)
  finally show ?thesis by simp
qed

lemma GetFontImageData_ok:
  assumes "c_read (ft_chars font) (unat idx) = Inr ch" "ch_image ch = Some img" "glyph_ok img" "all_ok (dev st)"
  defines "n \<equiv> 2 * (unat (ti_width img) * unat (ti_height img))"
  shows "\<exists>im' buf. LcdTouch_GetFontImageData font im idx st = Inr (im', st\<lparr>dev := io_emit (Calloc n True) (dev st)\<rparr>) \<and>
    data_buf im' = Some buf \<and> length buf = n \<and> start_x_pos im' = start_x_pos im \<and> start_y_pos im' = start_y_pos im \<and>
    width_px im' = ti_width img \<and> height_px im' = ti_height img \<and>
    painted img (im_color im) (s_backgroud_color st) buf (unat (ti_width img) * unat (ti_height img))"
proof -
  let ?w = "unat (ti_width img)" and ?h = "unat (ti_height img)"
  have img: "image_ok img" "?w mod 8 \<noteq> 0" "length (ti_data img) = stride img * ?h" "0 < ?w" "0 < ?h"
    using assms(3) by (simp_all add: glyph_ok_def image_ok_def)
  have "stride img \<le> ?w" using img(4) by (simp add: stride_def)
  hence "stride img * ?h \<le> ?w * ?h" by (intro mult_right_mono) simp_all
  hence fuel: "stride img * ?h < n + 1" unfolding n_def by linarith
  obtain buf where buf: "expand (n + 1) img (im_color im) (s_backgroud_color st) n 0 0 0 (replicate n 0) = Inr buf"
    "length buf = n" "painted img (im_color im) (s_backgroud_color st) buf (?w * ?h)"
    using expand_ok [of img ?w ?h "replicate n 0" "im_color im" "s_backgroud_color st" 0 0 "n + 1"] img fuel
    by (auto simp: n_def painted_def)
  show ?thesis
    using assms(1,2,4) buf image_len [OF img(1), folded n_def]
    by (simp add: LcdTouch_GetFontImageData_def heap_calloc_def all_ok_answers del: expand.simps)
qed

context panel_device begin

lemma draw_text_ok:
  assumes "ready (dev st)" "all_ok (dev st)" "pn_draw_bitmap p = draw"
    and "c_read (ft_chars font) (unat (td_fontIndex td)) = Inr ch" "ch_image ch = Some img" "glyph_ok img"
    and "xs = unat (td_start_x_pos td)" "ys = unat (td_start_y_pos td)" "xs + 20 \<le> 65536" "ys + 20 \<le> 65536"
  shows "\<exists>w'. LcdTouch_DrawText font (Some p) td st =
      Inr (td\<lparr>td_textWidth := ucast (ti_width img), td_textHeight := ucast (ti_height img)\<rparr>,
           st\<lparr>dev := w', refresh_finish := SemDeleted\<rparr>) \<and>
    draws_to (draw_glyph img (td_color td) (s_backgroud_color st) xs ys (frame (dev st))) (dev st) w' \<and> ready w'"
proof -
  let ?w = "unat (ti_width img)" and ?h = "unat (ti_height img)"
  define im where "im = \<lparr>im_color = td_color td, data_buf = None, buf_len = 0, start_x_pos = td_start_x_pos td,
                start_y_pos = td_start_y_pos td, width_px = 0, height_px = 0\<rparr>"
  define w0 where "w0 = io_emit (Calloc (2 * (?w * ?h)) True) (dev st)"
  obtain im' buf where im': "LcdTouch_GetFontImageData font im (td_fontIndex td) st = Inr (im', st\<lparr>dev := w0\<rparr>)"
    "data_buf im' = Some buf" "length buf = 2 * (?w * ?h)" "start_x_pos im' = td_start_x_pos td"
    "start_y_pos im' = td_start_y_pos td" "width_px im' = ti_width img" "height_px im' = ti_height img"
    "painted img (td_color td) (s_backgroud_color st) buf (?w * ?h)"
    using GetFontImageData_ok [OF assms(4,5,6,2), of im] by (auto simp: im_def w0_def)
  have size: "0 < ?w" "?w \<le> 20" "?h = 20" using assms(6) by (simp_all add: glyph_ok_def image_ok_def)
  have w0: "ready w0" "all_ok w0" "frame w0 = frame (dev st)" "chip_mode w0 = chip_mode (dev st)"
    "held w0 = (fst (held (dev st)) + 1, snd (held (dev st)))"
    using assms(1,2) by (simp_all add: w0_def ready_emit)
  obtain w1 where w1: "LcdToudh_DrawImageData (Some p) im' (st\<lparr>dev := w0\<rparr>) =
      Inr (st\<lparr>dev := w0, dev := w1, refresh_finish := SemDeleted\<rparr>)"
    "draws_to (blit xs ys (xs + ?w) (ys + ?h) buf (frame w0)) w0 w1" "ready w1"
    using draw_image_ok [of "st\<lparr>dev := w0\<rparr>" p im' buf xs ys ?w ?h] im' size w0(1,2) assms(3,7-10) by auto
  let ?d = "io_emit Free w1"
  have "LcdTouch_DrawText font (Some p) td st =
      Inr (td\<lparr>td_textWidth := ucast (ti_width img), td_textHeight := ucast (ti_height img)\<rparr>,
           st\<lparr>dev := ?d, refresh_finish := SemDeleted\<rparr>)"
    unfolding LcdTouch_DrawText_def Let_def im_def [symmetric]
    using im'(1,2,6,7) w1(1) by (cases st) simp
  moreover have "draws_to (draw_glyph img (td_color td) (s_backgroud_color st) xs ys (frame (dev st))) (dev st) ?d"
    using w1(2) w0 blit_painted [OF im'(8)] by (simp add: draws_to_def)
  moreover have "ready ?d" using w1(3) by (simp add: ready_emit)
  ultimately show ?thesis by blast
qed

end

subsection \<open>Glyphs of width 8 are read past their end\<close>

text \<open>
  When the width is a multiple of 8, the end of a row is only noticed at the next byte, which is
  then skipped: every other row is used, and the bitmap ends before the picture does.
\<close>

lemma bit_loop_8:
  "v < unat (ti_width im) \<Longrightarrow> length (ti_data im) \<le> a \<Longrightarrow> bit_loop 8 im fg bg a v q buf = Inl Undef"
  "unat (ti_width im) \<le> v \<Longrightarrow> bit_loop 8 im fg bg a v q buf = Inr (0, q, buf)"
  using bit_loop.simps(2) [of 7 im fg bg a v q buf] by simp_all

lemma expand_width_8:
  assumes "unat (ti_width im) = 8" "length (ti_data im) = h" "2 \<le> h" "length buf = 2 * (8 * h)" "2 * r < h + 2"
    and "2 * (h - r) < fuel"
  shows "expand fuel im fg bg (2 * (8 * h)) (2 * r) 0 (2 * (8 * r)) buf = Inl Undef"
  using assms(4-)
proof (induction "h - r" arbitrary: r fuel buf rule: less_induct)
  case less
  have r: "r < h" using less.prems(2) assms(3) by simp
  hence "fuel > 2" using less.prems(3) by simp
  then obtain fuel' where fuel: "fuel = Suc (Suc fuel')" by (metis less_imp_Suc_add add_2_eq_Suc)
  show ?case
  proof (cases "2 * r < h")
    case False
    thus ?thesis using r assms(1,2) by (simp add: fuel bit_loop_8(1))
  next
    case True
    have "r + 1 < h" using True assms(3) by simp
    obtain buf' where b: "bit_loop 8 im fg bg (2 * r) 0 (2 * (8 * r)) buf = Inr (8, 2 * (8 * Suc r), buf')"
      "length buf' = length buf"
      using bit_loop_ok [of "2 * r" im 8 8 0 "8 * r" buf fg bg] assms(1,2) True r less.prems(1) by auto
    have skip: "bit_loop 8 im fg bg (Suc (2 * r)) 8 (2 * (8 * Suc r)) buf' = Inr (0, 2 * (8 * Suc r), buf')"
      using assms(1) by (simp add: bit_loop_8(2))
    have "expand fuel im fg bg (2 * (8 * h)) (2 * r) 0 (2 * (8 * r)) buf =
        expand fuel' im fg bg (2 * (8 * h)) (2 * Suc r) 0 (2 * (8 * Suc r)) buf'"
      using b(1) skip r \<open>r + 1 < h\<close> by (simp add: fuel)
    also have "\<dots> = Inl Undef"
      using less.hyps [of "Suc r" buf' fuel'] less.prems True b(2) \<open>r + 1 < h\<close> fuel by simp
    finally show ?thesis .
  qed
qed

lemma GetFontImageData_width_8:
  assumes "c_read (ft_chars font) (unat idx) = Inr ch" "ch_image ch = Some img" "image_ok img" "unat (ti_width img) = 8"
    and "all_ok (dev st)"
  shows "LcdTouch_GetFontImageData font im idx st = Inl Undef"
proof -
  have h: "unat (ti_height img) = 20" "length (ti_data img) = 20"
    using assms(3,4) by (simp_all add: image_ok_def stride_def)
  have "expand (2 * (8 * 20) + 1) img (im_color im) (s_backgroud_color st) (2 * (8 * 20)) (2 * 0) 0 (2 * (8 * 0)) (replicate (2 * (8 * 20)) 0) = Inl Undef"
    using h by (intro expand_width_8) (simp_all add: assms(4))
  thus ?thesis
    using assms(1,2,5) image_len [OF assms(3)] h assms(4)
    by (simp add: LcdTouch_GetFontImageData_def heap_calloc_def all_ok_answers del: expand.simps)
qed

subsection \<open>Reference: where the characters of a text go\<close>

definition glyph :: "bitmaps \<Rightarrow> nat \<Rightarrow> tImage" where
  "glyph G c = the (ch_image (Font_array G (font_index c)))"

text \<open>The quotation mark and the letter J have glyphs whose width is a multiple of 8.\<close>

definition drawable :: "nat \<Rightarrow> bool" where
  "drawable c \<longleftrightarrow> supported c \<and> c \<noteq> 0x22 \<and> c \<noteq> 0x4A"

definition next_pos :: "tImage \<Rightarrow> nat \<times> nat \<Rightarrow> nat \<times> nat" where
  "next_pos im p = (let x = fst p + unat (ti_width im) + 1 in
     if 300 \<le> x then (20, snd p + unat (ti_height im) + 5) else (x, snd p))"

primrec layout :: "bitmaps \<Rightarrow> nat list \<Rightarrow> nat \<times> nat \<Rightarrow> (nat \<times> nat \<times> nat) list" where
  "layout G [] p = []"
| "layout G (c # cs) p = (c, p) # layout G cs (next_pos (glyph G c) p)"

definition text_frame :: "bitmaps \<Rightarrow> u16 \<Rightarrow> u16 \<Rightarrow> nat list \<Rightarrow> nat \<times> nat \<Rightarrow> frame \<Rightarrow> frame" where
  "text_frame G fg bg cs p f = fold (\<lambda>(c, x, y). draw_glyph (glyph G c) fg bg x y) (layout G cs p) f"

lemma text_frame_simps [simp]:
  "text_frame G fg bg [] p f = f"
  "text_frame G fg bg (c # cs) p f =
     text_frame G fg bg cs (next_pos (glyph G c) p) (draw_glyph (glyph G c) fg bg (fst p) (snd p) f)"
  by (simp_all add: text_frame_def case_prod_unfold)

lemma ascii_widths:
  "list_all (\<lambda>(i, im). i = 2 \<or> i = 42 \<or> unat (ti_width im) mod 8 \<noteq> 0) (zip [0..<95] ascii_images)"
  by code_simp

lemma glyph_eq:
  "glyph G c = (if font_index c < 95 then ascii_images ! font_index c
     else if font_index c < 189 then letter_images ! (font_index c - 95) else tImage_make 20 20 8 (G (font_index c)))"
  by (simp add: glyph_def Font_array_def LT_CONSONANTS_VOWELS_INDEX_IN_FONT_def LT_COMPLETE_TYPE_TEXT_INDEX_IN_FONT_def)

lemma glyph_image_ok:
  assumes "bitmaps_ok G"
  shows "image_ok (glyph G c)" "ch_image (Font_array G (font_index c)) = Some (glyph G c)"
proof -
  obtain im where "ch_image (Font_array G (font_index c)) = Some im" "image_ok im"
    by (rule Font_array_image [OF assms])
  thus "image_ok (glyph G c)" "ch_image (Font_array G (font_index c)) = Some (glyph G c)"
    by (simp_all add: glyph_def)
qed

lemma glyph_size:
  assumes "bitmaps_ok G"
  shows "0 < unat (ti_width (glyph G c))" "unat (ti_width (glyph G c)) \<le> 20" "unat (ti_height (glyph G c)) = 20"
  using glyph_image_ok(1) [OF assms] by (simp_all add: image_ok_def)

lemma drawable_glyph_ok:
  assumes "bitmaps_ok G" "drawable c"
  shows "glyph_ok (glyph G c)"
proof -
  have "unat (ti_width (glyph G c)) mod 8 \<noteq> 0"
  proof (cases "font_index c < 95")
    case True
    hence "font_index c \<noteq> 2" "font_index c \<noteq> 42"
      using assms(2) by (auto simp: drawable_def supported_def font_index_eq)
    thus ?thesis
      using True ascii_widths by (auto simp: glyph_eq list_all_length length_ascii_images)
  next
    case False
    thus ?thesis
      using letter_image_whole [of "font_index c - 95"]
      by (cases "font_index c < 189") (simp_all add: glyph_eq tImage_make_def whole_glyph_def)
  qed
  thus ?thesis using glyph_image_ok(1) [OF assms(1)] by (simp add: glyph_ok_def)
qed

lemma ucast_of_nat_32_16: "(ucast (of_nat n :: u32) :: u16) = of_nat n"
  by (simp add: unsigned_of_nat word_of_nat_eq_iff)

lemma unat_of_nat16: "n < 65536 \<Longrightarrow> unat (of_nat n :: u16) = n"
  by (simp add: unsigned_of_nat take_bit_nat_eq_self)

lemma ucast_of_nat_16_32: "n < 65536 \<Longrightarrow> (ucast (of_nat n :: u16) :: u32) = of_nat n"
  by (simp add: unsigned_of_nat take_bit_nat_eq_self)

lemma advance_pos:
  assumes "unat (td_start_x_pos td) = x" "unat (td_start_y_pos td) = y" "x \<le> 65000" "y \<le> 65000"
    and "td_textWidth td = ucast (ti_width im)" "td_textHeight td = ucast (ti_height im)"
    and "unat (ti_width im) \<le> 20" "unat (ti_height im) = 20"
  shows "unat (td_start_x_pos (advance td)) = fst (next_pos im (x, y))"
    and "unat (td_start_y_pos (advance td)) = snd (next_pos im (x, y))"
    and "td_color (advance td) = td_color td"
proof -
  let ?w = "unat (ti_width im)"
  define n where "n = x + ?w + 1"
  define m where "m = y + 25"
  have t: "td_textWidth td = of_nat ?w" "td_textHeight td = of_nat 20"
    unfolding assms(5,6) assms(8) [symmetric] by simp_all
  have p: "td_start_x_pos td = of_nat x" "td_start_y_pos td = of_nat y"
    unfolding assms(1,2) [symmetric] by simp_all
  have "(of_nat ?w + LT_X_SPACE_TEXT_PIXEL :: u32) = of_nat (?w + 1)" by (simp add: text_config_defs)
  hence x: "td_start_x_pos td + ucast (td_textWidth td + LT_X_SPACE_TEXT_PIXEL) = of_nat n"
    unfolding t p n_def by (simp only: ucast_of_nat_32_16) simp
  have "(of_nat y + of_nat 20 + LT_Y_SPACE_TEXT_PIXEL :: u32) = of_nat (y + 25)" by (simp add: text_config_defs)
  hence y: "ucast (ucast (td_start_y_pos td) + td_textHeight td + LT_Y_SPACE_TEXT_PIXEL) = (of_nat m :: u16)"
    unfolding t p m_def using assms(4) ucast_of_nat_16_32 [of y] by (simp only: ucast_of_nat_32_16)
  have small: "n < 65536" "m < 65536" using assms(3,4,7) by (simp_all add: n_def m_def)
  have wrap: "of_nat LT_LCD_H_RES - LT_HORIZONTAL_MARGIN \<le> (of_nat n :: u16) \<longleftrightarrow> 300 \<le> n"
    using small(1) by (simp add: LT_LCD_H_RES_def text_config_defs word_le_nat_alt unat_of_nat16)
  have np: "next_pos im (x, y) = (if 300 \<le> n then (20, m) else (n, y))"
    using assms(8) by (simp add: next_pos_def n_def m_def)
  have margin: "unat LT_HORIZONTAL_MARGIN = 20" by (simp add: text_config_defs)
  show "unat (td_start_x_pos (advance td)) = fst (next_pos im (x, y))"
    "unat (td_start_y_pos (advance td)) = snd (next_pos im (x, y))"
    "td_color (advance td) = td_color td"
    unfolding advance_def Let_def np using small assms(2) margin
    by (simp_all add: x y wrap unat_of_nat16)
qed

subsection \<open>Characters that cannot be drawn\<close>

text \<open>Those whose index is outside the table, and the two whose glyph has width 8.\<close>

definition undrawable :: "nat \<Rightarrow> bool" where
  "undrawable c \<longleftrightarrow> c < 2 ^ 32 \<and> FONT_LENGTH \<le> font_index c \<or> c = 0x22 \<or> c = 0x4A"

lemma wide_glyphs: "unat (ti_width (glyph G 0x22)) = 8" "unat (ti_width (glyph G 0x4A)) = 8"
proof -
  have "font_index 0x22 = 2" "font_index 0x4A = 42" by (simp_all add: font_index_eq)
  thus "unat (ti_width (glyph G 0x22)) = 8" "unat (ti_width (glyph G 0x4A)) = 8"
    by (simp_all add: glyph_eq ascii_images_def Font_0x22_def Font_0x4a_def tImage_make_def)
qed

lemma draw_text_undrawable:
  assumes "bitmaps_ok G" "undrawable c" "all_ok (dev st)" "td_fontIndex td = LcdTouch_GetFontIndexOfUnicode (of_nat c)"
  shows "LcdTouch_DrawText (Font G) h td st = Inl Undef"
proof -
  have idx: "unat (td_fontIndex td) = font_index c" using assms(4) by (simp add: font_index_def)
  have "LcdTouch_GetFontImageData (Font G) im (td_fontIndex td) st = Inl Undef" for im
  proof (cases "FONT_LENGTH \<le> font_index c")
    case True
    thus ?thesis by (simp add: LcdTouch_GetFontImageData_def idx Font_read)
  next
    case False
    hence "unat (ti_width (glyph G c)) = 8" using assms(2) wide_glyphs by (auto simp: undrawable_def)
    thus ?thesis
      using False GetFontImageData_width_8 [of "Font G" "td_fontIndex td" "Font_array G (font_index c)" "glyph G c" st im]
        glyph_image_ok [OF assms(1), of c] assms(3) idx
      by (simp add: Font_read)
  qed
  thus ?thesis by (simp add: LcdTouch_DrawText_def Let_def)
qed

subsection \<open>Drawing a string\<close>

lemma next_pos_bounds:
  assumes "bitmaps_ok G" "x \<le> 65000" "next_pos (glyph G c) (x, y) = (x', y')"
  shows "x' < 300" "y \<le> y'" "y' \<le> y + 25"
  using assms(3) glyph_size [OF assms(1), of c]
  by (auto simp: next_pos_def Let_def split: if_splits)

definition encode :: "nat list \<Rightarrow> byte list" where
  "encode cs = concat (map utf8_encode cs)"

lemma encode_simps [simp]: "encode [] = []" "encode (c # cs) = utf8_encode c @ encode cs"
  by (simp_all add: encode_def)

lemma supported_utf8:
  assumes "supported c"
  shows "ParserChar_GetUnicode (utf8_encode c @ rest) = Inr (of_nat c, of_nat (length (utf8_encode c)))"
    and "0 \<notin> set (utf8_encode c)" and "0 < length (utf8_encode c)" "length (utf8_encode c) < 256"
proof -
  show "ParserChar_GetUnicode (utf8_encode c @ rest) = Inr (of_nat c, of_nat (length (utf8_encode c)))"
    using assms by (intro parse_utf8) (auto simp: parser_code_def supported_def)
  show "0 < length (utf8_encode c)" "length (utf8_encode c) < 256" by (auto simp: utf8_encode_def)
  have nz: "(of_nat n :: byte) \<noteq> 0" if "0 < n" "n < 256" for n
    using that by (simp add: word_of_nat_eq_0_iff) presburger
  have "c < 0x10000" using assms by (auto simp: supported_def)
  thus "0 \<notin> set (utf8_encode c)"
    using nz [of c] nz [of "192 + c div 64"] nz [of "128 + c mod 64"] nz [of "224 + c div 4096"]
      nz [of "128 + c div 64 mod 64"] assms
    by (auto simp: utf8_encode_def supported_def)
qed

lemma encode_no_nul: "list_all supported cs \<Longrightarrow> 0 \<notin> set (encode cs)"
  by (induction cs) (auto simp: supported_utf8)

context panel_device begin

lemma draw_char_ok:
  assumes "bitmaps_ok G" "drawable c" "ready (dev st)" "all_ok (dev st)" "s_panelHandle st = Some p"
    "pn_draw_bitmap p = draw" "unat (td_start_x_pos td) = x" "unat (td_start_y_pos td) = y" "x \<le> 65000"
    "y + 25 \<le> 65000" "k < n" "drop k str = utf8_encode c @ tail"
  shows "\<exists>w td'. draw_chars (Font G) str n k td st =
      draw_chars (Font G) str n (k + length (utf8_encode c)) td' (st\<lparr>dev := w, refresh_finish := SemDeleted\<rparr>) \<and>
    draws_to (draw_glyph (glyph G c) (td_color td) (s_backgroud_color st) x y (frame (dev st))) (dev st) w \<and> ready w \<and>
    next_pos (glyph G c) (x, y) = (unat (td_start_x_pos td'), unat (td_start_y_pos td')) \<and> td_color td' = td_color td"
proof -
  let ?im = "glyph G c"
  have c: "supported c" "glyph_ok ?im"
    using assms(2) drawable_glyph_ok [OF assms(1)] by (simp_all add: drawable_def)
  define td0 where "td0 = td\<lparr>td_fontIndex := LcdTouch_GetFontIndexOfUnicode (of_nat c)\<rparr>"
  define td1 where "td1 = td0\<lparr>td_textWidth := ucast (ti_width ?im), td_textHeight := ucast (ti_height ?im)\<rparr>"
  have read: "c_read (ft_chars (Font G)) (unat (td_fontIndex td0)) = Inr (Font_array G (font_index c))"
    using font_index_supported(1) [OF c(1)] by (simp add: td0_def Font_read font_index_def [symmetric])
  obtain w1 where w1: "LcdTouch_DrawText (Font G) (Some p) td0 st = Inr (td1, st\<lparr>dev := w1, refresh_finish := SemDeleted\<rparr>)"
    "draws_to (draw_glyph ?im (td_color td) (s_backgroud_color st) x y (frame (dev st))) (dev st) w1" "ready w1"
    using draw_text_ok [OF assms(3,4,6) read glyph_image_ok(2) [OF assms(1)] c(2), of x y] assms(7-10)
    by (auto simp: td1_def td0_def)
  have "draw_chars (Font G) str n k td st =
      draw_chars (Font G) str n (k + length (utf8_encode c)) (advance td1) (st\<lparr>dev := w1, refresh_finish := SemDeleted\<rparr>)"
    using assms(5,11,12) supported_utf8 [OF c(1)] w1(1)
    by (subst draw_chars.simps) (simp add: td0_def unsigned_of_nat take_bit_nat_eq_self)
  moreover obtain x' y' where xy: "next_pos ?im (x, y) = (x', y')" by (cases "next_pos ?im (x, y)")
  moreover have "unat (td_start_x_pos (advance td1)) = x'" "unat (td_start_y_pos (advance td1)) = y'"
    "td_color (advance td1) = td_color td"
    using advance_pos [of td1 x y ?im] assms(7-10) glyph_size [OF assms(1), of c] xy
    by (simp_all add: td1_def td0_def)
  ultimately show ?thesis using w1(2,3) by (intro exI [of _ w1] exI [of _ "advance td1"]) simp
qed

lemma draw_prefix_ok:
  assumes "bitmaps_ok G" "list_all drawable cs" "ready (dev st)" "all_ok (dev st)" "s_panelHandle st = Some p"
    "pn_draw_bitmap p = draw" "unat (td_start_x_pos td) = x" "unat (td_start_y_pos td) = y" "x \<le> 65000"
    "y + 25 * length cs \<le> 65000" "k + length (encode cs) \<le> n" "drop k str = encode cs @ tail"
  shows "\<exists>w' r td'. draw_chars (Font G) str n k td st =
      draw_chars (Font G) str n (k + length (encode cs)) td' (st\<lparr>dev := w', refresh_finish := r\<rparr>) \<and>
    draws_to (text_frame G (td_color td) (s_backgroud_color st) cs (x, y) (frame (dev st))) (dev st) w' \<and> ready w'"
  using assms(2-)
proof (induction cs arbitrary: st td x y k)
  case Nil
  thus ?case by (auto simp: draws_to_def intro!: exI [of _ "dev st"] exI [of _ "refresh_finish st"] exI [of _ td])
next
  case (Cons c cs)
  let ?im = "glyph G c"
  have c: "drawable c" "supported c" using Cons.prems(1) by (simp_all add: drawable_def)
  have str1: "drop k str = utf8_encode c @ encode cs @ tail" using Cons.prems(11) by simp
  have "drop (length (utf8_encode c)) (drop k str) = encode cs @ tail" unfolding str1 by simp
  hence str2: "drop (k + length (utf8_encode c)) str = encode cs @ tail" by (simp only: drop_drop add.commute)
  have "k < n" using Cons.prems(10) supported_utf8(3) [OF c(2)] unfolding encode_simps length_append by linarith
  moreover have "y + 25 \<le> 65000" using Cons.prems(9) by simp
  ultimately obtain w1 td1 where step: "draw_chars (Font G) str n k td st =
      draw_chars (Font G) str n (k + length (utf8_encode c)) td1 (st\<lparr>dev := w1, refresh_finish := SemDeleted\<rparr>)"
    and w1: "draws_to (draw_glyph ?im (td_color td) (s_backgroud_color st) x y (frame (dev st))) (dev st) w1" "ready w1"
    and adv: "next_pos ?im (x, y) = (unat (td_start_x_pos td1), unat (td_start_y_pos td1))" "td_color td1 = td_color td"
    using draw_char_ok [OF assms(1) c(1) Cons.prems(2-8) _ _ str1] by blast
  let ?st = "st\<lparr>dev := w1, refresh_finish := SemDeleted\<rparr>" and ?x = "unat (td_start_x_pos td1)" and ?y = "unat (td_start_y_pos td1)"
  have bounds: "?x \<le> 65000" "?y + 25 * length cs \<le> 65000"
    using next_pos_bounds [OF assms(1) Cons.prems(8) adv(1)] Cons.prems(9) by simp_all
  obtain w2 r td' where w2: "draw_chars (Font G) str n (k + length (utf8_encode c)) td1 ?st =
        draw_chars (Font G) str n (k + length (utf8_encode c) + length (encode cs)) td' (?st\<lparr>dev := w2, refresh_finish := r\<rparr>)"
    "draws_to (text_frame G (td_color td) (s_backgroud_color st) cs (?x, ?y) (frame w1)) w1 w2" "ready w2"
    using Cons.IH [of ?st td1 ?x ?y "k + length (utf8_encode c)"] Cons.prems w1 adv(2) bounds str2
    by (auto simp: draws_to_def)
  have "text_frame G (td_color td) (s_backgroud_color st) (c # cs) (x, y) (frame (dev st)) =
      text_frame G (td_color td) (s_backgroud_color st) cs (?x, ?y) (frame w1)"
    using w1(1) by (simp add: adv(1) draws_to_def)
  thus ?case
    using step w2 draws_to_trans [OF w1(1) w2(2)]
    by (intro exI [of _ w2] exI [of _ r] exI [of _ td']) (simp add: add.assoc)
qed

lemma draw_chars_ok:
  assumes "bitmaps_ok G" "list_all drawable cs" "ready (dev st)" "all_ok (dev st)" "s_panelHandle st = Some p"
    "pn_draw_bitmap p = draw" "unat (td_start_x_pos td) = x" "unat (td_start_y_pos td) = y" "x \<le> 65000"
    "y + 25 * length cs \<le> 65000"
  shows "\<exists>w' r. draw_chars (Font G) (encode cs @ tail) (length (encode cs)) 0 td st = Inr (st\<lparr>dev := w', refresh_finish := r\<rparr>) \<and>
    draws_to (text_frame G (td_color td) (s_backgroud_color st) cs (x, y) (frame (dev st))) (dev st) w' \<and> ready w'"
  using draw_prefix_ok [OF assms, of 0 "length (encode cs)" "encode cs @ tail" tail]
  by (auto simp: draw_chars.simps [where str_len = n and str_index = n for n])

lemma draw_string_ok:
  assumes "bitmaps_ok G" "list_all drawable cs" "ready (dev st)" "all_ok (dev st)" "s_panelHandle st = Some p"
    "pn_draw_bitmap p = draw" "isInitDisplay st" "x \<le> 65000" "y + 25 * length cs \<le> 65000"
  shows "\<exists>w' r. LcdTouch_DrawString (Font G) (encode cs @ 0 # rest) (of_nat x) (of_nat y) st =
      Inr (st\<lparr>dev := w', refresh_finish := r\<rparr>) \<and>
    draws_to (text_frame G 0xFFFF (s_backgroud_color st) cs (x, y) (frame (dev st))) (dev st) w' \<and> ready w'"
proof -
  let ?td = "\<lparr>td_color = LT_FONT_COLOR, td_start_x_pos = ucast (of_nat x :: u32), td_start_y_pos = ucast (of_nat y :: u32),
    td_fontIndex = 0, td_textWidth = 0, td_textHeight = 0\<rparr>"
  have "list_all supported cs" using assms(2) by (simp add: list_all_iff drawable_def)
  hence len: "c_strlen (encode cs @ 0 # rest) = Inr (length (encode cs))"
    using encode_no_nul by (simp add: cstr_append_nul)
  have "unat (td_start_x_pos ?td) = x" "unat (td_start_y_pos ?td) = y"
    using assms(8,9) by (simp_all add: ucast_of_nat_32_16 unat_of_nat16)
  from draw_chars_ok [OF assms(1-6) this assms(8,9), of "0 # rest"] show ?thesis
    using assms(7) len by (simp add: LcdTouch_DrawString_def text_config_defs)
qed

text \<open>A character that cannot be drawn, after any number that can.\<close>

lemma draw_string_undrawable:
  assumes "bitmaps_ok G" "list_all drawable cs" "ready (dev st)" "all_ok (dev st)" "s_panelHandle st = Some p"
    "pn_draw_bitmap p = draw" "isInitDisplay st" "x \<le> 65000" "y + 25 * length cs \<le> 65000"
    and "terminated tail" "cstr tail \<noteq> []" "ParserChar_GetUnicode tail = Inr (of_nat c, l)" "undrawable c"
  shows "LcdTouch_DrawString (Font G) (encode cs @ tail) (of_nat x) (of_nat y) st = Inl Undef"
proof -
  let ?td = "\<lparr>td_color = LT_FONT_COLOR, td_start_x_pos = ucast (of_nat x :: u32), td_start_y_pos = ucast (of_nat y :: u32),
    td_fontIndex = 0, td_textWidth = 0, td_textHeight = 0\<rparr>"
  let ?str = "encode cs @ tail" and ?k = "length (encode cs)"
  have "list_all supported cs" using assms(2) by (simp add: list_all_iff drawable_def)
  hence cstr: "cstr ?str = encode cs @ cstr tail" using encode_no_nul by (simp add: cstr_append_clean)
  hence len: "c_strlen ?str = Inr (length (encode cs) + length (cstr tail))" using assms(10) by simp
  have pos: "unat (td_start_x_pos ?td) = x" "unat (td_start_y_pos ?td) = y"
    using assms(8,9) by (simp_all add: ucast_of_nat_32_16 unat_of_nat16)
  obtain w' r td' where pre: "draw_chars (Font G) ?str (?k + length (cstr tail)) 0 ?td st =
      draw_chars (Font G) ?str (?k + length (cstr tail)) ?k td' (st\<lparr>dev := w', refresh_finish := r\<rparr>)" "all_ok w'"
    using draw_prefix_ok [OF assms(1-6) pos assms(8,9), of 0 "?k + length (cstr tail)" ?str tail]
    by (auto simp: draws_to_def)
  have "draw_chars (Font G) ?str (?k + length (cstr tail)) ?k td' (st\<lparr>dev := w', refresh_finish := r\<rparr>) = Inl Undef"
    using assms(11,12) draw_text_undrawable [OF assms(1,13), of "st\<lparr>dev := w', refresh_finish := r\<rparr>"] pre(2)
    by (subst draw_chars.simps) (simp add: assms(5))
  thus ?thesis using pre(1) assms(7) len by (simp add: LcdTouch_DrawString_def)
qed

end

subsection \<open>The layout of a text\<close>

text \<open>The box of one character comes before that of a later one: on the same line, or on a line below.\<close>

definition before :: "bitmaps \<Rightarrow> nat \<times> nat \<times> nat \<Rightarrow> nat \<times> nat \<times> nat \<Rightarrow> bool" where
  "before G a b = (case (a, b) of ((c, x, y), (c', x', y')) \<Rightarrow>
     y' = y \<and> x + unat (ti_width (glyph G c)) < x' \<or> y + unat (ti_height (glyph G c)) + 5 \<le> y')"

lemma layout_from:
  assumes "bitmaps_ok G" "(c, x', y') \<in> set (layout G cs (x, y))"
  shows "y' = y \<and> x \<le> x' \<or> y + 25 \<le> y'"
  using assms(2)
proof (induction cs arbitrary: x y)
  case Nil
  thus ?case by simp
next
  case (Cons d cs)
  obtain x1 y1 where n: "next_pos (glyph G d) (x, y) = (x1, y1)" by (cases "next_pos (glyph G d) (x, y)")
  have "y1 = y \<and> x \<le> x1 \<or> y1 = y + 25"
    using n glyph_size [OF assms(1), of d] by (auto simp: next_pos_def Let_def split: if_splits)
  thus ?case using Cons.IH [of x1 y1] Cons.prems n by auto
qed

lemma layout_sorted: "bitmaps_ok G \<Longrightarrow> sorted_wrt (before G) (layout G cs (x, y))"
proof (induction cs arbitrary: x y)
  case Nil
  thus ?case by simp
next
  case (Cons d cs)
  obtain x1 y1 where n: "next_pos (glyph G d) (x, y) = (x1, y1)" by (cases "next_pos (glyph G d) (x, y)")
  have step: "y1 = y \<and> x + unat (ti_width (glyph G d)) < x1 \<or> y1 = y + 25"
    using n glyph_size [OF Cons.prems, of d] by (auto simp: next_pos_def Let_def split: if_splits)
  have "before G (d, x, y) (c, x', y')" if "(c, x', y') \<in> set (layout G cs (x1, y1))" for c x' y'
    using layout_from [OF Cons.prems that] step glyph_size(3) [OF Cons.prems, of d] by (auto simp: before_def)
  thus ?case using Cons n by auto
qed

lemma layout_bounds:
  assumes "bitmaps_ok G" "x < 300" "(c, x', y') \<in> set (layout G cs (x, y))"
  shows "x' < 300 \<and> y' \<le> y + 25 * ((21 * length cs + x - 20) div 280)"
  using assms(2-)
proof (induction cs arbitrary: x y)
  case Nil
  thus ?case by simp
next
  case (Cons d cs)
  let ?w = "unat (ti_width (glyph G d))"
  have w: "?w \<le> 20" "unat (ti_height (glyph G d)) = 20" using glyph_size [OF assms(1)] by auto
  show ?case
  proof (cases "(c, x', y') = (d, x, y)")
    case True
    thus ?thesis using Cons.prems by simp
  next
    case rest: False
    show ?thesis
    proof (cases "300 \<le> x + ?w + 1")
      case True
      hence n: "next_pos (glyph G d) (x, y) = (20, y + 25)" using w by (simp add: next_pos_def)
      define a where "a = 21 * length cs"
      have "x' < 300 \<and> y' \<le> y + 25 + 25 * (a div 280)"
        using Cons.IH [of 20 "y + 25"] Cons.prems rest n by (auto simp: a_def)
      moreover have "(a + 280) div 280 \<le> (21 * length (d # cs) + x - 20) div 280"
        using True w by (intro div_le_mono) (simp add: a_def)
      moreover have "(a + 280) div 280 = a div 280 + 1" by simp
      ultimately show ?thesis by linarith
    next
      case False
      hence n: "next_pos (glyph G d) (x, y) = (x + ?w + 1, y)" by (simp add: next_pos_def)
      have "x' < 300 \<and> y' \<le> y + 25 * ((21 * length cs + (x + ?w + 1) - 20) div 280)"
        using Cons.IH [of "x + ?w + 1" y] Cons.prems rest n False by auto
      moreover have "(21 * length cs + (x + ?w + 1) - 20) div 280 \<le> (21 * length (d # cs) + x - 20) div 280"
        using w by (intro div_le_mono) simp
      ultimately show ?thesis by (meson le_trans add_le_mono mult_le_mono order_refl)
    qed
  qed
qed

text \<open>The box of a placed character is inside the screen.\<close>

definition on_screen :: "bitmaps \<Rightarrow> nat \<times> nat \<times> nat \<Rightarrow> bool" where
  "on_screen G p = (case p of (c, x, y) \<Rightarrow>
     x + unat (ti_width (glyph G c)) \<le> 320 \<and> y + unat (ti_height (glyph G c)) \<le> 240)"

lemma layout_on_screen:
  assumes "bitmaps_ok G" "x < 300" "y + 25 * ((21 * length cs + x - 20) div 280) + 20 \<le> 240"
  shows "list_all (on_screen G) (layout G cs (x, y))"
proof -
  have "x' + unat (ti_width (glyph G c)) \<le> 320 \<and> y' + unat (ti_height (glyph G c)) \<le> 240"
    if "(c, x', y') \<in> set (layout G cs (x, y))" for c x' y'
    using layout_bounds [OF assms(1,2) that] assms(3) glyph_size [OF assms(1), of c] by auto
  thus ?thesis by (auto simp: list_all_iff on_screen_def)
qed

lemma draw_glyphs_outside:
  assumes "list_all (on_screen G) ps" "320 \<le> px \<or> 240 \<le> py"
  shows "fold (\<lambda>(c, x, y). draw_glyph (glyph G c) fg bg x y) ps f px py = f px py"
  using assms(1)
proof (induction ps arbitrary: f)
  case (Cons p ps)
  obtain c x y where p: "p = (c, x, y)" by (cases p)
  have "draw_glyph (glyph G c) fg bg x y f px py = f px py"
    using Cons.prems assms(2) p by (auto simp: on_screen_def draw_glyph_def)
  thus ?case using Cons p by simp
qed simp

lemma text_frame_outside:
  "list_all (on_screen G) (layout G cs p) \<Longrightarrow> 320 \<le> px \<or> 240 \<le> py \<Longrightarrow> text_frame G fg bg cs p f px py = f px py"
  unfolding text_frame_def by (rule draw_glyphs_outside)

definition blank_bitmaps :: bitmaps where
  "blank_bitmaps = (\<lambda>_. replicate 60 0)"

lemma blank_bitmaps_ok: "bitmaps_ok blank_bitmaps"
  by (simp add: bitmaps_ok_def blank_bitmaps_def)

end
