(* ===== verification/Lcd_Touch.thy ===== *)
theory Lcd_Touch
  imports Lcd_Text Esp_Touch
begin

text \<open>
  \<open>components/lcd_touch/lcd_touch.c\<close>, third part: bringing up the display and the touch panel, the
  functions the rest of the firmware calls, and the touch task; on the ILI9341 driver.
\<close>

subsection \<open>Initialisation\<close>

text \<open>The module's state with the ILI9341 driver below it.\<close>

type_synonym ('e, 'a) lcd = "('e ili_dev_ext, 'a) lcd_state_scheme"

definition LT_PIN_NUM_LCD_RST :: int where "LT_PIN_NUM_LCD_RST = 6"
definition LT_PIN_NUM_BK_LIGHT :: nat where "LT_PIN_NUM_BK_LIGHT = 7"
definition LT_PIN_NUM_TOUCH_IRQ :: int where "LT_PIN_NUM_TOUCH_IRQ = 8"
definition LT_PIN_NUM_LCD_DC :: int where "LT_PIN_NUM_LCD_DC = 9"
definition LT_PIN_NUM_LCD_CS :: int where "LT_PIN_NUM_LCD_CS = 10"
definition LT_PIN_NUM_MOSI :: int where "LT_PIN_NUM_MOSI = 11"
definition LT_PIN_NUM_SCLK :: int where "LT_PIN_NUM_SCLK = 12"
definition LT_PIN_NUM_MISO :: int where "LT_PIN_NUM_MISO = 13"
definition LT_PIN_NUM_TOUCH_DIN :: int where "LT_PIN_NUM_TOUCH_DIN = 35"
definition LT_PIN_NUM_TOUCH_CLK :: int where "LT_PIN_NUM_TOUCH_CLK = 36"
definition LT_PIN_NUM_TOUCH_DO :: int where "LT_PIN_NUM_TOUCH_DO = 37"
definition LT_PIN_NUM_TOUCH_CS :: int where "LT_PIN_NUM_TOUCH_CS = 39"
definition LT_LCD_BK_LIGHT_ON_LEVEL :: bool where "LT_LCD_BK_LIGHT_ON_LEVEL = True"
definition LT_LCD_BK_LIGHT_OFF_LEVEL :: bool where "LT_LCD_BK_LIGHT_OFF_LEVEL = False"
definition LT_LCD_HOST :: nat where "LT_LCD_HOST = 1"
definition LT_LCD_TOUCH_HOST :: nat where "LT_LCD_TOUCH_HOST = 2"
definition LT_BACKGROUND_COLOR :: u16 where "LT_BACKGROUND_COLOR = 0"

definition gpio_set_level :: "int \<Rightarrow> bool \<Rightarrow> ('d, 'a) lcd_state_scheme \<Rightarrow> ('d, 'a) lcd_state_scheme" where
  "gpio_set_level pin level st = st\<lparr>dev := io_emit (GpioSetLevel pin level) (dev st)\<rparr>"

text \<open>The panel configuration; \<open>panel_size\<close> and \<open>touch_size\<close> below are sizes of C structs.\<close>

definition panel_config :: panel_dev_config where
  "panel_config = \<lparr>cfg_reset_gpio_num = LT_PIN_NUM_LCD_RST, cfg_rgb_endian = LCD_RGB_ENDIAN_BGR,
     cfg_bits_per_pixel = 16, cfg_reset_active_high = False, cfg_vendor_config = None\<rparr>"

definition new_panel_checked :: "nat \<Rightarrow> ('e, 'a) lcd \<Rightarrow> ('e, 'a) lcd run" where
  "new_panel_checked panel_size st =
     (let (e, w) = esp_lcd_new_panel_ili9341 True (Some panel_config) True panel_size (dev st) in
      bindR (ESP_ERROR_CHECK e) (\<lambda>_.
      Inr (st\<lparr>dev := w, s_panelHandle := Some ili9341_base\<rparr>)))"

definition LcdTouch_InitDisplay :: "nat \<Rightarrow> ('e, 'a) lcd \<Rightarrow> ('e, 'a) lcd run" where
  "LcdTouch_InitDisplay panel_size st =
     bindR (check_dev (\<lambda>w. Inr (gpio_config (push_bit LT_PIN_NUM_BK_LIGHT 1) w)) st) (\<lambda>st.
     bindR (check_dev (\<lambda>w. Inr (spi_bus_initialize LT_LCD_HOST w)) st) (\<lambda>st.
     bindR (check_dev (\<lambda>w. Inr (new_panel_io_spi LT_LCD_HOST w)) st) (\<lambda>st.
     bindR (new_panel_checked panel_size st) (\<lambda>st.
     bindR (check_dev (on_handle pn_reset (s_panelHandle st)) st) (\<lambda>st.
     bindR (check_dev (on_handle pn_init (s_panelHandle st)) st) (\<lambda>st.
     bindR (check_dev (on_handle (\<lambda>p. pn_mirror p True False) (s_panelHandle st)) st) (\<lambda>st.
     bindR (check_dev (on_handle (\<lambda>p. pn_disp_on_off p False) (s_panelHandle st)) st) (\<lambda>st.
     let st = gpio_set_level (int LT_PIN_NUM_BK_LIGHT) LT_LCD_BK_LIGHT_OFF_LEVEL st in
     bindR (LcdToudh_FillBackground (s_panelHandle st) LT_BACKGROUND_COLOR st) (\<lambda>st.
     Inr (st\<lparr>isInitDisplay := True\<rparr>))))))))))"

definition LcdTouch_TouchISR :: "('d, 'a) lcd_state_scheme \<Rightarrow> ('d, 'a) lcd_state_scheme" where
  "LcdTouch_TouchISR st = st\<lparr>isTouchOccurred := True\<rparr>"

definition TOUCH_ISR :: nat where "TOUCH_ISR = 1"

definition tp_cfg :: touch_config where
  "tp_cfg = \<lparr>x_max = of_nat LT_LCD_H_RES, y_max = of_nat LT_LCD_V_RES, rst_gpio_num = - 1,
     int_gpio_num = LT_PIN_NUM_TOUCH_IRQ, level_interrupt = False, flag_swap_xy = False, flag_mirror_x = False,
     flag_mirror_y = False, process_coordinates = None, interrupt_callback = Some TOUCH_ISR, user_data = None\<rparr>"

text \<open>A \<open>calloc\<close>ed touch object: every function pointer is null; the configuration is copied in.\<close>

definition touch_object :: "touch_config \<Rightarrow> 'd touch_t" where
  "touch_object cfg = \<lparr>tp_enter_sleep = None, tp_exit_sleep = None, tp_read_data = None, tp_get_xy = None,
     tp_set_swap_xy = None, tp_get_swap_xy = None, tp_set_mirror_x = None, tp_get_mirror_x = None,
     tp_set_mirror_y = None, tp_get_mirror_y = None, tp_get_button_state = None, tp_del = None, tp_config = cfg\<rparr>"

text \<open>The allocation is not checked before the object is written.\<close>

definition LcdTouch_InitTouchPanel ::
  "nat \<Rightarrow> ('d, 'a) lcd_state_scheme \<Rightarrow> ('d touch_t \<times> ('d, 'a) lcd_state_scheme) run" where
  "LcdTouch_InitTouchPanel touch_size st =
     bindR (check_dev (\<lambda>w. Inr (spi_bus_initialize LT_LCD_TOUCH_HOST w)) st) (\<lambda>st.
     bindR (check_dev (\<lambda>w. Inr (new_panel_io_spi LT_LCD_TOUCH_HOST w)) st) (\<lambda>st.
     let (mem, w) = heap_calloc touch_size (dev st); st = st\<lparr>dev := w\<rparr> in
     if mem = None then Inl Undef else
     let tp = touch_object tp_cfg in
     if int_gpio_num tp_cfg \<noteq> GPIO_NUM_NC then
       bindR (check_dev (\<lambda>w. Inr (gpio_config (push_bit (nat (int_gpio_num tp_cfg)) 1) w)) st) (\<lambda>st.
       if interrupt_callback tp_cfg \<noteq> None then
         bindR (esp_lcd_touch_register_interrupt_callback (Some tp) (interrupt_callback tp_cfg) (dev st)) (\<lambda>(e, tp, w).
         bindR (ESP_ERROR_CHECK e) (\<lambda>_. Inr (tp, st\<lparr>dev := w\<rparr>)))
       else Inr (tp, st))
     else Inr (tp, st)))"

definition LcdTouch_Init :: "nat \<Rightarrow> nat \<Rightarrow> ('e, 'a) lcd \<Rightarrow> ('e, 'a) lcd run" where
  "LcdTouch_Init panel_size touch_size st =
     bindR (LcdTouch_InitDisplay panel_size st) (\<lambda>st.
     bindR (LcdTouch_InitTouchPanel touch_size st) (\<lambda>(_, st). Inr st))"

subsection \<open>The other functions of the interface\<close>

definition LcdTouch_TurnOff :: "('d, 'a) lcd_state_scheme \<Rightarrow> ('d, 'a) lcd_state_scheme run" where
  "LcdTouch_TurnOff st =
     (if \<not> isInitDisplay st then Inr st
      else bindR (check_dev (on_handle (\<lambda>p. pn_disp_on_off p False) (s_panelHandle st)) st) (\<lambda>st.
           Inr (gpio_set_level (int LT_PIN_NUM_BK_LIGHT) LT_LCD_BK_LIGHT_OFF_LEVEL st)))"

definition LcdTouch_TurnOn :: "('d, 'a) lcd_state_scheme \<Rightarrow> ('d, 'a) lcd_state_scheme run" where
  "LcdTouch_TurnOn st =
     (if \<not> isInitDisplay st then Inr st
      else bindR (check_dev (on_handle (\<lambda>p. pn_disp_on_off p True) (s_panelHandle st)) st) (\<lambda>st.
           Inr (gpio_set_level (int LT_PIN_NUM_BK_LIGHT) LT_LCD_BK_LIGHT_ON_LEVEL st)))"

definition LcdTouch_ResetBackground :: "('d, 'a) lcd_state_scheme \<Rightarrow> ('d, 'a) lcd_state_scheme run" where
  "LcdTouch_ResetBackground st =
     (if \<not> isInitDisplay st then Inr st
      else LcdToudh_FillBackground (s_panelHandle st) (s_backgroud_color st) st)"

definition LcdTouch_SetTouchCallback ::
  "touch_callback option \<Rightarrow> ('d, 'a) lcd_state_scheme \<Rightarrow> ('d, 'a) lcd_state_scheme" where
  "LcdTouch_SetTouchCallback callback st = st\<lparr>s_touch_callback_f := callback\<rparr>"

text \<open>\<open>call\<close> is what the code at a callback's address does to the whole state.\<close>

definition LcdTouch_Task ::
  "(touch_callback \<Rightarrow> ('d, 'a) lcd_state_scheme \<Rightarrow> ('d, 'a) lcd_state_scheme run) \<Rightarrow>
    ('d, 'a) lcd_state_scheme \<Rightarrow> ('d, 'a) lcd_state_scheme run" where
  "LcdTouch_Task call st =
     (if isTouchOccurred st then
        bindR (case s_touch_callback_f st of None \<Rightarrow> Inr st | Some f \<Rightarrow> call f st) (\<lambda>st.
        Inr (st\<lparr>isTouchOccurred := False\<rparr>))
      else Inr st)"

subsection \<open>The display after initialisation\<close>

definition tv_panel :: ili9341_panel where
  "tv_panel = \<lparr>reset_gpio_num = 6, reset_level = False, x_gap = 0, y_gap = 0, fb_bits_per_pixel = 16,
     madctl_val = LCD_CMD_BGR_BIT, colmod_val = 0x55, init_cmds = None\<rparr>"

lemma new_panel_ok:
  assumes "all_ok w"
  shows "esp_lcd_new_panel_ili9341 True (Some panel_config) True n w =
    (ESP_OK, (io_emit (GpioConfig (push_bit 6 1)) (io_emit (Calloc n True) w))\<lparr>dev_panel := Some tv_panel\<rparr>)"
  using assms
  by (simp add: esp_lcd_new_panel_ili9341_def panel_config_def heap_calloc_def gpio_config_def all_ok_answers
      LT_PIN_NUM_LCD_RST_def tv_panel_def)

lemma panel_reset_ok:
  assumes "dev_panel w = Some p" "0 \<le> reset_gpio_num p"
  shows "\<exists>w'. panel_ili9341_reset w = Inr (ESP_OK, w') \<and> dev_panel w' = Some p \<and> chip_of w' = chip_of w \<and>
    held w' = held w \<and> all_ok w' = all_ok w"
  using assms by (simp add: panel_ili9341_reset_def on_panel_def Let_def)

lemma check_dev_ok: "op (dev st) = Inr (ESP_OK, w) \<Longrightarrow> check_dev op st = Inr (st\<lparr>dev := w\<rparr>)"
  by (simp add: check_dev_def)

text \<open>Reset, initialisation, mirroring and switching off of a new panel object.\<close>

lemma start_panel_ok:
  assumes "all_ok w" "dev_panel w = Some tv_panel"
  shows "\<exists>w2 w3 w4. panel_ili9341_reset w = Inr (ESP_OK, w2) \<and> panel_ili9341_init w2 = Inr (ESP_OK, w3) \<and>
    panel_ili9341_mirror True False w3 = Inr (ESP_OK, w4) \<and>
    panel_ili9341_disp_on_off False w4 = Inr (ESP_OK, io_emit (TxParam LCD_CMD_DISPOFF []) w4) \<and>
    (let w5 = io_emit (TxParam LCD_CMD_DISPOFF []) w4 in ili_ready w5 \<and> all_ok w5 \<and> frame w5 = frame w \<and> held w5 = held w \<and>
     chip_mode w5 = (LCD_CMD_BGR_BIT OR LCD_CMD_MX_BIT, 0x55, False, True, chip_inverted (chip_of w5)))"
proof -
  obtain w2 where w2: "panel_ili9341_reset w = Inr (ESP_OK, w2)" "dev_panel w2 = Some tv_panel"
    "chip_of w2 = chip_of w" "held w2 = held w" "all_ok w2"
    using panel_reset_ok [OF assms(2)] assms(1) by (auto simp: tv_panel_def)
  obtain w3 where w3: "panel_ili9341_init w2 = Inr (ESP_OK, w3)" "dev_panel w3 = Some tv_panel" "in_sync w3"
    "steady (tv_panel, w2) (tv_panel, w3)" "chip_awake (chip_of w3)"
    using panel_init_ok [OF w2(5,2)] by (auto simp: tv_panel_def default_table_upd)
  have ok3: "all_ok w3" using w3(4) w2(5) by (simp add: steady_def)
  define m where "m = set_bit_to LCD_CMD_MY_BIT False (set_bit_to LCD_CMD_MX_BIT True (madctl_val tv_panel))"
  have m: "m = LCD_CMD_BGR_BIT OR LCD_CMD_MX_BIT"
    by (simp add: m_def set_bit_to_def tv_panel_def madctl_bit_defs)
  define w4 where "w4 = io_emit (TxParam LCD_CMD_MADCTL [m]) (w3\<lparr>dev_panel := Some (tv_panel\<lparr>madctl_val := m\<rparr>)\<rparr>)"
  define w5 where "w5 = io_emit (TxParam LCD_CMD_DISPOFF []) w4"
  have mirror: "panel_ili9341_mirror True False w3 = Inr (ESP_OK, w4)"
    using panel_mirror_ok [OF ok3 w3(2), of True False] by (simp add: w4_def m_def)
  have off: "panel_ili9341_disp_on_off False w4 = Inr (ESP_OK, w5)"
    using panel_disp_on_off_ok [of w4 _ False] ok3 by (simp add: w4_def w5_def)
  have chip5: "chip_of w5 = (chip_of w3)\<lparr>chip_madctl := m, chip_on := False\<rparr>"
    using chip_disp_on_off [of False] chip_madctl_step [of m] by (simp add: w5_def w4_def)
  have "ili_ready w5" "all_ok w5" "frame w5 = frame w" "held w5 = held w"
    using ok3 w3(4) w2(3,4) by (simp_all add: w5_def w4_def ili_ready_def tv_panel_def steady_def frame_def chip_param_keeps)
  moreover have "chip_mode w5 = (m, 0x55, False, True, chip_inverted (chip_of w5))"
    using w3(2,3,5) by (simp add: chip_mode_def chip5 in_sync_def tv_panel_def)
  ultimately show ?thesis using w2(1) w3(1) mirror off m by (auto simp: Let_def w5_def)
qed

lemma init_display_ok:
  assumes "all_ok (dev st)"
  shows "\<exists>st'. LcdTouch_InitDisplay n st = Inr st' \<and> isInitDisplay st' \<and> s_panelHandle st' = Some ili9341_base \<and>
    s_backgroud_color st' = 0 \<and> isTouchOccurred st' = isTouchOccurred st \<and>
    s_touch_callback_f st' = s_touch_callback_f st \<and> lcd_state.more st' = lcd_state.more st \<and>
    ili_ready (dev st') \<and> all_ok (dev st') \<and> held (dev st') = (fst (held (dev st)) + 1, snd (held (dev st))) \<and>
    chip_mode (dev st') = (LCD_CMD_BGR_BIT OR LCD_CMD_MX_BIT, 0x55, False, True, chip_inverted (chip_of (dev st'))) \<and>
    frame (dev st') = fill_rect 0 0 0 320 240 (frame (dev st))"
proof -
  let ?w0 = "io_emit (NewPanelIo LT_LCD_HOST) (io_emit (SpiBusInit LT_LCD_HOST)
    (io_emit (GpioConfig (push_bit LT_PIN_NUM_BK_LIGHT 1)) (dev st)))"
  define w1 where "w1 = (io_emit (GpioConfig (push_bit 6 1)) (io_emit (Calloc n True) ?w0))\<lparr>dev_panel := Some tv_panel\<rparr>"
  have w1: "all_ok w1" "dev_panel w1 = Some tv_panel" "frame w1 = frame (dev st)"
    "held w1 = (fst (held (dev st)) + 1, snd (held (dev st)))"
    using assms by (simp_all add: w1_def)
  obtain w2 w3 w4 where w4: "panel_ili9341_reset w1 = Inr (ESP_OK, w2)" "panel_ili9341_init w2 = Inr (ESP_OK, w3)"
    "panel_ili9341_mirror True False w3 = Inr (ESP_OK, w4)"
    "panel_ili9341_disp_on_off False w4 = Inr (ESP_OK, io_emit (TxParam LCD_CMD_DISPOFF []) w4)"
    and on: "let w5 = io_emit (TxParam LCD_CMD_DISPOFF []) w4 in ili_ready w5 \<and> all_ok w5 \<and> frame w5 = frame w1 \<and> held w5 = held w1 \<and>
     chip_mode w5 = (LCD_CMD_BGR_BIT OR LCD_CMD_MX_BIT, 0x55, False, True, chip_inverted (chip_of w5))"
    using start_panel_ok [OF w1(1,2)] by blast
  define w5 where "w5 = io_emit (GpioSetLevel (int LT_PIN_NUM_BK_LIGHT) LT_LCD_BK_LIGHT_OFF_LEVEL)
    (io_emit (TxParam LCD_CMD_DISPOFF []) w4)"
  have w5: "ili_ready w5" "all_ok w5" "frame w5 = frame (dev st)" "held w5 = held w1"
    "chip_mode w5 = (LCD_CMD_BGR_BIT OR LCD_CMD_MX_BIT, 0x55, False, True, chip_inverted (chip_of w5))"
    using on w1(3) by (simp_all add: w5_def Let_def ili_ready_def chip_mode_def)
  let ?st = "st\<lparr>dev := w5, s_panelHandle := Some ili9341_base\<rparr>"
  obtain w6 where w6: "LcdToudh_FillBackground (Some ili9341_base) 0 ?st =
      Inr (?st\<lparr>dev := w6, refresh_finish := SemDeleted, s_backgroud_color := 0\<rparr>)"
    "draws_to (fill_rect 0 0 0 320 240 (frame w5)) w5 w6" "ili_ready w6"
    using ili.fill_background_ok [of ?st ili9341_base 0] w5(1,2) by (auto simp: ili9341_base_def)
  have init: "LcdTouch_InitDisplay n st = Inr (?st\<lparr>dev := w6, refresh_finish := SemDeleted, s_backgroud_color := 0, isInitDisplay := True\<rparr>)"
    using assms w4 w6(1) new_panel_ok [of ?w0 n, folded w1_def]
    by (cases st) (simp add: LcdTouch_InitDisplay_def check_dev_ok gpio_config_def spi_bus_initialize_def new_panel_io_spi_def
        all_ok_answers new_panel_checked_def ili9341_base_def gpio_set_level_def LT_BACKGROUND_COLOR_def w5_def)
  have "chip_inverted (chip_of w6) = chip_inverted (chip_of w5)"
    using w6(2) by (simp add: draws_to_def chip_mode_def Let_def)
  thus ?thesis
    using init w6(2,3) w5(3-5) w1(4) by (simp add: draws_to_def)
qed

subsection \<open>The touch panel and the whole module\<close>

lemma init_touch_ok:
  assumes "all_ok (dev st)"
  shows "\<exists>tp st'. LcdTouch_InitTouchPanel n st = Inr (tp, st') \<and>
    io_log (dev st') = io_log (dev st) @ [SpiBusInit LT_LCD_TOUCH_HOST, NewPanelIo LT_LCD_TOUCH_HOST, Calloc n True,
      GpioConfig (push_bit 8 1), GpioIsr IsrInstall 0, GpioIsr IntrEnable 8, GpioIsr HandlerAdd 8] \<and>
    interrupt_callback (tp_config tp) = Some TOUCH_ISR \<and> st' = st\<lparr>dev := dev st'\<rparr> \<and> all_ok (dev st') \<and>
    io_world.more (dev st') = io_world.more (dev st) \<and> irq_pending (dev st') = irq_pending (dev st)"
  using assms
  by (simp add: LcdTouch_InitTouchPanel_def check_dev_ok spi_bus_initialize_def new_panel_io_spi_def heap_calloc_def
      all_ok_answers tp_cfg_def LT_PIN_NUM_TOUCH_IRQ_def GPIO_NUM_NC_def gpio_config_def gpio_isr_def
      esp_lcd_touch_register_interrupt_callback_def touch_object_def Let_def)

text \<open>The state the rest of the firmware relies on: the display is up and its driver works.\<close>

definition lcd_ok :: "('e, 'a) lcd \<Rightarrow> bool" where
  "lcd_ok st \<longleftrightarrow> isInitDisplay st \<and> s_panelHandle st = Some ili9341_base \<and> ili_ready (dev st) \<and> all_ok (dev st)"

lemma ili9341_base_draw: "pn_draw_bitmap ili9341_base = panel_ili9341_draw_bitmap"
  by (simp add: ili9341_base_def)

definition lcd_start :: "(unit, unit) lcd" where
  "lcd_start = \<lparr>dev = demo_dev\<lparr>dev_panel := None\<rparr>, refresh_finish = SemNull, s_panelHandle = None,
     s_backgroud_color = 0, s_touch_callback_f = None, isTouchOccurred = False, isInitDisplay = False\<rparr>"

definition lcd_up :: "(unit, unit) lcd" where
  "lcd_up = lcd_start\<lparr>dev := demo_dev, s_panelHandle := Some ili9341_base, isInitDisplay := True\<rparr>"

lemma lcd_start_ok: "all_ok (dev lcd_start)"
  using demo_dev_ok by (simp add: lcd_start_def)

lemma lcd_up_ok: "lcd_ok lcd_up"
  using demo_dev_ok by (simp add: lcd_up_def lcd_ok_def)

subsection \<open>Properties\<close>

text \<open>
  C31. Bringing up the display, when every call below succeeds: the module is initialised with the
  ILI9341 driver, ready to draw; the controller is awake but the panel is off; it is set to BGR
  order, mirrored in x, 16 bits per pixel; the 320 by 240 pixels of the screen are black; and of
  what was allocated only the panel object is still held.
\<close>

theorem InitDisplay_establishes:
  assumes "all_ok (dev st)"
  shows "\<exists>st' inv. LcdTouch_InitDisplay n st = Inr st' \<and> lcd_ok st' \<and>
    chip_mode (dev st') = (LCD_CMD_BGR_BIT OR LCD_CMD_MX_BIT, 0x55, False, True, inv) \<and>
    (\<forall>x<320. \<forall>y<240. frame (dev st') x y = 0) \<and> s_backgroud_color st' = 0 \<and>
    held (dev st') = (fst (held (dev st)) + 1, snd (held (dev st)))"
  using init_display_ok [OF assms, of n] by (auto simp: lcd_ok_def fill_rect_def)

theorem InitDisplay_establishes_witness:
  "\<exists>st' inv. LcdTouch_InitDisplay 64 lcd_start = Inr st' \<and> lcd_ok st' \<and>
    chip_mode (dev st') = (LCD_CMD_BGR_BIT OR LCD_CMD_MX_BIT, 0x55, False, True, inv) \<and>
    (\<forall>x<320. \<forall>y<240. frame (dev st') x y = 0) \<and> s_backgroud_color st' = 0 \<and>
    held (dev st') = (fst (held (dev lcd_start)) + 1, snd (held (dev lcd_start)))"
  by (rule InitDisplay_establishes [OF lcd_start_ok])

text \<open>
  Clearing the screen. On an initialised display \<open>LcdTouch_ResetBackground\<close> sets every pixel of
  the screen to the background colour and changes nothing else of the frame memory, the mode
  registers or the module's flags, and gives back the buffer and the semaphore it used.
\<close>

lemma ResetBackground_clears:
  assumes "lcd_ok st"
  shows "\<exists>st'. LcdTouch_ResetBackground st = Inr st' \<and> lcd_ok st' \<and> s_backgroud_color st' = s_backgroud_color st \<and>
    frame (dev st') = (\<lambda>x y. if x < 320 \<and> y < 240 then s_backgroud_color st else frame (dev st) x y) \<and>
    chip_mode (dev st') = chip_mode (dev st) \<and> held (dev st') = held (dev st) \<and>
    isTouchOccurred st' = isTouchOccurred st \<and> lcd_state.more st' = lcd_state.more st"
  using ili.fill_background_ok [of st ili9341_base "s_backgroud_color st"] assms
  by (auto simp: LcdTouch_ResetBackground_def lcd_ok_def ili9341_base_draw draws_to_def fill_rect_def)

text \<open>
  C5. Drawing a string. On an initialised display, for a string of printable ASCII characters,
  Hangul letters and syllables in UTF-8 (the quotation mark and the letter J excepted), at any
  position of the screen, \<open>LcdTouch_DrawString\<close> returns, and the frame memory is then exactly the
  old one with each character's glyph painted at its place in the layout, white on the background
  colour; the mode registers are unchanged and every buffer and semaphore is given back.
\<close>

theorem DrawString_renders:
  assumes "lcd_ok st" "bitmaps_ok G" "list_all drawable cs" "x \<le> 65000" "y + 25 * length cs \<le> 65000"
  shows "\<exists>st'. LcdTouch_DrawString (Font G) (encode cs @ 0 # rest) (of_nat x) (of_nat y) st = Inr st' \<and> lcd_ok st' \<and>
    frame (dev st') = text_frame G 0xFFFF (s_backgroud_color st) cs (x, y) (frame (dev st)) \<and>
    chip_mode (dev st') = chip_mode (dev st) \<and> held (dev st') = held (dev st) \<and>
    s_backgroud_color st' = s_backgroud_color st \<and> isTouchOccurred st' = isTouchOccurred st \<and>
    lcd_state.more st' = lcd_state.more st"
  using ili.draw_string_ok [OF assms(2,3), of st ili9341_base x y rest] assms(1,4,5)
  by (auto simp: lcd_ok_def ili9341_base_draw draws_to_def)

theorem DrawString_renders_witness:
  "\<exists>st'. LcdTouch_DrawString (Font blank_bitmaps) ([0x41, 0xEA, 0xB0, 0x80] @ 0 # []) 10 60 lcd_up = Inr st' \<and>
    frame (dev st') = text_frame blank_bitmaps 0xFFFF 0 [0x41, 0xAC00] (10, 60) (frame (dev lcd_up))"
  using DrawString_renders [OF lcd_up_ok blank_bitmaps_ok, of "[0x41, 0xAC00]" 10 60 "[]"]
  by (auto simp: drawable_def supported_def utf8_encode_def lcd_up_def lcd_start_def)

text \<open>
  C37. Text stays on the screen. When the text starts left of column 300 and the line of its last
  character, counting at least 13 characters to a line, fits above row 240, then the boxes of its
  characters do not overlap, each is inside the 320 by 240 pixels, and \<open>LcdTouch_DrawString\<close> leaves
  every other pixel of the frame memory alone.
\<close>

theorem DrawString_on_screen:
  assumes "lcd_ok st" "bitmaps_ok G" "list_all drawable cs" "length cs \<le> 256" "x < 300"
    and "y + 25 * ((21 * length cs + x - 20) div 280) + 20 \<le> 240"
  shows "sorted_wrt (before G) (layout G cs (x, y)) \<and> list_all (on_screen G) (layout G cs (x, y)) \<and>
    (\<exists>st'. LcdTouch_DrawString (Font G) (encode cs @ 0 # rest) (of_nat x) (of_nat y) st = Inr st' \<and>
      frame (dev st') = (\<lambda>px py. if px < 320 \<and> py < 240
        then text_frame G 0xFFFF (s_backgroud_color st) cs (x, y) (frame (dev st)) px py else frame (dev st) px py))"
proof -
  note lay = layout_on_screen [OF assms(2,5,6)]
  have "text_frame G 0xFFFF (s_backgroud_color st) cs (x, y) (frame (dev st)) =
    (\<lambda>px py. if px < 320 \<and> py < 240
      then text_frame G 0xFFFF (s_backgroud_color st) cs (x, y) (frame (dev st)) px py else frame (dev st) px py)"
    using text_frame_outside [OF lay] by (auto simp: fun_eq_iff not_less)
  thus ?thesis
    using ili.draw_string_ok [OF assms(2,3), of st ili9341_base x y rest] assms(1,4,5,6) lay layout_sorted [OF assms(2)]
    by (auto simp: lcd_ok_def ili9341_base_draw draws_to_def)
qed

theorem DrawString_on_screen_witness:
  "\<exists>st'. LcdTouch_DrawString (Font blank_bitmaps) (encode (replicate 85 0xAC00) @ 0 # []) (of_nat 10) (of_nat 60) lcd_up = Inr st' \<and>
    frame (dev st') 320 0 = frame (dev lcd_up) 320 0"
  using DrawString_on_screen [OF lcd_up_ok blank_bitmaps_ok, of "replicate 85 0xAC00" 10 60 "[]"]
  by (auto simp: drawable_def supported_def list_all_iff)

text \<open>
  C22. One character is enough to leave the table. If after any number of drawable characters the
  string holds a quotation mark, a letter J (their bitmaps are read past the end) or anything the
  parser gives a code for that lies outside the table, such as a control character or an accented
  letter, \<open>LcdTouch_DrawString\<close> reads outside an array.
\<close>

theorem DrawString_undrawable:
  assumes "lcd_ok st" "bitmaps_ok G" "list_all drawable cs" "x \<le> 65000" "y + 25 * length cs \<le> 65000"
    and "terminated tail" "cstr tail \<noteq> []" "ParserChar_GetUnicode tail = Inr (of_nat c, l)" "undrawable c"
  shows "LcdTouch_DrawString (Font G) (encode cs @ tail) (of_nat x) (of_nat y) st = Inl Undef"
  using ili.draw_string_undrawable [OF assms(2,3), of st ili9341_base x y tail c l] assms
  by (simp add: lcd_ok_def ili9341_base_draw)

theorem DrawString_undrawable_witness:
  "LcdTouch_DrawString (Font blank_bitmaps) ([0x41] @ [0x4A, 0x6F, 0x62, 0]) 10 10 lcd_up = Inl Undef"
  using DrawString_undrawable [OF lcd_up_ok blank_bitmaps_ok, where cs = "[0x41]" and x = 10 and y = 10
      and tail = "[0x4A, 0x6F, 0x62, 0]" and c = "0x4A" and l = 1]
  by (simp add: drawable_def supported_def utf8_encode_def undrawable_def GetUnicode_ascii)

text \<open>The bus traffic of a draw, up to the pixels, when the bus accepts the address commands.\<close>

lemma draw_bitmap_pixels:
  assumes "dev_panel w = Some p" "x_gap p = 0" "y_gap p = 0" "fb_bits_per_pixel p = 16" "xs < xe" "ys < ye" "draw_fits p xs ys xe ye"
    and "tx_ret w (length (io_log w)) = ESP_OK" "tx_ret w (length (io_log w) + 1) = ESP_OK"
    and "w1 = io_emit (caset LCD_CMD_RASET ys ye) (io_emit (caset LCD_CMD_CASET xs xe) w)"
  shows "panel_ili9341_draw_bitmap xs ys xe ye cd w =
    bindR (tx_color LCD_CMD_RAMWR cd (nat (2 * ((xe - xs) * (ye - ys)))) w1) (\<lambda>(_, w). Inr (ESP_OK, w))"
proof -
  have "(xe - xs) * (ye - ys) * 16 div 8 = 2 * ((xe - xs) * (ye - ys))" by simp
  thus ?thesis
    using assms draw_bitmap_fits [OF assms(1,5-7)] by (simp add: tx_param_def Let_def caset_def)
qed

text \<open>
  C38. A refused transfer hangs the caller. When the bus takes the two address commands of the first
  strip but refuses its pixels, the driver reports success, no completion interrupt ever comes, and
  \<open>LcdTouch_ResetBackground\<close> waits for the semaphore for ever.
\<close>

theorem ResetBackground_refused_blocks:
  assumes "isInitDisplay st" "s_panelHandle st = Some ili9341_base" "ili_ready (dev st)" "\<not> irq_pending (dev st)"
    and "n = length (io_log (dev st))" "sem_ret (dev st) n" "calloc_ret (dev st) (n + 1)"
    and "tx_ret (dev st) (n + 2) = ESP_OK" "tx_ret (dev st) (n + 3) = ESP_OK" "tx_ret (dev st) (n + 4) \<noteq> ESP_OK"
  shows "LcdTouch_ResetBackground st = Inl Blocked"
proof -
  define w where "w = io_emit (Calloc 9600 True) (io_emit (SemCreate True) (dev st))"
  define st0 where "st0 = st\<lparr>dev := w, refresh_finish := SemLive False\<rparr>"
  define w1 where "w1 = io_emit (caset LCD_CMD_RASET 0 15) (io_emit (caset LCD_CMD_CASET 0 320) w)"
  obtain buf where buf: "fill_buf (s_backgroud_color st) 9600 0 (replicate 9600 0) = Inr buf" "length buf = 9600"
    using fill_buf_ok [of "replicate 9600 0" 4800 0 "s_backgroud_color st"] by auto
  obtain p where p: "dev_panel w = Some p" "x_gap p = 0" "y_gap p = 0" "fb_bits_per_pixel p = 16"
    using assms(3) by (auto simp: ili_ready_def w_def split: option.splits)
  let ?w = "io_emit (TxColor LCD_CMD_RAMWR buf) w1"
  have "length (io_log w) = n + 2" "n + 2 + 1 = n + 3" "tx_ret w = tx_ret (dev st)" by (simp_all add: w_def assms(5))
  hence tx: "tx_ret w (length (io_log w)) = ESP_OK" "tx_ret w (length (io_log w) + 1) = ESP_OK"
    using assms(8,9) by (simp_all only:)
  have "length (io_log w1) = n + 4" "tx_ret w1 = tx_ret (dev st)" "irq_pending w1 = irq_pending (dev st)"
    by (simp_all add: w1_def w_def assms(5))
  hence refused: "tx_ret w1 (length (io_log w1)) \<noteq> ESP_OK" "\<not> irq_pending w1"
    using assms(4,10) by (simp_all only: not_False_eq_True)
  have "panel_ili9341_draw_bitmap 0 0 320 15 (Some buf) w = Inr (ESP_OK, ?w\<lparr>irq_pending := False\<rparr>)"
    using draw_bitmap_pixels [OF p _ _ _ tx, of 0 320 0 15 w1 "Some buf"] refused buf(2) p(2-4)
    by (simp add: draw_fits_def w1_def tx_color_def Let_def)
  hence "fill_strips (Some ili9341_base) 15 buf 0 st0 = Inl Blocked"
    by (subst fill_strips.simps)
      (simp add: lcd_config_defs check_dev_def esp_lcd_panel_draw_bitmap_def ili9341_base_draw st0_def take_refresh_finish_def)
  thus ?thesis
    using assms(1,2,5-7) buf(1)
    by (cases st) (simp add: LcdTouch_ResetBackground_def LcdToudh_FillBackground_def create_refresh_finish_def sem_create_def
        heap_calloc_def lcd_config_defs st0_def w_def Let_def)
qed

theorem ResetBackground_refused_blocks_witness:
  "LcdTouch_ResetBackground (lcd_up\<lparr>dev := demo_dev\<lparr>tx_ret := (\<lambda>n. if n = 4 then ESP_FAIL else ESP_OK)\<rparr>\<rparr>) = Inl Blocked"
  by (rule ResetBackground_refused_blocks [where n = 0])
    (simp_all add: lcd_up_def demo_dev_def demo_panel_def ili_ready_def)

lemma row_fits:
  assumes "x_gap p = 0" "y_gap p = 0" "fb_bits_per_pixel p = 16" "x < 65536" "y < 65536" "w < 65536"
  shows "draw_fits p (int x) (int y) (int x + int w) (int y + 1)"
  using assms by (auto simp: draw_fits_def)

lemma draw_image_null:
  assumes "ili_ready (dev st)" "data_buf im = None" "0 < unat (width_px im)" "0 < unat (height_px im)"
    and "n = length (io_log (dev st))" "sem_ret (dev st) n" "tx_ret (dev st) (n + 1) = ESP_OK" "tx_ret (dev st) (n + 2) = ESP_OK"
  shows "LcdToudh_DrawImageData (Some ili9341_base) im st = Inl Undef"
proof -
  define st0 where "st0 = st\<lparr>dev := io_emit (SemCreate True) (dev st), refresh_finish := SemLive False\<rparr>"
  let ?x = "unat (start_x_pos im)" and ?y = "unat (start_y_pos im)" and ?w = "unat (width_px im)"
  define w1 where "w1 = io_emit (caset LCD_CMD_RASET (int ?y) (int ?y + 1))
    (io_emit (caset LCD_CMD_CASET (int ?x) (int ?x + int ?w)) (dev st0))"
  obtain p where p: "dev_panel (dev st0) = Some p" "x_gap p = 0" "y_gap p = 0" "fb_bits_per_pixel p = 16"
    using assms(1) by (auto simp: ili_ready_def st0_def split: option.splits)
  have "length (io_log (dev st0)) = n + 1" "n + 1 + 1 = n + 2" "tx_ret (dev st0) = tx_ret (dev st)"
    by (simp_all add: st0_def assms(5))
  hence tx: "tx_ret (dev st0) (length (io_log (dev st0))) = ESP_OK" "tx_ret (dev st0) (length (io_log (dev st0)) + 1) = ESP_OK"
    using assms(7,8) by (simp_all only:)
  have "panel_ili9341_draw_bitmap (int ?x) (int ?y) (int ?x + int ?w) (int ?y + 1) None (dev st0) = Inl Undef"
  proof (subst draw_bitmap_pixels [OF p _ _ _ tx w1_def])
    show "int ?x < int ?x + int ?w" "int ?y < int ?y + 1" using assms(3) by linarith+
    show "draw_fits p (int ?x) (int ?y) (int ?x + int ?w) (int ?y + 1)"
      using unsigned_less [where 'a = nat and 'b = 16] by (intro row_fits [OF p(2-4)]) (simp_all del: unsigned_less)
  qed (simp add: tx_color_def)
  hence "draw_rows (Some ili9341_base) im (?y + unat (height_px im)) ?y 0 st0 = Inl Undef"
    using assms(2,4) by (subst draw_rows.simps)
      (simp add: check_dev_def esp_lcd_panel_draw_bitmap_def ili9341_base_draw add.commute)
  thus ?thesis
    using assms(5,6)
    by (simp add: LcdToudh_DrawImageData_def create_refresh_finish_def sem_create_def st0_def Let_def)
qed

text \<open>
  Out of memory. When the allocation of a glyph's pixels fails, the glyph's size has already been
  stored, so \<open>LcdTouch_DrawText\<close> goes on to send that many pixels from the null pointer.
\<close>

lemma DrawText_no_memory:
  assumes "ili_ready (dev st)" "c_read (ft_chars font) (unat (td_fontIndex td)) = Inr ch" "ch_image ch = Some img"
    and "image_ok img" "n = length (io_log (dev st))" "\<not> calloc_ret (dev st) n" "sem_ret (dev st) (n + 1)"
    and "tx_ret (dev st) (n + 2) = ESP_OK" "tx_ret (dev st) (n + 3) = ESP_OK"
  shows "LcdTouch_DrawText font (Some ili9341_base) td st = Inl Undef"
proof -
  have "LcdToudh_DrawImageData (Some ili9341_base) im (st\<lparr>dev := io_emit (Calloc k False) (dev st)\<rparr>) = Inl Undef"
    if "data_buf im = None" "width_px im = ti_width img" "height_px im = ti_height img" for im k
    using that assms(1,4,5,7-9)
    by (intro draw_image_null [where n = "n + 1"]) (simp_all add: ili_ready_def image_ok_def numeral_2_eq_2 numeral_3_eq_3)
  thus ?thesis
    using assms(2,3,5,6)
    by (simp add: LcdTouch_DrawText_def LcdTouch_GetFontImageData_def heap_calloc_def Let_def)
qed

end
