(* ===== verification/Lcd_Keeps.thy ===== *)
theory Lcd_Keeps
  imports Lcd_Touch
begin

text \<open>
  Invariants of the device that hold whatever the hardware answers. \<open>panel_keeps\<close> states what such an
  invariant has to satisfy: the panel's operations keep it, and so do the calls the module makes itself.
  Then every function of \<open>lcd_touch.c\<close> that returns keeps it.
\<close>

subsection \<open>The contract\<close>

text \<open>The events the drawing functions add to the log themselves.\<close>

fun own_event :: "io_ev \<Rightarrow> bool" where
  "own_event (Calloc n ok) = True"
| "own_event Free = True"
| "own_event (SemCreate ok) = True"
| "own_event SemDelete = True"
| "own_event (GpioSetLevel pin level) = (pin = int LT_PIN_NUM_BK_LIGHT)"
| "own_event _ = False"

locale panel_keeps =
  fixes P :: "'d lcd_panel \<Rightarrow> bool" and I :: "'d io_world_scheme \<Rightarrow> bool"
  assumes draw_keeps: "P p \<Longrightarrow> I w \<Longrightarrow> pn_draw_bitmap p xs ys xe ye cd w = Inr (e, w') \<Longrightarrow> I w'"
    and disp_keeps: "P p \<Longrightarrow> I w \<Longrightarrow> pn_disp_on_off p b w = Inr (e, w') \<Longrightarrow> I w'"
    and emit_keeps: "I w \<Longrightarrow> own_event ev \<Longrightarrow> I (io_emit ev w)"
    and irq_keeps: "I w \<Longrightarrow> I (w\<lparr>irq_pending := q\<rparr>)"

text \<open>The module's state: the device satisfies the invariant, and the handle, if there is one, is such a panel.\<close>

definition dev_inv :: "('d lcd_panel \<Rightarrow> bool) \<Rightarrow> ('d io_world_scheme \<Rightarrow> bool) \<Rightarrow> ('d, 'a) lcd_state_scheme \<Rightarrow> bool" where
  "dev_inv P I st \<longleftrightarrow> I (dev st) \<and> pred_option P (s_panelHandle st)"

lemma dev_inv_upd [simp]:
  "dev_inv P I (st\<lparr>refresh_finish := r\<rparr>) = dev_inv P I st"
  "dev_inv P I (st\<lparr>s_backgroud_color := c\<rparr>) = dev_inv P I st"
  "dev_inv P I (st\<lparr>isTouchOccurred := t\<rparr>) = dev_inv P I st"
  "dev_inv P I (st\<lparr>s_touch_callback_f := f\<rparr>) = dev_inv P I st"
  by (simp_all add: dev_inv_def)

subsection \<open>Every function keeps it\<close>

context panel_keeps begin

lemma create_keeps: "create_refresh_finish st = (ok, st') \<Longrightarrow> dev_inv P I st \<Longrightarrow> dev_inv P I st'"
  by (auto simp: create_refresh_finish_def sem_create_def Let_def dev_inv_def emit_keeps)

lemma delete_keeps: "dev_inv P I st \<Longrightarrow> dev_inv P I (delete_refresh_finish st)"
  by (simp add: delete_refresh_finish_def dev_inv_def emit_keeps)

lemma take_keeps: "take_refresh_finish st = Inr st' \<Longrightarrow> dev_inv P I st \<Longrightarrow> dev_inv P I st'"
  by (auto simp: take_refresh_finish_def LcdTouch_NotifyRefreshReady_def dev_inv_def irq_keeps split: sem.splits if_splits)

lemma free_keeps: "dev_inv P I st \<Longrightarrow> dev_inv P I (st\<lparr>dev := io_emit Free (dev st)\<rparr>)"
  by (simp add: dev_inv_def emit_keeps)

lemma calloc_keeps: "heap_calloc n w = (m, w') \<Longrightarrow> I w \<Longrightarrow> I w'"
  by (auto simp: heap_calloc_def Let_def emit_keeps)

lemma check_draw_keeps:
  assumes "check_dev (esp_lcd_panel_draw_bitmap h xs ys xe ye cd) st = Inr st'" "dev_inv P I st" "pred_option P h"
  shows "dev_inv P I st'"
  using assms draw_keeps
  by (cases h) (auto simp: check_dev_def esp_lcd_panel_draw_bitmap_def on_handle_def bindR_eq_Inr_iff
      ESP_ERROR_CHECK_def dev_inv_def split: if_splits)

lemma check_disp_keeps:
  assumes "check_dev (on_handle (\<lambda>p. pn_disp_on_off p b) h) st = Inr st'" "dev_inv P I st" "pred_option P h"
  shows "dev_inv P I st'"
  using assms disp_keeps
  by (cases h) (auto simp: check_dev_def on_handle_def bindR_eq_Inr_iff ESP_ERROR_CHECK_def dev_inv_def split: if_splits)

lemma strips_keep:
  assumes "fill_strips h rl buf j st = Inr st'" "dev_inv P I st" "pred_option P h"
  shows "dev_inv P I st'"
  using assms
proof (induction h rl buf j st rule: fill_strips.induct)
  case (1 h rl buf j st)
  show ?case
  proof (cases "j < LT_LCD_BIT_PER_PIXEL")
    case False
    thus ?thesis using 1(2,3) by (simp add: fill_strips.simps [of h rl buf j st])
  next
    case True
    let ?draw = "esp_lcd_panel_draw_bitmap h 0 (int (j * rl)) (int LT_LCD_H_RES) (int ((j + 1) * rl)) (Some buf)"
    have "bindR (check_dev ?draw st) (\<lambda>st. bindR (take_refresh_finish st) (fill_strips h rl buf (j + 1))) = Inr st'"
      using 1(2) unfolding fill_strips.simps [of h rl buf j st] if_P [OF True] .
    then obtain st1 st2 where run: "check_dev ?draw st = Inr st1" "take_refresh_finish st1 = Inr st2"
      "fill_strips h rl buf (j + 1) st2 = Inr st'"
      unfolding bindR_eq_Inr_iff by blast
    have "dev_inv P I st2" by (rule take_keeps [OF run(2) check_draw_keeps [OF run(1) 1(3,4)]])
    thus ?thesis by (rule 1(1) [OF True run(1,2,3) _ 1(4)])
  qed
qed

lemma fill_keeps:
  assumes "LcdToudh_FillBackground h c st = Inr st'" "dev_inv P I st" "pred_option P h"
  shows "dev_inv P I st'"
proof -
  obtain ok st1 where c: "create_refresh_finish st = (ok, st1)" by fastforce
  have st1: "dev_inv P I st1" by (rule create_keeps [OF c assms(2)])
  obtain m w where m: "heap_calloc (LT_LCD_V_RES div LT_LCD_BIT_PER_PIXEL * LT_LCD_H_RES * (LT_LCD_BIT_PER_PIXEL div 8)) (dev st1) = (m, w)"
    by fastforce
  have st2: "dev_inv P I (st1\<lparr>dev := w\<rparr>)" using calloc_keeps [OF m] st1 by (simp add: dev_inv_def)
  show ?thesis
    using assms(1,3) st1 st2 m
    by (auto simp: LcdToudh_FillBackground_def c Let_def bindR_eq_Inr_iff split: if_splits option.splits
        intro!: delete_keeps free_keeps dest: strips_keep)
qed

lemma rows_keep:
  assumes "draw_rows h im n i k st = Inr st'" "dev_inv P I st" "pred_option P h"
  shows "dev_inv P I st'"
  using assms
proof (induction h im n i k st rule: draw_rows.induct)
  case (1 h im n i k st)
  show ?case
  proof (cases "i < n")
    case False
    thus ?thesis using 1(2,3) by (simp add: draw_rows.simps [of h im n i k st])
  next
    case True
    let ?draw = "esp_lcd_panel_draw_bitmap h (int (unat (start_x_pos im))) (int i)
      (int (unat (start_x_pos im) + unat (width_px im))) (int (i + 1)) (map_option (drop k) (data_buf im))"
    have "bindR (check_dev ?draw st) (\<lambda>st. bindR (take_refresh_finish st) (\<lambda>st.
        draw_rows h im n (i + 1) (k + unat (width_px im) * (LT_LCD_BIT_PER_PIXEL div 8)) st)) = Inr st'"
      using 1(2) unfolding draw_rows.simps [of h im n i k st] if_P [OF True] .
    then obtain st1 st2 where run: "check_dev ?draw st = Inr st1" "take_refresh_finish st1 = Inr st2"
      "draw_rows h im n (i + 1) (k + unat (width_px im) * (LT_LCD_BIT_PER_PIXEL div 8)) st2 = Inr st'"
      unfolding bindR_eq_Inr_iff by blast
    have "dev_inv P I st2" by (rule take_keeps [OF run(2) check_draw_keeps [OF run(1) 1(3,4)]])
    thus ?thesis by (rule 1(1) [OF True run(1,2,3) _ 1(4)])
  qed
qed

lemma image_keeps:
  assumes "LcdToudh_DrawImageData h im st = Inr st'" "dev_inv P I st" "pred_option P h"
  shows "dev_inv P I st'"
proof -
  obtain ok st1 where c: "create_refresh_finish st = (ok, st1)" by fastforce
  show ?thesis
    using assms create_keeps [OF c]
    by (auto simp: LcdToudh_DrawImageData_def c bindR_eq_Inr_iff split: if_splits intro!: delete_keeps dest: rows_keep)
qed

lemma glyph_keeps:
  assumes "LcdTouch_GetFontImageData font im i st = Inr (im', st')" "dev_inv P I st"
  shows "dev_inv P I st'"
proof -
  obtain ch where ch: "c_read (ft_chars font) (unat i) = Inr ch"
    using assms(1) by (auto simp: LcdTouch_GetFontImageData_def bindR_eq_Inr_iff)
  have "st' = st \<or> (\<exists>n. st' = st\<lparr>dev := snd (heap_calloc n (dev st))\<rparr>)"
  proof (cases "ch_image ch")
    case None
    thus ?thesis using assms(1) ch by (simp add: LcdTouch_GetFontImageData_def)
  next
    case (Some img)
    thus ?thesis
      using assms(1)
      by (simp add: LcdTouch_GetFontImageData_def ch Let_def case_prod_beta' del: expand.simps split: option.split_asm)
        (auto simp: bindR_eq_Inr_iff)
  qed
  moreover have "I (snd (heap_calloc n (dev st)))" for n
    using assms(2) calloc_keeps [OF prod.collapse [symmetric]] by (simp add: dev_inv_def)
  ultimately show ?thesis using assms(2) by (auto simp: dev_inv_def)
qed

lemma draw_text_keeps:
  assumes "LcdTouch_DrawText font h td st = Inr (td', st')" "dev_inv P I st" "pred_option P h"
  shows "dev_inv P I st'"
proof -
  obtain im st1 st2 where run:
    "LcdTouch_GetFontImageData font \<lparr>im_color = td_color td, data_buf = None, buf_len = 0, start_x_pos = td_start_x_pos td,
       start_y_pos = td_start_y_pos td, width_px = 0, height_px = 0\<rparr> (td_fontIndex td) st = Inr (im, st1)"
    "LcdToudh_DrawImageData h im st1 = Inr st2" "st' = (if data_buf im \<noteq> None then st2\<lparr>dev := io_emit Free (dev st2)\<rparr> else st2)"
    using assms(1) by (auto simp: LcdTouch_DrawText_def bindR_eq_Inr_iff Let_def split: if_splits)
  have "dev_inv P I st2" by (rule image_keeps [OF run(2) glyph_keeps [OF run(1) assms(2)] assms(3)])
  thus ?thesis unfolding run(3) by (simp add: free_keeps)
qed

lemma chars_keep:
  assumes "draw_chars font str n i td st = Inr st'" "dev_inv P I st"
  shows "dev_inv P I st'"
  using assms
proof (induction font str n i td st rule: draw_chars.induct)
  case (1 font str n i td st)
  have h: "pred_option P (s_panelHandle st)" using 1(3) by (simp add: dev_inv_def)
  show ?case
  proof (cases "i < n")
    case False
    thus ?thesis using 1(2,3) by (simp add: draw_chars.simps [of font str n i td st])
  next
    case True
    let ?text = "\<lambda>u. LcdTouch_DrawText font (s_panelHandle st) (td\<lparr>td_fontIndex := LcdTouch_GetFontIndexOfUnicode u\<rparr>) st"
    have "bindR (ParserChar_GetUnicode (drop i str)) (\<lambda>(u, len). bindR (?text u) (\<lambda>(td, st).
        draw_chars font str n (i + unat len) (advance td) st)) = Inr st'"
      using 1(2) unfolding draw_chars.simps [of font str n i td st] if_P [OF True] .
    then obtain u len td1 st1 where run: "ParserChar_GetUnicode (drop i str) = Inr (u, len)" "?text u = Inr (td1, st1)"
      "draw_chars font str n (i + unat len) (advance td1) st1 = Inr st'"
      by (auto simp: bindR_eq_Inr_iff)
    have "dev_inv P I st1" by (rule draw_text_keeps [OF run(2) 1(3) h])
    thus ?thesis by (rule 1(1) [OF True run(1) refl run(2) refl run(3)])
  qed
qed

lemma draw_string_keeps: "LcdTouch_DrawString font str x y st = Inr st' \<Longrightarrow> dev_inv P I st \<Longrightarrow> dev_inv P I st'"
  by (auto simp: LcdTouch_DrawString_def bindR_eq_Inr_iff Let_def split: if_splits dest: chars_keep)

lemma reset_background_keeps: "LcdTouch_ResetBackground st = Inr st' \<Longrightarrow> dev_inv P I st \<Longrightarrow> dev_inv P I st'"
  by (auto simp: LcdTouch_ResetBackground_def split: if_splits dest: fill_keeps simp: dev_inv_def)

lemma light_keeps: "dev_inv P I st \<Longrightarrow> dev_inv P I (gpio_set_level (int LT_PIN_NUM_BK_LIGHT) b st)"
  by (simp add: gpio_set_level_def dev_inv_def emit_keeps)

lemma turn_keeps:
  "LcdTouch_TurnOn st = Inr st' \<Longrightarrow> dev_inv P I st \<Longrightarrow> dev_inv P I st'"
  "LcdTouch_TurnOff st = Inr st' \<Longrightarrow> dev_inv P I st \<Longrightarrow> dev_inv P I st'"
  using check_disp_keeps [of _ "s_panelHandle st" st]
  by (auto simp: LcdTouch_TurnOn_def LcdTouch_TurnOff_def bindR_eq_Inr_iff split: if_splits intro!: light_keeps)
    (auto simp: dev_inv_def [of P I st])

lemmas module_keeps = draw_string_keeps reset_background_keeps turn_keeps

end

end
