(* ===== verification/Audio_Stream.thy ===== *)
theory Audio_Stream
  imports TV_Prelude
begin

text \<open>
  \<open>components/audioStream/audio_stream.c\<close>. The objects it creates belong to ESP-ADF; the model keeps for
  each of the module's handles whether it is null, live or destroyed, and logs the calls. ADF does
  not check its handles, so a call on a null or destroyed one is an access outside an object.
\<close>

subsection \<open>Handles and calls\<close>

datatype au_obj = Pipeline | HttpReader | Mp3Decoder | I2sWriter | PeriphSet | WifiPeriph | Evt

datatype handle = HNull | HLive | HDead

datatype au_call =
    AuCreate au_obj
  | AuDestroy au_obj
  | AuRegister au_obj string
  | AuUnregister au_obj
  | AuLink "string list"
  | AuSetUri string
  | AuPeriphStart
  | AuWaitWifi
  | AuSetListener
  | AuSetPeriphListener
  | AuRemoveListener
  | AuRemovePeriphListener
  | AuStopPeriphs
  | AuStop
  | AuWaitStop
  | AuTerminate
  | AuResetRingbuffer
  | AuResetElements
  | AuStateInit
  | AuRun
  | AuListen
  | AuGetInfo
  | AuSetClk int int int

text \<open>The handles a call works on.\<close>

primrec au_uses :: "au_call \<Rightarrow> au_obj list" where
  "au_uses (AuCreate x) = []"
| "au_uses (AuDestroy x) = [x]"
| "au_uses (AuRegister x tag) = [Pipeline, x]"
| "au_uses (AuUnregister x) = [Pipeline, x]"
| "au_uses (AuLink tags) = [Pipeline]"
| "au_uses (AuSetUri uri) = [HttpReader]"
| "au_uses AuPeriphStart = [PeriphSet, WifiPeriph]"
| "au_uses AuWaitWifi = [WifiPeriph]"
| "au_uses AuSetListener = [Pipeline, Evt]"
| "au_uses AuSetPeriphListener = [PeriphSet, Evt]"
| "au_uses AuRemoveListener = [Pipeline]"
| "au_uses AuRemovePeriphListener = [PeriphSet, Evt]"
| "au_uses AuStopPeriphs = [PeriphSet]"
| "au_uses AuStop = [Pipeline]"
| "au_uses AuWaitStop = [Pipeline]"
| "au_uses AuTerminate = [Pipeline]"
| "au_uses AuResetRingbuffer = [Pipeline]"
| "au_uses AuResetElements = [Pipeline]"
| "au_uses AuStateInit = [Pipeline]"
| "au_uses AuRun = [Pipeline]"
| "au_uses AuListen = [Evt]"
| "au_uses AuGetInfo = [Mp3Decoder]"
| "au_uses (AuSetClk rate bits ch) = [I2sWriter]"

subsection \<open>State\<close>

datatype au_cmd = REPORT_MUSIC_INFO | REPORT_STATUS | OTHER_CMD nat
datatype au_status = STATE_STOPPED | STATE_FINISHED | OTHER_STATUS nat

record au_msg =
  from_element :: bool
  msg_source :: "au_obj option"
  msg_cmd :: au_cmd
  msg_status :: au_status

record music_info =
  sample_rates :: int
  info_bits :: int
  info_channels :: int

text \<open>
  The parameters: whether the \<open>n\<close>th call, if it creates something, succeeds; whether the network comes
  up; what listening answers at the \<open>n\<close>th call (\<open>None\<close>: no event ever comes); and the music data.
\<close>

record audio_state =
  au_log :: "au_call list"
  handles :: "au_obj \<Rightarrow> handle"
  s_isInitAudioStream :: bool
  au_create_ret :: "nat \<Rightarrow> bool"
  wifi_comes_up :: bool
  au_events :: "nat \<Rightarrow> (esp_err_t \<times> au_msg) option"
  au_music :: "nat \<Rightarrow> music_info"

text \<open>Destroying the set of peripherals destroys the peripheral that was started in it.\<close>

definition au_do :: "au_call \<Rightarrow> 'a audio_state_scheme \<Rightarrow> 'a audio_state_scheme run" where
  "au_do c s =
     (if list_all (\<lambda>x. handles s x = HLive) (au_uses c)
      then Inr (s\<lparr>au_log := au_log s @ [c], handles :=
        (case c of
           AuCreate x \<Rightarrow> (handles s)(x := (if au_create_ret s (length (au_log s)) then HLive else HNull))
         | AuDestroy x \<Rightarrow> (\<lambda>y. if y = x \<or> x = PeriphSet \<and> y = WifiPeriph then HDead else handles s y)
         | _ \<Rightarrow> handles s)\<rparr>)
      else Inl Undef)"

abbreviation au_calls :: "au_call list \<Rightarrow> 'a audio_state_scheme \<Rightarrow> 'a audio_state_scheme run" where
  "au_calls \<equiv> run_ops au_do"

subsection \<open>The operations\<close>

definition AUDIO_STREAM_URI :: string where
  "AUDIO_STREAM_URI = ''http://172.30.1.13:8080/audio.mp3''"

definition AudioStream_Init :: "'a audio_state_scheme \<Rightarrow> 'a audio_state_scheme run" where
  "AudioStream_Init s =
     bindR (au_do (AuCreate Pipeline) s) (\<lambda>s.
     if handles s Pipeline = HNull then Inl Abort else
     bindR (au_calls
       [AuCreate HttpReader,
        AuCreate Mp3Decoder,
        AuCreate I2sWriter,
        AuRegister HttpReader ''http'',
        AuRegister Mp3Decoder ''mp3'',
        AuRegister I2sWriter ''i2s'',
        AuLink [''http'', ''mp3'', ''i2s''],
        AuSetUri AUDIO_STREAM_URI,
        AuCreate PeriphSet,
        AuCreate WifiPeriph,
        AuPeriphStart] s) (\<lambda>s.
     bindR (au_do AuWaitWifi s) (\<lambda>s.
     if \<not> wifi_comes_up s then Inl Blocked else
     bindR (au_calls
       [AuCreate Evt,
        AuSetListener,
        AuSetPeriphListener] s) (\<lambda>s.
     Inr (s\<lparr>s_isInitAudioStream := True\<rparr>)))))"

definition AudioStream_Deinit :: "'a audio_state_scheme \<Rightarrow> 'a audio_state_scheme run" where
  "AudioStream_Deinit s =
     (if \<not> s_isInitAudioStream s then Inr s
      else bindR (au_calls
        [AuStop,
         AuWaitStop,
         AuTerminate,
         AuUnregister HttpReader,
         AuUnregister I2sWriter,
         AuUnregister Mp3Decoder,
         AuRemoveListener,
         AuStopPeriphs,
         AuRemovePeriphListener,
         AuDestroy Evt,
         AuDestroy Pipeline,
         AuDestroy HttpReader,
         AuDestroy I2sWriter,
         AuDestroy Mp3Decoder,
         AuDestroy PeriphSet] s) (\<lambda>s.
      Inr (s\<lparr>s_isInitAudioStream := True\<rparr>)))"

definition AudioStream_Run :: "'a audio_state_scheme \<Rightarrow> 'a audio_state_scheme run" where
  "AudioStream_Run s =
     (if \<not> s_isInitAudioStream s then Inr s
      else au_calls
        [AuStop,
         AuWaitStop,
         AuResetRingbuffer,
         AuResetElements,
         AuStateInit,
         AuRun] s)"

text \<open>The branches that only print are the ones that end in \<open>Inr s\<close>.\<close>

definition AudioStream_Task :: "'a audio_state_scheme \<Rightarrow> 'a audio_state_scheme run" where
  "AudioStream_Task s =
     (if \<not> s_isInitAudioStream s then Inr s
      else
      let answer = au_events s (length (au_log s)) in
      bindR (au_do AuListen s) (\<lambda>s.
      case answer of
        None \<Rightarrow> Inl Blocked
      | Some (ret, msg) \<Rightarrow>
          if ret \<noteq> ESP_OK then Inr s
          else if from_element msg \<and> msg_source msg = Some Mp3Decoder \<and> msg_cmd msg = REPORT_MUSIC_INFO then
            let info = au_music s (length (au_log s)) in
            au_calls [AuGetInfo, AuSetClk (sample_rates info) (info_bits info) (info_channels info)] s
          else Inr s))"

subsection \<open>Lemmas\<close>

definition audio_ready :: "'a audio_state_scheme \<Rightarrow> bool" where
  "audio_ready s \<longleftrightarrow> s_isInitAudioStream s \<and> (\<forall>x. handles s x = HLive)"

lemma au_do_live:
  assumes "audio_ready s" "\<nexists>x. c = AuCreate x" "\<nexists>x. c = AuDestroy x"
  shows "au_do c s = Inr (s\<lparr>au_log := au_log s @ [c]\<rparr>)" "audio_ready (s\<lparr>au_log := au_log s @ [c]\<rparr>)"
  using assms by (cases c; simp add: au_do_def audio_ready_def)+

lemma au_calls_live:
  assumes "audio_ready s" "\<forall>c \<in> set cs. (\<nexists>x. c = AuCreate x) \<and> (\<nexists>x. c = AuDestroy x)"
  shows "au_calls cs s = Inr (s\<lparr>au_log := au_log s @ cs\<rparr>)"
  using assms
proof (induction cs arbitrary: s)
  case (Cons c cs)
  thus ?case using au_do_live [OF Cons.prems(1), of c] by simp
qed simp

lemma audio_ready_log: "audio_ready (s\<lparr>au_log := l\<rparr>) = audio_ready s"
  by (simp add: audio_ready_def)

datatype audio_op = OpRun | OpTask

primrec audio_step :: "audio_op \<Rightarrow> 'a audio_state_scheme \<Rightarrow> 'a audio_state_scheme run" where
  "audio_step OpRun s = AudioStream_Run s"
| "audio_step OpTask s = AudioStream_Task s"

text \<open>The calls of one \<open>AudioStream_Run\<close>.\<close>

definition restart_calls :: "au_call list" where
  "restart_calls = [AuStop, AuWaitStop, AuResetRingbuffer, AuResetElements, AuStateInit, AuRun]"

lemma Run_ready:
  "audio_ready s \<Longrightarrow> AudioStream_Run s = Inr (s\<lparr>au_log := au_log s @ restart_calls\<rparr>)"
  by (simp add: AudioStream_Run_def restart_calls_def au_calls_live audio_ready_def del: run_ops.simps)

lemma Task_event_ready:
  assumes "audio_ready s" "au_events s (length (au_log s)) = Some ev"
  shows "\<exists>l. AudioStream_Task s = Inr (s\<lparr>au_log := au_log s @ l\<rparr>)"
proof -
  have "au_calls [AuGetInfo, AuSetClk a b c] (s\<lparr>au_log := au_log s @ [AuListen]\<rparr>) =
      Inr (s\<lparr>au_log := au_log s @ [AuListen, AuGetInfo, AuSetClk a b c]\<rparr>)" for a b c
    using assms by (subst au_calls_live) (simp_all add: audio_ready_log)
  moreover have "au_do AuListen s = Inr (s\<lparr>au_log := au_log s @ [AuListen]\<rparr>)"
    using au_do_live(1) [OF assms(1), of AuListen] by simp
  ultimately show ?thesis
    using assms by (cases ev) (auto simp: AudioStream_Task_def audio_ready_def Let_def simp del: run_ops.simps)
qed

lemma Task_ready:
  assumes "audio_ready s"
  shows "AudioStream_Task s = Inl Blocked \<or> (\<exists>l. AudioStream_Task s = Inr (s\<lparr>au_log := au_log s @ l\<rparr>))"
proof (cases "au_events s (length (au_log s))")
  case None
  thus ?thesis
    using assms au_do_live(1) [OF assms, of AuListen] by (simp add: AudioStream_Task_def audio_ready_def Let_def)
next
  case (Some ev)
  thus ?thesis using Task_event_ready [OF assms Some] by blast
qed

interpretation audio: safe_ops audio_step audio_ready
proof
  fix s s' :: "'a audio_state_scheme" and x e
  show "audio_ready s \<Longrightarrow> audio_step x s = Inr s' \<Longrightarrow> audio_ready s'"
    using Task_ready [of s] by (cases x) (auto simp: Run_ready audio_ready_log)
  show "audio_ready s \<Longrightarrow> audio_step x s = Inl e \<Longrightarrow> e = Blocked"
    using Task_ready [of s] by (cases x) (auto simp: Run_ready)
qed

lemma Init_calls:
  assumes "\<forall>n. au_create_ret s n" "wifi_comes_up s"
  shows "\<exists>l. AudioStream_Init s =
    Inr (s\<lparr>au_log := au_log s @ l, handles := (\<lambda>_. HLive), s_isInitAudioStream := True\<rparr>)"
proof -
  have all: "h(Pipeline := HLive, HttpReader := HLive, Mp3Decoder := HLive, I2sWriter := HLive,
      PeriphSet := HLive, WifiPeriph := HLive, Evt := HLive) = (\<lambda>_. HLive)" for h :: "au_obj \<Rightarrow> handle"
  proof
    fix x show "(h(Pipeline := HLive, HttpReader := HLive, Mp3Decoder := HLive, I2sWriter := HLive,
      PeriphSet := HLive, WifiPeriph := HLive, Evt := HLive)) x = HLive" by (cases x) simp_all
  qed
  show ?thesis
    using assms by (cases s) (simp add: AudioStream_Init_def au_do_def all)
qed

lemma all_objects:
  "(\<forall>x. P x) \<longleftrightarrow> P Pipeline \<and> P HttpReader \<and> P Mp3Decoder \<and> P I2sWriter \<and> P PeriphSet \<and> P WifiPeriph \<and> P Evt"
  by (metis au_obj.exhaust)

subsection \<open>Properties\<close>

text \<open>
  C35. Playback is safe from initialisation on: when every object can be created and the network comes
  up, \<open>AudioStream_Init\<close> returns with the module initialised, and then any sequence of
  \<open>AudioStream_Run\<close> and \<open>AudioStream_Task\<close>, whatever events and stream data arrive, only ever works
  on live objects: it returns with everything still live, or waits for an event.
\<close>

theorem audio_safe_after_init:
  assumes "\<forall>n. au_create_ret s n" "wifi_comes_up s"
  shows "\<exists>s1. AudioStream_Init s = Inr s1 \<and> audio_ready s1 \<and>
    (run_ops audio_step ops s1 = Inl Blocked \<or> (\<exists>s2. run_ops audio_step ops s1 = Inr s2 \<and> audio_ready s2))"
proof -
  obtain l where "AudioStream_Init s =
      Inr (s\<lparr>au_log := au_log s @ l, handles := (\<lambda>_. HLive), s_isInitAudioStream := True\<rparr>)"
    using Init_calls [OF assms] by blast
  moreover have "audio_ready (s\<lparr>au_log := au_log s @ l, handles := (\<lambda>_. HLive), s_isInitAudioStream := True\<rparr>)"
    by (simp add: audio_ready_def)
  ultimately show ?thesis using audio.run_safe by blast
qed

definition audio_start :: audio_state where
  "audio_start = \<lparr>au_log = [], handles = (\<lambda>_. HNull), s_isInitAudioStream = False, au_create_ret = (\<lambda>_. True),
     wifi_comes_up = True,
     au_events = (\<lambda>_. Some (ESP_OK, \<lparr>from_element = True, msg_source = Some Mp3Decoder, msg_cmd = REPORT_MUSIC_INFO,
                             msg_status = OTHER_STATUS 0\<rparr>)),
     au_music = (\<lambda>_. \<lparr>sample_rates = 44100, info_bits = 16, info_channels = 2\<rparr>)\<rparr>"

lemma audio_start_ok: "\<forall>n. au_create_ret audio_start n" "wifi_comes_up audio_start"
  by (simp_all add: audio_start_def)

theorem audio_safe_after_init_witness:
  "\<exists>s1. AudioStream_Init audio_start = Inr s1 \<and> audio_ready s1 \<and>
    (run_ops audio_step [OpRun, OpTask, OpTask, OpRun] s1 = Inl Blocked \<or>
     (\<exists>s2. run_ops audio_step [OpRun, OpTask, OpTask, OpRun] s1 = Inr s2 \<and> audio_ready s2))"
  by (rule audio_safe_after_init [OF audio_start_ok])

text \<open>
  C36. But not after \<open>AudioStream_Deinit\<close>. In the initialised state it releases the event interface,
  the pipeline, its elements and the peripherals, all of them and none used after its release, yet leaves the
  module marked as initialised: the next \<open>AudioStream_Run\<close>, \<open>AudioStream_Task\<close> or
  \<open>AudioStream_Deinit\<close> works on destroyed objects.
\<close>

theorem audio_unsafe_after_deinit:
  assumes "audio_ready s"
  shows "\<exists>s'. AudioStream_Deinit s = Inr s' \<and> s_isInitAudioStream s' \<and>
    handles s' = (\<lambda>_. HDead) \<and>
    AudioStream_Run s' = Inl Undef \<and> AudioStream_Task s' = Inl Undef \<and> AudioStream_Deinit s' = Inl Undef"
proof -
  have live: "handles s = (\<lambda>_. HLive)" "s_isInitAudioStream s" using assms by (auto simp: audio_ready_def)
  have "\<exists>s'. AudioStream_Deinit s = Inr s' \<and> s_isInitAudioStream s' \<and> (\<forall>x. handles s' x = HDead)"
    using live by (auto simp: AudioStream_Deinit_def au_do_def all_objects)
  then obtain s' where s': "AudioStream_Deinit s = Inr s'" "s_isInitAudioStream s'" "handles s' = (\<lambda>_. HDead)" by auto
  have "AudioStream_Run s' = Inl Undef" "AudioStream_Task s' = Inl Undef" "AudioStream_Deinit s' = Inl Undef"
    using s'(2,3) by (simp_all add: AudioStream_Deinit_def AudioStream_Run_def AudioStream_Task_def au_do_def Let_def)
  with s' show ?thesis by blast
qed

theorem audio_unsafe_after_deinit_witness:
  "\<exists>s'. AudioStream_Deinit (audio_start\<lparr>handles := (\<lambda>_. HLive), s_isInitAudioStream := True\<rparr>) = Inr s' \<and>
    AudioStream_Run s' = Inl Undef"
  using audio_unsafe_after_deinit [of "audio_start\<lparr>handles := (\<lambda>_. HLive), s_isInitAudioStream := True\<rparr>"]
  by (auto simp: audio_ready_def)

end
