(* ===== verification/Http_Req.thy ===== *)
theory Http_Req
  imports C_String
begin

text \<open>
  \<open>components/http_request/http_req.c\<close>: one blocking HTTP exchange over a TCP socket. The
  socket library (lwIP) is a parameter: \<open>net_env\<close> holds what each of its calls returns. What the
  code asks of the library is recorded in \<open>net_log\<close>, so that the handling of the address list
  and of the socket can be stated.
\<close>

subsection \<open>The network and the module's state\<close>

datatype net_ev =
    EvGetaddrinfo bool             \<comment> \<open>did it produce an address list\<close>
  | EvFreeaddrinfo
  | EvSocket int
  | EvConnect int
  | EvWrite int "byte list"
  | EvSetRcvTimeout int nat
  | EvRead int nat                 \<comment> \<open>socket and room in the buffer\<close>
  | EvClose int

record net_env =
  ga_err :: int
  ga_res :: bool                   \<comment> \<open>\<open>res\<close> is not null\<close>
  socket_ret :: int
  connect_ret :: int
  write_ret :: int
  setsockopt_ret :: int
  read_ret :: "nat \<Rightarrow> nat \<Rightarrow> int \<times> byte list"   \<comment> \<open>the k-th \<open>read\<close> with room for n bytes\<close>

definition MAX_REC_BUFFER_SIZE :: nat where "MAX_REC_BUFFER_SIZE = 2048"

record http_state =
  g_recvBuf :: "byte list"
  net_log :: "net_ev list"

definition http_init :: http_state where
  "http_init = \<lparr>g_recvBuf = replicate MAX_REC_BUFFER_SIZE 0, net_log = []\<rparr>"

definition emit :: "net_ev \<Rightarrow> 'a http_state_scheme \<Rightarrow> 'a http_state_scheme" where
  "emit e st = st\<lparr>net_log := net_log st @ [e]\<rparr>"

text \<open>Storing the bytes that \<open>read\<close> delivers at \<open>buf + off\<close>.\<close>

definition store_at :: "byte list \<Rightarrow> nat \<Rightarrow> byte list \<Rightarrow> byte list run" where
  "store_at buf off d =
     (if off + length d \<le> length buf
      then Inr (take off buf @ d @ drop (off + length d) buf) else Inl Undef)"

subsection \<open>The receive loop\<close>

text \<open>
  \<open>recv_loop env s k st idx\<close>: the \<open>while\<close> loop with \<open>k\<close> reads done and \<open>g_recvIdx = idx\<close>. The
  index grows in every iteration and the loop is left at \<open>sizeof (g_recvBuf) - 1\<close>, so it
  terminates whatever the network delivers.
\<close>

function recv_loop ::
  "net_env \<Rightarrow> int \<Rightarrow> nat \<Rightarrow> 'a http_state_scheme \<Rightarrow> nat \<Rightarrow> (nat \<times> 'a http_state_scheme) run" where
  "recv_loop env s k st idx =
     (let room = MAX_REC_BUFFER_SIZE - idx - 1;
          rd = read_ret env k room;
          st = emit (EvRead s room) st in
      if fst rd > 0
      then bindR (store_at (g_recvBuf st) idx (snd rd)) (\<lambda>buf.
        let st = st\<lparr>g_recvBuf := buf\<rparr>; idx' = idx + nat (fst rd) in
        if idx' \<ge> MAX_REC_BUFFER_SIZE - 1 then Inr (idx', st)
        else recv_loop env s (Suc k) st idx')
      else Inr (idx, st))"
  by pat_completeness auto
termination
  by (relation "measure (\<lambda>(env, s, k, st, idx). MAX_REC_BUFFER_SIZE - idx)")
    (auto simp: MAX_REC_BUFFER_SIZE_def)

declare recv_loop.simps [simp del]

subsection \<open>The two entry points\<close>

definition HttpRequest_Req ::
  "net_env \<Rightarrow> byte list \<Rightarrow> byte list \<Rightarrow> byte list \<Rightarrow> 'a http_state_scheme \<Rightarrow>
     (bool \<times> 'a http_state_scheme) run" where
  "HttpRequest_Req env req server port st =
     (let ok = (ga_err env = 0 \<and> ga_res env); st = emit (EvGetaddrinfo ok) st in
      if ga_err env \<noteq> 0 \<or> \<not> ga_res env then Inr (False, st)
      else
     let s = socket_ret env; st = emit (EvSocket s) st in
      if s < 0 then Inr (False, emit EvFreeaddrinfo st)
      else
     let st = emit (EvConnect s) st in
      if connect_ret env \<noteq> 0 then Inr (False, emit EvFreeaddrinfo (emit (EvClose s) st))
      else
     let st = emit EvFreeaddrinfo st in
     bindR (c_strlen req) (\<lambda>n.
     let st = emit (EvWrite s (take n req)) st in
      if write_ret env < 0 then Inr (False, emit (EvClose s) st)
      else
     let st = emit (EvSetRcvTimeout s 5) st in
      if setsockopt_ret env < 0 then Inr (False, emit (EvClose s) st)
      else
     bindR (recv_loop env s 0 st 0) (\<lambda>(idx, st).
     bindR (c_write (g_recvBuf st) idx 0) (\<lambda>buf.
     Inr (True, emit (EvClose s) (st\<lparr>g_recvBuf := buf\<rparr>))))))"

definition HttpRequest_GetWord ::
  "byte list \<Rightarrow> nat \<Rightarrow> 'a http_state_scheme \<Rightarrow> (bool \<times> byte list \<times> 'a http_state_scheme) run" where
  "HttpRequest_GetWord buf buf_size st =
     bindR (c_strlen (g_recvBuf st)) (\<lambda>len.
      if len \<ge> buf_size then Inr (False, buf, st)
      else
     bindR (c_strncpy buf (g_recvBuf st) buf_size) (\<lambda>buf.
     bindR (c_write buf (buf_size - 1) 0) (\<lambda>buf.
     bindR (c_write (g_recvBuf st) 0 0) (\<lambda>rb.
     Inr (True, buf, st\<lparr>g_recvBuf := rb\<rparr>)))))"


subsection \<open>What the library promises and what the module keeps\<close>

text \<open>
  \<open>read\<close> returns at most as many bytes as there is room for, and exactly as many as it says.
\<close>

definition read_contract :: "net_env \<Rightarrow> bool" where
  "read_contract env \<longleftrightarrow> (\<forall>k n. fst (read_ret env k n) \<le> int n \<and>
     (fst (read_ret env k n) > 0 \<longrightarrow> length (snd (read_ret env k n)) = nat (fst (read_ret env k n))))"

definition http_inv :: "'a http_state_scheme \<Rightarrow> bool" where
  "http_inv st \<longleftrightarrow> length (g_recvBuf st) = MAX_REC_BUFFER_SIZE \<and> terminated (g_recvBuf st)"

text \<open>
  \<open>delivers env k room cs\<close>: from the k-th read on, with \<open>room\<close> bytes free, the network delivers
  the chunks \<open>cs\<close>, and then either the buffer is full or a read returns no data (end of stream,
  error or timeout).
\<close>

fun delivers :: "net_env \<Rightarrow> nat \<Rightarrow> nat \<Rightarrow> byte list list \<Rightarrow> bool" where
  "delivers env k room [] \<longleftrightarrow> fst (read_ret env k room) \<le> 0"
| "delivers env k room (c # cs) \<longleftrightarrow>
     c \<noteq> [] \<and> length c \<le> room \<and> read_ret env k room = (int (length c), c) \<and>
     (if length c = room then cs = [] else delivers env (Suc k) (room - length c) cs)"

definition connects :: "net_env \<Rightarrow> bool" where
  "connects env \<longleftrightarrow> ga_err env = 0 \<and> ga_res env \<and> socket_ret env \<ge> 0 \<and> connect_ret env = 0 \<and>
     write_ret env \<ge> 0 \<and> setsockopt_ret env \<ge> 0"

lemma emit_simps [simp]:
  "g_recvBuf (emit e st) = g_recvBuf st"
  "net_log (emit e st) = net_log st @ [e]"
  "http_state.more (emit e st) = http_state.more st"
  by (simp_all add: emit_def)

lemma delivers_length: "delivers env k room cs \<Longrightarrow> length (concat cs) \<le> room"
  by (induction env k room cs rule: delivers.induct) (auto split: if_splits)

lemma delivers_exists:
  assumes "read_contract env"
  shows "0 < room \<Longrightarrow> \<exists>cs. delivers env k room cs"
proof (induction room arbitrary: k rule: less_induct)
  case (less room)
  obtain r d where rd: "read_ret env k room = (r, d)" by fastforce
  with assms have c: "r \<le> int room" "r > 0 \<longrightarrow> length d = nat r"
    by (metis fst_conv snd_conv read_contract_def)+
  show ?case
  proof (cases "r \<le> 0")
    case True
    with rd show ?thesis by (metis delivers.simps(1) fst_conv)
  next
    case False
    show ?thesis
    proof (cases "length d = room")
      case True
      with False rd c less.prems have "delivers env k room [d]" by auto
      then show ?thesis ..
    next
      case neq: False
      with False c have "0 < room - length d" "room - length d < room" by auto
      then obtain cs where "delivers env (Suc k) (room - length d) cs"
        using less.IH by blast
      with neq False rd c have "delivers env k room (d # cs)" by auto
      then show ?thesis ..
    qed
  qed
qed

lemma store_at_eq:
  "off + length d \<le> length buf \<Longrightarrow>
     store_at buf off d = Inr (take off buf @ d @ drop (off + length d) buf)"
  by (simp add: store_at_def)

text \<open>A read that brings data stores it at the index, and the loop goes on while there is room.\<close>

lemma recv_loop_read:
  assumes "read_ret env k (MAX_REC_BUFFER_SIZE - idx - 1) = (int (length c), c)" "c \<noteq> []"
    "length c \<le> MAX_REC_BUFFER_SIZE - idx - 1" "idx < MAX_REC_BUFFER_SIZE - 1" "length (g_recvBuf st) = MAX_REC_BUFFER_SIZE"
  and buf_def: "buf = take idx (g_recvBuf st) @ c @ drop (idx + length c) (g_recvBuf st)"
  and st1_def: "st1 = (emit (EvRead s (MAX_REC_BUFFER_SIZE - idx - 1)) st)\<lparr>g_recvBuf := buf\<rparr>"
  shows "length buf = MAX_REC_BUFFER_SIZE"
    and "recv_loop env s k st idx =
     (if idx + length c \<ge> MAX_REC_BUFFER_SIZE - 1 then Inr (idx + length c, st1)
      else recv_loop env s (Suc k) st1 (idx + length c))"
    and "take (idx + length c) buf = take idx (g_recvBuf st) @ c"
    and "drop (idx + (length c + n)) buf = drop (idx + (length c + n)) (g_recvBuf st)"
proof -
  show "length buf = MAX_REC_BUFFER_SIZE" using assms(3-5) by (auto simp: buf_def)
  show "take (idx + length c) buf = take idx (g_recvBuf st) @ c"
    "drop (idx + (length c + n)) buf = drop (idx + (length c + n)) (g_recvBuf st)"
    using assms(3-5) by (auto simp: buf_def ac_simps)
  show "recv_loop env s k st idx =
     (if idx + length c \<ge> MAX_REC_BUFFER_SIZE - 1 then Inr (idx + length c, st1)
      else recv_loop env s (Suc k) st1 (idx + length c))"
    using assms(1-5) by (subst recv_loop.simps) (simp add: Let_def store_at_eq buf_def st1_def)
qed

text \<open>The receive loop stores exactly what the network delivers, at the index it starts from.\<close>

lemma recv_loop_delivers:
  assumes "delivers env k (MAX_REC_BUFFER_SIZE - 1 - idx) cs" "idx < MAX_REC_BUFFER_SIZE - 1"
    "length (g_recvBuf st) = MAX_REC_BUFFER_SIZE"
  shows "\<exists>rs. (\<forall>n \<in> set rs. 0 < n \<and> n < MAX_REC_BUFFER_SIZE) \<and>
    recv_loop env s k st idx = Inr (idx + length (concat cs), st\<lparr>
      g_recvBuf := take idx (g_recvBuf st) @ concat cs @ drop (idx + length (concat cs)) (g_recvBuf st),
      net_log := net_log st @ map (EvRead s) rs\<rparr>)"
  using assms
proof (induction cs arbitrary: k st idx)
  case Nil
  then show ?case
    by (subst recv_loop.simps)
      (auto simp: Let_def emit_def intro!: exI [of _ "[MAX_REC_BUFFER_SIZE - idx - 1]"])
next
  case (Cons c cs)
  let ?room = "MAX_REC_BUFFER_SIZE - idx - 1"
  have rd: "read_ret env k ?room = (int (length c), c)" "c \<noteq> []" "length c \<le> ?room"
    using Cons.prems(1) by auto
  define buf where "buf = take idx (g_recvBuf st) @ c @ drop (idx + length c) (g_recvBuf st)"
  define st1 where "st1 = (emit (EvRead s ?room) st)\<lparr>g_recvBuf := buf\<rparr>"
  note R = recv_loop_read [OF rd Cons.prems(2,3) buf_def st1_def]
  show ?case
  proof (cases "length c = ?room")
    case True
    with Cons.prems have "cs = []" by simp
    with True Cons.prems show ?thesis
      by (intro exI [of _ "[?room]"]) (simp add: R(2) st1_def buf_def emit_def)
  next
    case False
    with Cons.prems(2) rd(3) have lt: "idx + length c < MAX_REC_BUFFER_SIZE - 1" by arith
    have "MAX_REC_BUFFER_SIZE - 1 - (idx + length c) = ?room - length c" by simp
    with Cons.prems(1) False have "delivers env (Suc k) (MAX_REC_BUFFER_SIZE - 1 - (idx + length c)) cs"
      by simp
    from Cons.IH [OF this lt, of st1] R(1) obtain rs where
      rs: "\<forall>n \<in> set rs. 0 < n \<and> n < MAX_REC_BUFFER_SIZE"
        "recv_loop env s (Suc k) st1 (idx + length c) = Inr (idx + length c + length (concat cs),
          st1\<lparr>g_recvBuf := take (idx + length c) buf @ concat cs
                @ drop (idx + length c + length (concat cs)) buf,
              net_log := net_log st1 @ map (EvRead s) rs\<rparr>)"
      by (auto simp: st1_def)
    show ?thesis
      using lt rs Cons.prems(2,3) rd(3)
      by (intro exI [of _ "?room # rs"])
        (auto simp: R(2,3,4) st1_def emit_def add.assoc)
  qed
qed

lemma recv_loop_safe:
  assumes "read_contract env" "length (g_recvBuf st) = MAX_REC_BUFFER_SIZE"
  obtains cs rs where "delivers env 0 (MAX_REC_BUFFER_SIZE - 1) cs"
    "recv_loop env s 0 st 0 = Inr (length (concat cs), st\<lparr>
      g_recvBuf := concat cs @ drop (length (concat cs)) (g_recvBuf st),
      net_log := net_log st @ map (EvRead s) rs\<rparr>)"
proof -
  obtain cs where cs: "delivers env 0 (MAX_REC_BUFFER_SIZE - 1) cs"
    using delivers_exists [OF assms(1), of "MAX_REC_BUFFER_SIZE - 1" 0]
    by (auto simp: MAX_REC_BUFFER_SIZE_def)
  with recv_loop_delivers [of env 0 0 cs st s] assms(2) show ?thesis
    by (auto simp: MAX_REC_BUFFER_SIZE_def intro: that)
qed


subsection \<open>The whole exchange\<close>

lemma list_update_at_drop:
  "length xs < length ys \<Longrightarrow>
     (xs @ drop (length xs) ys)[length xs := v] = xs @ v # drop (Suc (length xs)) ys"
  by (simp add: list_update_append Cons_nth_drop_Suc [symmetric])

lemma HttpRequest_Req_success:
  assumes "connects env" "delivers env 0 (MAX_REC_BUFFER_SIZE - 1) cs"
    "length (g_recvBuf st) = MAX_REC_BUFFER_SIZE" "terminated req"
  shows "\<exists>evs. HttpRequest_Req env req server port st = Inr (True, st\<lparr>
      g_recvBuf := concat cs @ 0 # drop (Suc (length (concat cs))) (g_recvBuf st),
      net_log := net_log st @ evs\<rparr>)"
proof -
  have n: "length (concat cs) < MAX_REC_BUFFER_SIZE"
    using delivers_length [OF assms(2)] by (simp add: MAX_REC_BUFFER_SIZE_def)
  let ?s = "socket_ret env"
  let ?st = "st\<lparr>net_log := net_log st @ [EvGetaddrinfo True, EvSocket ?s, EvConnect ?s,
     EvFreeaddrinfo, EvWrite ?s (take (length (cstr req)) req), EvSetRcvTimeout ?s 5]\<rparr>"
  obtain rs where "recv_loop env ?s 0 ?st 0 = Inr (length (concat cs), ?st\<lparr>
      g_recvBuf := concat cs @ drop (length (concat cs)) (g_recvBuf st),
      net_log := net_log ?st @ map (EvRead ?s) rs\<rparr>)"
    using recv_loop_delivers [of env 0 0 cs ?st ?s] assms(2,3)
    by (auto simp: MAX_REC_BUFFER_SIZE_def)
  then show ?thesis
    using assms n
    by (auto simp: HttpRequest_Req_def Let_def connects_def emit_def list_update_at_drop
        intro!: exI [of _ "[EvGetaddrinfo True, EvSocket ?s, EvConnect ?s, EvFreeaddrinfo,
            EvWrite ?s (take (length (cstr req)) req), EvSetRcvTimeout ?s 5]
          @ map (EvRead ?s) rs @ [EvClose ?s]"])
qed

lemma HttpRequest_Req_failure:
  assumes "\<not> connects env" "terminated req"
  shows "\<exists>evs. HttpRequest_Req env req server port st =
     Inr (False, st\<lparr>net_log := net_log st @ evs\<rparr>)"
  using assms
  by (auto simp: HttpRequest_Req_def Let_def connects_def emit_def)

text \<open>
  C32. What a successful request leaves in the receive buffer: every byte the server sent, in
  order, up to the 2047 that fit, followed by a NUL; the buffer keeps its size.
\<close>

theorem HttpRequest_Req_receives:
  assumes "connects env" "delivers env 0 (MAX_REC_BUFFER_SIZE - 1) cs"
    "length (g_recvBuf st) = MAX_REC_BUFFER_SIZE" "terminated req"
  shows "\<exists>st'. HttpRequest_Req env req server port st = Inr (True, st') \<and>
     take (length (concat cs)) (g_recvBuf st') = concat cs \<and>
     g_recvBuf st' ! length (concat cs) = 0 \<and> length (g_recvBuf st') = MAX_REC_BUFFER_SIZE"
proof -
  have "length (concat cs) < MAX_REC_BUFFER_SIZE"
    using delivers_length [OF assms(2)] by (simp add: MAX_REC_BUFFER_SIZE_def)
  with HttpRequest_Req_success [OF assms, of server port] assms(3) show ?thesis
    by (auto simp: nth_append)
qed

definition demo_env :: net_env where
  "demo_env = \<lparr>ga_err = 0, ga_res = True, socket_ret = 3, connect_ret = 0, write_ret = 1,
     setsockopt_ret = 0,
     read_ret = (\<lambda>k n. if k = 0 \<and> 2 \<le> n then (2, [72, 84]) else if k = 1 \<and> 1 \<le> n then (1, [80]) else (0, []))\<rparr>"

lemma demo_env_connects: "connects demo_env"
  by (simp add: demo_env_def connects_def)

lemma demo_env_delivers: "delivers demo_env 0 (MAX_REC_BUFFER_SIZE - 1) [[72, 84], [80]]"
  by (simp add: demo_env_def MAX_REC_BUFFER_SIZE_def)

theorem HttpRequest_Req_receives_witness:
  "\<exists>st'. HttpRequest_Req demo_env [71, 0] [] [] http_init = Inr (True, st') \<and>
     take (length [72, 84, 80 :: byte]) (g_recvBuf st') = [72, 84, 80] \<and>
     g_recvBuf st' ! length [72, 84, 80 :: byte] = 0 \<and>
     length (g_recvBuf st') = MAX_REC_BUFFER_SIZE"
  using HttpRequest_Req_receives [OF demo_env_connects demo_env_delivers, of http_init "[71, 0]" "[]" "[]"]
  by (simp add: http_init_def)

lemma HttpRequest_Req_ok:
  assumes "read_contract env" "http_inv st" "terminated req"
  shows "\<exists>st'. HttpRequest_Req env req server port st = Inr (connects env, st') \<and> http_inv st' \<and>
     (\<not> connects env \<longrightarrow> g_recvBuf st' = g_recvBuf st)"
proof (cases "connects env")
  case True
  obtain cs where cs: "delivers env 0 (MAX_REC_BUFFER_SIZE - 1) cs"
    using delivers_exists [OF assms(1), of "MAX_REC_BUFFER_SIZE - 1" 0]
    by (auto simp: MAX_REC_BUFFER_SIZE_def)
  with True assms HttpRequest_Req_success [OF True cs, of st req server port]
    delivers_length [OF cs]
  show ?thesis by (auto simp: http_inv_def MAX_REC_BUFFER_SIZE_def)
next
  case False
  with HttpRequest_Req_failure [OF False assms(3)] assms(2) show ?thesis
    by (force simp: http_inv_def)
qed

text \<open>
  Totality and the meaning of the result: with a socket library that keeps the contract of
  \<open>read\<close>, a request never faults, it answers true exactly when every step before the receive
  loop succeeded, and when it answers false the receive buffer is the one from before.
\<close>

lemma HttpRequest_Req_total:
  assumes "read_contract env" "http_inv st" "terminated req"
  shows "\<exists>st'. HttpRequest_Req env req server port st = Inr (connects env, st') \<and> http_inv st' \<and>
     (\<not> connects env \<longrightarrow> g_recvBuf st' = g_recvBuf st)"
  using assms by (rule HttpRequest_Req_ok)

subsection \<open>The address list and the socket\<close>

text \<open>
  The resources in hand: is an address list held, and which socket is open. A call that uses
  something not in hand, or acquires over something held, has no successor.
\<close>

fun res_step :: "net_ev \<Rightarrow> bool \<times> int option \<Rightarrow> (bool \<times> int option) option" where
  "res_step (EvGetaddrinfo ok) (a, s) = (if a then None else Some (ok, s))"
| "res_step EvFreeaddrinfo (a, s) = (if a then Some (False, s) else None)"
| "res_step (EvSocket r) (a, s) =
     (if a \<and> s = None then Some (a, if r \<ge> 0 then Some r else None) else None)"
| "res_step (EvConnect r) (a, s) = (if a \<and> s = Some r then Some (a, s) else None)"
| "res_step (EvWrite r _) (a, s) = (if s = Some r then Some (a, s) else None)"
| "res_step (EvSetRcvTimeout r _) (a, s) = (if s = Some r then Some (a, s) else None)"
| "res_step (EvRead r _) (a, s) = (if s = Some r then Some (a, s) else None)"
| "res_step (EvClose r) (a, s) = (if s = Some r then Some (a, None) else None)"

fun res_run :: "net_ev list \<Rightarrow> bool \<times> int option \<Rightarrow> (bool \<times> int option) option" where
  "res_run [] h = Some h"
| "res_run (e # es) h = (case res_step e h of None \<Rightarrow> None | Some h' \<Rightarrow> res_run es h')"

lemma res_run_append:
  "res_run (es @ fs) h = (case res_run es h of None \<Rightarrow> None | Some h' \<Rightarrow> res_run fs h')"
  by (induction es h rule: res_run.induct) (auto split: option.split)

lemma res_run_reads [simp]: "res_run (map (EvRead s) rs) (a, Some s) = Some (a, Some s)"
  by (induction rs) auto

lemma recv_loop_log:
  "recv_loop env s k st idx = Inr (i, st') \<Longrightarrow> \<exists>rs. net_log st' = net_log st @ map (EvRead s) rs"
proof (induction env s k st idx rule: recv_loop.induct)
  case (1 env s k st idx)
  let ?room = "MAX_REC_BUFFER_SIZE - idx - 1"
  let ?rd = "read_ret env k ?room"
  show ?case
  proof (cases "fst ?rd > 0")
    case False
    with "1.prems" show ?thesis
      by (subst (asm) recv_loop.simps) (auto simp: Let_def intro!: exI [of _ "[?room]"])
  next
    case True
    with "1.prems" obtain buf where
      buf: "store_at (g_recvBuf (emit (EvRead s ?room) st)) idx (snd ?rd) = Inr buf"
      by (subst (asm) recv_loop.simps) (auto simp: Let_def bindR_eq_Inr_iff)
    let ?st = "(emit (EvRead s ?room) st)\<lparr>g_recvBuf := buf\<rparr>"
    have step: "recv_loop env s k st idx =
       (if idx + nat (fst ?rd) \<ge> MAX_REC_BUFFER_SIZE - 1 then Inr (idx + nat (fst ?rd), ?st)
        else recv_loop env s (Suc k) ?st (idx + nat (fst ?rd)))"
      using True buf by (subst recv_loop.simps) (simp add: Let_def)
    show ?thesis
    proof (cases "idx + nat (fst ?rd) \<ge> MAX_REC_BUFFER_SIZE - 1")
      case True
      with step "1.prems" show ?thesis by (auto intro!: exI [of _ "[?room]"])
    next
      case False
      with step "1.prems" have "recv_loop env s (Suc k) ?st (idx + nat (fst ?rd)) = Inr (i, st')"
        by simp
      from "1.IH" [OF refl refl refl \<open>fst ?rd > 0\<close> buf refl refl False this] obtain rs where
        "net_log st' = net_log ?st @ map (EvRead s) rs" by auto
      then show ?thesis by (auto intro!: exI [of _ "?room # rs"])
    qed
  qed
qed

text \<open>
  C33. No leak and no use after release, on every path and for every behaviour of the network:
  whatever a request answers, the calls it made free the address list exactly once if there was
  one, close the socket exactly once if there was one, and use neither before it is obtained
  nor after it is given back.
\<close>

theorem HttpRequest_Req_resources:
  assumes "HttpRequest_Req env req server port st = Inr (b, st')"
  shows "\<exists>evs. net_log st' = net_log st @ evs \<and> res_run evs (False, None) = Some (False, None)"
proof (cases "connects env")
  case False
  with assms show ?thesis
    by (auto simp: HttpRequest_Req_def Let_def connects_def bindR_eq_Inr_iff split: if_splits)
next
  case True
  let ?s = "socket_ret env"
  let ?w = "take (length (cstr req)) req"
  let ?st0 = "emit (EvSetRcvTimeout ?s 5) (emit (EvWrite ?s ?w) (emit EvFreeaddrinfo
    (emit (EvConnect ?s) (emit (EvSocket ?s) (emit (EvGetaddrinfo True) st)))))"
  obtain i st1 where rl: "recv_loop env ?s 0 ?st0 0 = Inr (i, st1)"
    and fin: "net_log st' = net_log st1 @ [EvClose ?s]"
    using assms True
    by (auto simp: HttpRequest_Req_def Let_def connects_def bindR_eq_Inr_iff c_strlen_eq
        split: if_splits)
  obtain rs where "net_log st1 = net_log ?st0 @ map (EvRead ?s) rs"
    using recv_loop_log [OF rl] by blast
  with fin True show ?thesis
    by (intro exI [of _ "[EvGetaddrinfo True, EvSocket ?s, EvConnect ?s, EvFreeaddrinfo,
          EvWrite ?s ?w, EvSetRcvTimeout ?s 5] @ map (EvRead ?s) rs @ [EvClose ?s]"])
      (simp add: res_run_append connects_def)
qed

theorem HttpRequest_Req_resources_witness:
  "\<exists>b st' evs. HttpRequest_Req demo_env [71, 0] [] [] http_init = Inr (b, st') \<and>
     net_log st' = evs \<and> res_run evs (False, None) = Some (False, None)"
proof -
  obtain st' where
    "HttpRequest_Req demo_env [71, 0] [] [] http_init = Inr (True, st')"
    using HttpRequest_Req_success [OF demo_env_connects demo_env_delivers, of http_init "[71, 0]" "[]" "[]"]
    by (auto simp: http_init_def)
  from this HttpRequest_Req_resources [OF this] show ?thesis
    by (auto simp: http_init_def)
qed

subsection \<open>Handing the response over\<close>

lemma HttpRequest_GetWord_eq:
  assumes "http_inv st" "length buf = buf_size"
  shows "HttpRequest_GetWord buf buf_size st =
    (let r = cstr (g_recvBuf st) in
     if length r < buf_size
     then Inr (True, r @ replicate (buf_size - length r) 0, st\<lparr>g_recvBuf := (g_recvBuf st)[0 := 0]\<rparr>)
     else Inr (False, buf, st))"
proof -
  let ?r = "cstr (g_recvBuf st)"
  have inv: "terminated (g_recvBuf st)" "0 < length (g_recvBuf st)"
    using assms by (auto simp: http_inv_def MAX_REC_BUFFER_SIZE_def)
  have pad: "(take n (?r @ replicate n 0))[n - 1 := 0] = ?r @ replicate (n - length ?r) 0"
    if "length ?r < n" for n
  proof (rule nth_equalityI)
    fix i assume "i < length ((take n (?r @ replicate n 0))[n - 1 := 0])"
    with that show "(take n (?r @ replicate n 0))[n - 1 := 0] ! i = (?r @ replicate (n - length ?r) 0) ! i"
      by (auto simp: nth_append nth_list_update)
  qed (use that in auto)
  show ?thesis
    using inv assms pad
    by (auto simp: HttpRequest_GetWord_def Let_def c_strncpy_eq not_less)
qed

text \<open>
  Handing the response to the caller: with room for the terminator, \<open>HttpRequest_GetWord\<close>
  fills the caller's buffer with the received string padded with NULs, and empties the receive
  buffer, so that the same response is not delivered twice; without room it answers false and
  changes nothing.
\<close>

lemma HttpRequest_GetWord_delivers:
  assumes "http_inv st" "length buf = buf_size"
  shows "HttpRequest_GetWord buf buf_size st =
    (let r = cstr (g_recvBuf st) in
     if length r < buf_size
     then Inr (True, r @ replicate (buf_size - length r) 0, st\<lparr>g_recvBuf := (g_recvBuf st)[0 := 0]\<rparr>)
     else Inr (False, buf, st))"
  using assms by (rule HttpRequest_GetWord_eq)

end
