(* ===== verification/Req_Word.thy ===== *)
theory Req_Word
  imports Http_Req
begin

text \<open>
  \<open>components/req_word/req_word.c\<close>: asking the server for a word and its example sentence. The
  body of the response is \<open>word: sentence\<close>. The state adds three static arrays to the state of
  the HTTP module.
\<close>

subsection \<open>State and constants\<close>

record req_state = http_state +
  s_reqBodyBuf :: "byte list"
  word :: "byte list"
  sentence :: "byte list"

definition MAX_BUFFER_SIZE :: nat where "MAX_BUFFER_SIZE = 2048"
definition WORD_SIZE :: nat where "WORD_SIZE = 128"
definition SENTENCE_SIZE :: nat where "SENTENCE_SIZE = 256"

definition req_init :: req_state where
  "req_init = \<lparr>g_recvBuf = replicate MAX_REC_BUFFER_SIZE 0, net_log = [],
     s_reqBodyBuf = replicate MAX_BUFFER_SIZE 0, word = replicate WORD_SIZE 0,
     sentence = replicate SENTENCE_SIZE 0\<rparr>"

definition bytes_of :: "string \<Rightarrow> byte list" where
  "bytes_of s = map of_char s"

definition CRLF :: string where "CRLF = [CHR 0x0D, CHR 0x0A]"

definition crlf2 :: "byte list" where "crlf2 = [0x0D, 0x0A, 0x0D, 0x0A]"
definition colon :: byte where "colon = 0x3A"
definition space :: byte where "space = 0x20"

text \<open>String literals carry their terminating NUL.\<close>

definition WEB_SERVER :: "byte list" where "WEB_SERVER = bytes_of ''172.30.1.13'' @ [0]"
definition WEB_PORT :: "byte list" where "WEB_PORT = bytes_of ''8080'' @ [0]"

definition REQUEST :: "byte list" where
  "REQUEST = bytes_of (''GET '' @ ''/word'' @ '' HTTP/1.0'' @ CRLF @
     ''Host: '' @ ''172.30.1.13'' @ '':'' @ ''8080'' @ CRLF @
     ''User-Agent: esp-idf/1.0 esp32'' @ CRLF @ CRLF) @ [0]"

subsection \<open>Operations\<close>

text \<open>\<open>while (*sentence_start == ' ') sentence_start++\<close>\<close>

fun skip_spaces :: "byte list \<Rightarrow> byte list run" where
  "skip_spaces [] = Inl Undef"
| "skip_spaces (b # bs) = (if b = space then skip_spaces bs else Inr (b # bs))"

definition ReqWord_ParseResponse ::
  "byte list \<Rightarrow> nat \<Rightarrow> 'a req_state_scheme \<Rightarrow> 'a req_state_scheme run" where
  "ReqWord_ParseResponse buf buf_size st =
     bindR (c_strstr buf crlf2) (\<lambda>r. case r of None \<Rightarrow> Inr st | Some p \<Rightarrow>
     let body_start = drop (p + 4) buf in
     bindR (c_strchr body_start colon) (\<lambda>r. case r of None \<Rightarrow> Inr st | Some word_len \<Rightarrow>
     bindR (c_memset (word st) 0 WORD_SIZE) (\<lambda>w.
      if word_len \<ge> WORD_SIZE then Inr (st\<lparr>word := w\<rparr>)
      else
     bindR (c_strncpy w body_start word_len) (\<lambda>w.
     bindR (c_write w word_len 0) (\<lambda>w.
     bindR (skip_spaces (drop (word_len + 1) body_start)) (\<lambda>sentence_start.
     bindR (c_memset (sentence st) 0 SENTENCE_SIZE) (\<lambda>s.
     bindR (c_strncpy s sentence_start (SENTENCE_SIZE - 1)) (\<lambda>s.
     bindR (c_write s (SENTENCE_SIZE - 1) 0) (\<lambda>s.
     Inr (st\<lparr>word := w, sentence := s\<rparr>))))))))))"

definition ReqWord_Requset :: "net_env \<Rightarrow> 'a req_state_scheme \<Rightarrow> (bool \<times> 'a req_state_scheme) run" where
  "ReqWord_Requset env st =
     bindR (HttpRequest_Req env REQUEST WEB_SERVER WEB_PORT st) (\<lambda>(ok, st).
      if ok = False then Inr (False, st)
      else
     bindR (HttpRequest_GetWord (s_reqBodyBuf st) MAX_BUFFER_SIZE st) (\<lambda>(ok, buf, st).
     let st = st\<lparr>s_reqBodyBuf := buf\<rparr> in
      if ok = False then Inr (False, st)
      else
     bindR (ReqWord_ParseResponse (s_reqBodyBuf st) MAX_BUFFER_SIZE st) (\<lambda>st.
     bindR (c_write (s_reqBodyBuf st) 0 0) (\<lambda>buf.
     Inr (True, st\<lparr>s_reqBodyBuf := buf\<rparr>)))))"

text \<open>Copying a static string, terminator included, into the caller's array \<open>str\<close>.\<close>

definition copy_out :: "byte list \<Rightarrow> byte list \<Rightarrow> byte list run" where
  "copy_out src str =
     bindR (c_strlen src) (\<lambda>len.
     bindR (c_strncpy str src len) (\<lambda>str.
     c_write str len 0))"

definition ReqWord_GetWord :: "byte list \<Rightarrow> 'a req_state_scheme \<Rightarrow> byte list run" where
  "ReqWord_GetWord str st = copy_out (word st) str"

definition ReqWord_GetSentence :: "byte list \<Rightarrow> 'a req_state_scheme \<Rightarrow> byte list run" where
  "ReqWord_GetSentence str st = copy_out (sentence st) str"


subsection \<open>Invariant and branch lemmas\<close>

definition words_inv :: "'a req_state_scheme \<Rightarrow> bool" where
  "words_inv st \<longleftrightarrow> length (word st) = WORD_SIZE \<and> terminated (word st) \<and>
     length (sentence st) = SENTENCE_SIZE \<and> terminated (sentence st)"

definition req_inv :: "'a req_state_scheme \<Rightarrow> bool" where
  "req_inv st \<longleftrightarrow> http_inv st \<and> length (s_reqBodyBuf st) = MAX_BUFFER_SIZE \<and> words_inv st"

lemmas req_sizes = MAX_BUFFER_SIZE_def WORD_SIZE_def SENTENCE_SIZE_def MAX_REC_BUFFER_SIZE_def

lemma http_inv_cong:
  "g_recvBuf st = g_recvBuf st' \<Longrightarrow> http_inv st = http_inv (st' :: 'a http_state_scheme)"
  by (simp add: http_inv_def)

lemma length_crlf2 [simp]: "length crlf2 = 4"
  by (simp add: crlf2_def)

lemma web_terminated [simp]: "terminated REQUEST" "terminated WEB_SERVER" "terminated WEB_PORT"
  by (simp_all add: REQUEST_def WEB_SERVER_def WEB_PORT_def)

lemma skip_spaces_terminated:
  "terminated a \<Longrightarrow> \<exists>b. skip_spaces a = Inr b \<and> terminated b"
  by (induction a) (auto simp: space_def)

lemma skip_spaces_replicate:
  "r = [] \<or> hd r \<noteq> space \<Longrightarrow> r \<noteq> [] \<Longrightarrow> skip_spaces (replicate k space @ r) = Inr r"
  by (induction k) (cases r; simp)+

text \<open>The part of the parser after both separators are found and the word fits.\<close>

lemma ParseResponse_store:
  assumes "c_strstr buf crlf2 = Inr (Some p)" "c_strchr (drop (p + 4) buf) colon = Inr (Some n)"
    "terminated (drop (p + 4) buf)" "n < length (cstr (drop (p + 4) buf))" "n < WORD_SIZE"
    "skip_spaces (drop (n + 1) (drop (p + 4) buf)) = Inr s" "terminated s"
    "length (word st) = WORD_SIZE" "length (sentence st) = SENTENCE_SIZE"
  shows "ReqWord_ParseResponse buf m st = Inr (st\<lparr>
     word := take n (drop (p + 4) buf) @ replicate (WORD_SIZE - n) 0,
     sentence := take (SENTENCE_SIZE - 1) (cstr s @ replicate (SENTENCE_SIZE - 1) 0) @ [0]\<rparr>)"
proof -
  let ?b = "drop (p + 4) buf"
  have nb: "n \<le> length ?b" using assms(4) cstr_length_le [of ?b] by linarith
  have w: "(take n ?b @ replicate (WORD_SIZE - n) 0)[n := 0] = take n ?b @ replicate (WORD_SIZE - n) 0"
  proof -
    have "replicate (WORD_SIZE - n) (0::byte) = 0 # replicate (WORD_SIZE - n - 1) 0"
      using assms(5) by (metis Suc_pred' replicate_Suc zero_less_diff)
    with nb show ?thesis by (simp add: list_update_append)
  qed
  have "n < length (take n ?b @ replicate (WORD_SIZE - n) (0 :: byte))"
    using nb assms(5) by simp
  then have c: "c_write (take n ?b @ replicate (WORD_SIZE - n) 0) n 0 =
      Inr (take n ?b @ replicate (WORD_SIZE - n) 0)"
    by (simp only: c_write_in w)
  have n: "take n (cstr ?b) = take n ?b"
    using assms(4) by (simp add: take_cstr)
  show ?thesis
    using assms c n nul_at_end [of "SENTENCE_SIZE - 1" "cstr s"]
    by (simp add: ReqWord_ParseResponse_def c_memset_eq c_strncpy_eq req_sizes)
qed


subsection \<open>Properties of the parser\<close>

lemma ParseResponse_parses:
  assumes "\<And>i. i < length h \<Longrightarrow> take 4 (drop i (h @ crlf2)) \<noteq> crlf2" "0 \<notin> set h"
    "0 \<notin> set w" "colon \<notin> set w" "length w < WORD_SIZE"
    "0 \<notin> set s" "s = [] \<or> hd s \<noteq> space" "words_inv st"
  shows "ReqWord_ParseResponse (h @ crlf2 @ w @ colon # replicate k space @ s @ 0 # rest) m st =
    Inr (st\<lparr>word := w @ replicate (WORD_SIZE - length w) 0,
       sentence := take (SENTENCE_SIZE - 1) (s @ replicate (SENTENCE_SIZE - 1) 0) @ [0]\<rparr>)"
proof -
  let ?tail = "colon # replicate k space @ s @ 0 # rest"
  let ?buf = "h @ crlf2 @ w @ ?tail"
  have body: "drop (length h + 4) ?buf = w @ ?tail" by (simp add: crlf2_def)
  have early: "take 4 (drop i ?buf) \<noteq> crlf2" if "i < length h" for i
  proof -
    have "take 4 (drop i ((h @ crlf2) @ w @ ?tail)) = take 4 (drop i (h @ crlf2))"
      by (rule take_drop_prefix) (use that in simp)
    then have "take 4 (drop i ?buf) = take 4 (drop i (h @ crlf2))" by (simp only: append_assoc)
    with assms(1) [OF that] show ?thesis by (simp only: not_False_eq_True)
  qed
  have "c_strstr ?buf crlf2 = Inr (Some (length h))"
  proof (rule c_strstr_found)
    show "take (length crlf2) (drop i ?buf) \<noteq> crlf2" if "i < length h" for i
      using early [OF that] by (simp only: length_crlf2 not_False_eq_True)
  qed (use assms(2) in \<open>simp_all add: crlf2_def\<close>)
  moreover have "c_strchr (drop (length h + 4) ?buf) colon = Inr (Some (length w))"
    unfolding body using assms(3,4) by (rule c_strchr_found)
  moreover have "cstr (w @ ?tail) = w @ colon # replicate k space @ s"
    using assms(3,6) cstr_append_nul [of "w @ colon # replicate k space @ s" rest]
    by (simp add: colon_def space_def)
  moreover have "skip_spaces (drop (length w + 1) (w @ ?tail)) = Inr (s @ 0 # rest)"
    using assms(7) skip_spaces_replicate [of "s @ 0 # rest" k]
    by (cases s) (auto simp: space_def)
  ultimately show ?thesis
    using ParseResponse_store [of ?buf "length h" "length w" "s @ 0 # rest" st m] assms
    by (simp add: body words_inv_def cstr_append_nul)
qed

text \<open>
  C12. Round trip of the response format: from \<open>header CRLF CRLF word : spaces sentence\<close> the
  parser stores exactly the word, and the sentence without its leading spaces cut to the 255
  bytes that fit, both padded with NULs to the size of their arrays.
\<close>

theorem ParseResponse_roundtrip:
  assumes "\<And>i. i < length h \<Longrightarrow> take 4 (drop i (h @ crlf2)) \<noteq> crlf2" "0 \<notin> set h"
    "0 \<notin> set w" "colon \<notin> set w" "length w < WORD_SIZE"
    "0 \<notin> set s" "s = [] \<or> hd s \<noteq> space" "words_inv st"
  shows "ReqWord_ParseResponse (h @ crlf2 @ w @ colon # replicate k space @ s @ 0 # rest) m st =
    Inr (st\<lparr>word := w @ replicate (WORD_SIZE - length w) 0,
       sentence := take (SENTENCE_SIZE - 1) (s @ replicate (SENTENCE_SIZE - 1) 0) @ [0]\<rparr>)"
  using assms by (rule ParseResponse_parses)

theorem ParseResponse_roundtrip_witness:
  "ReqWord_ParseResponse ([0x41] @ crlf2 @ [0x68, 0x69] @ colon # replicate 2 space @ [0x79, 0x6F] @ 0 # []) 2048
     req_init =
   Inr (req_init\<lparr>word := [0x68, 0x69] @ replicate (WORD_SIZE - length [0x68, 0x69 :: byte]) 0,
     sentence := take (SENTENCE_SIZE - 1) ([0x79, 0x6F] @ replicate (SENTENCE_SIZE - 1) 0) @ [0]\<rparr>)"
proof (rule ParseResponse_roundtrip)
  show "take 4 (drop i ([0x41] @ crlf2)) \<noteq> crlf2" if "i < length [0x41 :: byte]" for i
    using that by (simp add: crlf2_def)
qed (simp_all add: colon_def space_def words_inv_def req_init_def req_sizes)

text \<open>A response with a header end and a colon after it.\<close>

lemma ParseResponse_body_ok:
  assumes "c_strstr buf crlf2 = Inr (Some p)" "terminated (drop (p + 4) buf)" "words_inv st"
    and "c_strchr (drop (p + 4) buf) colon = Inr (Some n)" "n < length (cstr (drop (p + 4) buf))" "n < WORD_SIZE"
  shows "\<exists>w s. ReqWord_ParseResponse buf m st = Inr (st\<lparr>word := w, sentence := s\<rparr>) \<and>
     words_inv (st\<lparr>word := w, sentence := s\<rparr>)"
proof -
  let ?b = "drop (p + 4) buf"
  from drop_cstr [of "n + 1" ?b] assms(2,5) have "terminated (drop (n + 1) ?b)" by simp
  from skip_spaces_terminated [OF this] obtain s where
    s: "skip_spaces (drop (n + 1) ?b) = Inr s" "terminated s" by blast
  let ?w = "take n ?b @ replicate (WORD_SIZE - n) 0"
    and ?s = "take (SENTENCE_SIZE - 1) (cstr s @ replicate (SENTENCE_SIZE - 1) 0) @ [0]"
  have "length (take n ?b) = n" using assms(5) cstr_length_le [of ?b] by simp
  hence "words_inv (st\<lparr>word := ?w, sentence := ?s\<rparr>)" using assms(6) by (simp add: words_inv_def req_sizes)
  moreover have "ReqWord_ParseResponse buf m st = Inr (st\<lparr>word := ?w, sentence := ?s\<rparr>)"
    using assms(1,3,4) by (intro ParseResponse_store [OF _ _ assms(2,5,6) s]) (simp_all add: words_inv_def)
  ultimately show ?thesis by blast
qed

lemma ParseResponse_ok:
  assumes "terminated buf" "words_inv st"
  shows "\<exists>w s. ReqWord_ParseResponse buf m st = Inr (st\<lparr>word := w, sentence := s\<rparr>) \<and>
     words_inv (st\<lparr>word := w, sentence := s\<rparr>)"
proof -
  have "0 \<notin> set crlf2" "colon \<noteq> 0" by (simp_all add: crlf2_def colon_def)
  from c_strstr_total [OF assms(1) this(1)] obtain r where
    r: "c_strstr buf crlf2 = Inr r" "\<And>p. r = Some p \<Longrightarrow> p + 4 \<le> length (cstr buf)"
    by auto
  show ?thesis
  proof (cases r)
    case None
    with r assms(2) show ?thesis
      by (intro exI [of _ "word st"] exI [of _ "sentence st"]) (simp add: ReqWord_ParseResponse_def)
  next
    case (Some p)
    let ?b = "drop (p + 4) buf"
    have b: "terminated ?b" using drop_cstr [OF r(2) assms(1)] Some by blast
    from c_strchr_total [OF b \<open>colon \<noteq> 0\<close>] c_strchr_before_end [of colon ?b] obtain q where
      q: "c_strchr ?b colon = Inr q" "\<And>n. q = Some n \<Longrightarrow> n < length (cstr ?b)"
      by (auto split: if_splits)
    consider "q = None" | n where "q = Some n" "\<not> n < WORD_SIZE" | n where "q = Some n" "n < WORD_SIZE" by fastforce
    thus ?thesis
    proof cases
      case 1
      with r Some q assms(2) show ?thesis
        by (intro exI [of _ "word st"] exI [of _ "sentence st"]) (simp add: ReqWord_ParseResponse_def)
    next
      case 2
      with r Some q assms(2) show ?thesis
        by (intro exI [of _ "replicate WORD_SIZE 0"] exI [of _ "sentence st"])
          (simp add: ReqWord_ParseResponse_def c_memset_eq words_inv_def req_sizes)
    next
      case 3
      with r Some q show ?thesis by (intro ParseResponse_body_ok [OF _ b assms(2)]) simp_all
    qed
  qed
qed

subsection \<open>Properties of the request\<close>

lemma req_inv_init: "req_inv req_init"
  by (simp add: req_inv_def http_inv_def words_inv_def req_init_def req_sizes)

lemma words_inv_cong:
  "word st = word st' \<Longrightarrow> sentence st = sentence st' \<Longrightarrow> words_inv st = words_inv st'"
  by (simp add: words_inv_def)

text \<open>A request whose network part succeeded, with the received string \<open>r\<close> in the buffer.\<close>

lemma Requset_after_receive:
  assumes "HttpRequest_Req env REQUEST WEB_SERVER WEB_PORT st = Inr (True, st1)" "http_inv st1"
    "length (s_reqBodyBuf st1) = MAX_BUFFER_SIZE"
    "buf = cstr (g_recvBuf st1) @ replicate (MAX_BUFFER_SIZE - length (cstr (g_recvBuf st1))) 0"
  shows "ReqWord_Requset env st =
     bindR (ReqWord_ParseResponse buf MAX_BUFFER_SIZE
         (st1\<lparr>g_recvBuf := (g_recvBuf st1)[0 := 0], s_reqBodyBuf := buf\<rparr>)) (\<lambda>st.
     bindR (c_write (s_reqBodyBuf st) 0 0) (\<lambda>b. Inr (True, st\<lparr>s_reqBodyBuf := b\<rparr>)))"
proof -
  have "length (cstr (g_recvBuf st1)) < MAX_BUFFER_SIZE"
    using assms(2) cstr_length_less [of "g_recvBuf st1"] by (simp add: http_inv_def req_sizes)
  with HttpRequest_GetWord_eq [OF assms(2,3)] assms(1,4) show ?thesis
    by (simp add: ReqWord_Requset_def Let_def)
qed

lemma received_buffer:
  assumes "http_inv st1"
    "buf = cstr (g_recvBuf st1) @ replicate (MAX_BUFFER_SIZE - length (cstr (g_recvBuf st1))) 0"
  shows "length buf = MAX_BUFFER_SIZE \<and> terminated buf \<and> cstr buf = cstr (g_recvBuf st1) \<and>
    http_inv (st1\<lparr>g_recvBuf := (g_recvBuf st1)[0 := 0], s_reqBodyBuf := buf\<rparr>)"
proof -
  have "length (cstr (g_recvBuf st1)) < MAX_BUFFER_SIZE"
    using assms(1) cstr_length_less [of "g_recvBuf st1"] by (simp add: http_inv_def req_sizes)
  moreover have "terminated ((g_recvBuf st1)[0 := 0])"
    by (rule terminated_nth [of 0]) (use assms(1) in \<open>simp_all add: http_inv_def req_sizes\<close>)
  ultimately show ?thesis
    using assms by (simp add: http_inv_def cstr_no_nul)
qed


lemma request_step:
  assumes "connects env" "delivers env 0 (MAX_REC_BUFFER_SIZE - 1) cs" "req_inv st"
  obtains st1 evs where
    "HttpRequest_Req env REQUEST WEB_SERVER WEB_PORT st = Inr (True, st1)"
    "st1 = st\<lparr>g_recvBuf := concat cs @ 0 # drop (Suc (length (concat cs))) (g_recvBuf st), net_log := net_log st @ evs\<rparr>"
    "http_inv st1" "length (s_reqBodyBuf st1) = MAX_BUFFER_SIZE" "words_inv st1"
proof -
  have len: "length (g_recvBuf st) = MAX_REC_BUFFER_SIZE" and
    rest: "length (s_reqBodyBuf st) = MAX_BUFFER_SIZE" "words_inv st"
    using assms(3) by (auto simp: req_inv_def http_inv_def)
  have "length (concat cs) < MAX_REC_BUFFER_SIZE"
    using delivers_length [OF assms(2)] by (simp add: MAX_REC_BUFFER_SIZE_def)
  moreover obtain evs where
    "HttpRequest_Req env REQUEST WEB_SERVER WEB_PORT st = Inr (True, st\<lparr>
      g_recvBuf := concat cs @ 0 # drop (Suc (length (concat cs))) (g_recvBuf st),
      net_log := net_log st @ evs\<rparr>)"
    using HttpRequest_Req_success [OF assms(1,2) len web_terminated(1)] by blast
  ultimately show ?thesis
    using len rest by (intro that [OF _ refl]) (auto simp: http_inv_def words_inv_def)
qed

lemma Requset_ok:
  assumes "read_contract env" "req_inv st"
  shows "\<exists>st'. ReqWord_Requset env st = Inr (connects env, st') \<and> req_inv st' \<and>
     (\<not> connects env \<longrightarrow> word st' = word st \<and> sentence st' = sentence st)"
proof (cases "connects env")
  case False
  from HttpRequest_Req_failure [OF this web_terminated(1), of WEB_SERVER WEB_PORT st]
  show ?thesis using False assms(2)
    by (auto simp: ReqWord_Requset_def req_inv_def http_inv_def words_inv_def)
next
  case True
  obtain cs where cs: "delivers env 0 (MAX_REC_BUFFER_SIZE - 1) cs"
    using delivers_exists [OF assms(1), of "MAX_REC_BUFFER_SIZE - 1" 0]
    by (auto simp: MAX_REC_BUFFER_SIZE_def)
  obtain st1 evs where req: "HttpRequest_Req env REQUEST WEB_SERVER WEB_PORT st = Inr (True, st1)"
    and st1: "http_inv st1" "length (s_reqBodyBuf st1) = MAX_BUFFER_SIZE" "words_inv st1"
    using request_step [OF True cs assms(2)] by metis
  define buf where
    "buf = cstr (g_recvBuf st1) @ replicate (MAX_BUFFER_SIZE - length (cstr (g_recvBuf st1))) 0"
  let ?st = "st1\<lparr>g_recvBuf := (g_recvBuf st1)[0 := 0], s_reqBodyBuf := buf\<rparr>"
  have buf: "length buf = MAX_BUFFER_SIZE" "terminated buf" "http_inv ?st"
    using received_buffer [OF st1(1) buf_def] by auto
  have "words_inv ?st" using st1(3) by (simp add: words_inv_def)
  from ParseResponse_ok [OF buf(2) this, of MAX_BUFFER_SIZE] obtain w s where
    parsed: "ReqWord_ParseResponse buf MAX_BUFFER_SIZE ?st = Inr (?st\<lparr>word := w, sentence := s\<rparr>)"
    and inv: "words_inv (?st\<lparr>word := w, sentence := s\<rparr>)" by blast
  show ?thesis
    unfolding Requset_after_receive [OF req st1(1,2) buf_def] parsed
    using buf inv True by (simp add: req_inv_def http_inv_def words_inv_def req_sizes)
qed

text \<open>
  C21. A whole word request: it never faults, whatever the server sends; it answers true exactly
  when the connection worked; the invariant of all four arrays (sizes and terminators) is kept;
  and after a failed connection the previous word and sentence are still there.
\<close>

theorem Requset_total:
  assumes "read_contract env" "req_inv st"
  shows "\<exists>st'. ReqWord_Requset env st = Inr (connects env, st') \<and> req_inv st' \<and>
     (\<not> connects env \<longrightarrow> word st' = word st \<and> sentence st' = sentence st)"
  using assms by (rule Requset_ok)

theorem Requset_total_witness:
  "\<exists>st'. ReqWord_Requset demo_env req_init = Inr (True, st') \<and> req_inv st'"
proof -
  have "read_contract demo_env" by (auto simp: read_contract_def demo_env_def)
  from Requset_total [OF this req_inv_init] demo_env_connects show ?thesis by simp
qed

lemma Requset_stores:
  assumes "connects env" "delivers env 0 (MAX_REC_BUFFER_SIZE - 1) cs" "req_inv st"
    "concat cs = h @ crlf2 @ w @ colon # replicate k space @ s"
    "\<And>i. i < length h \<Longrightarrow> take 4 (drop i (h @ crlf2)) \<noteq> crlf2"
    "0 \<notin> set h" "0 \<notin> set w" "0 \<notin> set s" "colon \<notin> set w" "length w < WORD_SIZE"
    "s = [] \<or> hd s \<noteq> space"
  shows "\<exists>st'. ReqWord_Requset env st = Inr (True, st') \<and> cstr (word st') = w \<and>
     cstr (sentence st') = take (SENTENCE_SIZE - 1) s"
proof -
  obtain st1 evs where req: "HttpRequest_Req env REQUEST WEB_SERVER WEB_PORT st = Inr (True, st1)"
    and rb: "st1 = st\<lparr>g_recvBuf := concat cs @ 0 # drop (Suc (length (concat cs))) (g_recvBuf st), net_log := net_log st @ evs\<rparr>"
    and st1: "http_inv st1" "length (s_reqBodyBuf st1) = MAX_BUFFER_SIZE" "words_inv st1"
    using request_step [OF assms(1-3)] by metis
  have "0 \<notin> set (concat cs)"
    using assms(4,6-8) by (auto simp: crlf2_def colon_def space_def)
  then have str: "cstr (g_recvBuf st1) = concat cs" by (simp add: rb cstr_append_nul)
  obtain n where "MAX_BUFFER_SIZE - length (concat cs) = Suc n"
    using delivers_length [OF assms(2)] by (cases "MAX_BUFFER_SIZE - length (concat cs)") (simp_all add: req_sizes)
  then have buf: "h @ crlf2 @ w @ colon # replicate k space @ s @ 0 # replicate n 0 =
      cstr (g_recvBuf st1) @ replicate (MAX_BUFFER_SIZE - length (cstr (g_recvBuf st1))) 0"
    using assms(4) by (simp add: str)
  let ?buf = "h @ crlf2 @ w @ colon # replicate k space @ s @ 0 # replicate n 0"
  let ?st = "st1\<lparr>g_recvBuf := (g_recvBuf st1)[0 := 0], s_reqBodyBuf := ?buf\<rparr>"
  have "words_inv ?st" using st1(3) by (simp add: words_inv_def)
  from ParseResponse_parses [OF assms(5-7,9,10,8,11) this]
  have parsed: "ReqWord_ParseResponse ?buf MAX_BUFFER_SIZE ?st = Inr (?st\<lparr>
      word := w @ replicate (WORD_SIZE - length w) 0,
      sentence := take (SENTENCE_SIZE - 1) (s @ replicate (SENTENCE_SIZE - 1) 0) @ [0]\<rparr>)" .
  have "length ?buf = MAX_BUFFER_SIZE" using received_buffer [OF st1(1) buf] by simp
  then show ?thesis
    unfolding Requset_after_receive [OF req st1(1,2) buf] parsed
    using assms(7,8) by (simp add: req_sizes cstr_append_nul cstr_take_pad)
qed

text \<open>
  C6. End to end: when the server answers \<open>header CRLF CRLF word : spaces sentence\<close>, in any
  number of TCP segments, and the response fits, the request answers true and the stored word
  and sentence are the server's (the sentence cut to 255 bytes).
\<close>

theorem Requset_word_and_sentence:
  assumes "connects env" "delivers env 0 (MAX_REC_BUFFER_SIZE - 1) cs" "req_inv st"
    "concat cs = h @ crlf2 @ w @ colon # replicate k space @ s"
    "\<And>i. i < length h \<Longrightarrow> take 4 (drop i (h @ crlf2)) \<noteq> crlf2"
    "0 \<notin> set h" "0 \<notin> set w" "0 \<notin> set s" "colon \<notin> set w" "length w < WORD_SIZE"
    "s = [] \<or> hd s \<noteq> space"
  shows "\<exists>st'. ReqWord_Requset env st = Inr (True, st') \<and> cstr (word st') = w \<and>
     cstr (sentence st') = take (SENTENCE_SIZE - 1) s"
  using assms by (rule Requset_stores)

theorem Requset_word_and_sentence_witness:
  "\<exists>st'. ReqWord_Requset (demo_env\<lparr>read_ret := (\<lambda>k n. if k = 0 \<and> 10 \<le> n
      then (10, [0x48] @ crlf2 @ [0x61, 0x62] @ colon # replicate 1 space @ [0x63]) else (0, []))\<rparr>)
     req_init = Inr (True, st') \<and>
   cstr (word st') = [0x61, 0x62] \<and> cstr (sentence st') = take (SENTENCE_SIZE - 1) [0x63]"
proof (rule Requset_word_and_sentence)
  let ?r = "[0x48] @ crlf2 @ [0x61, 0x62] @ colon # replicate 1 space @ [0x63]"
  let ?env = "demo_env\<lparr>read_ret := (\<lambda>k n. if k = 0 \<and> 10 \<le> n then (10, ?r) else (0, []))\<rparr>"
  show "connects ?env" by (simp add: connects_def demo_env_def)
  show "delivers ?env 0 (MAX_REC_BUFFER_SIZE - 1) [?r]" by (simp add: MAX_REC_BUFFER_SIZE_def)
  show "concat [?r] = [0x48] @ crlf2 @ [0x61, 0x62] @ colon # replicate 1 space @ [0x63]" by simp
  show "take 4 (drop i ([0x48] @ crlf2)) \<noteq> crlf2" if "i < length [0x48 :: byte]" for i
    using that by (simp add: crlf2_def)
qed (simp_all add: req_inv_init colon_def space_def req_sizes)

text \<open>
  Success without a word: when the connection works but the response has no blank line
  ending its header (an empty response after a receive timeout is one), the request still
  answers true, and the word and sentence are those of an earlier request.
\<close>

lemma Requset_true_without_body:
  assumes "connects env" "delivers env 0 (MAX_REC_BUFFER_SIZE - 1) cs" "req_inv st"
    "0 \<notin> set (concat cs)" "\<And>i. take 4 (drop i (concat cs)) \<noteq> crlf2"
  shows "\<exists>st'. ReqWord_Requset env st = Inr (True, st') \<and> word st' = word st \<and>
     sentence st' = sentence st"
proof -
  obtain st1 evs where req: "HttpRequest_Req env REQUEST WEB_SERVER WEB_PORT st = Inr (True, st1)"
    and rb: "st1 = st\<lparr>g_recvBuf := concat cs @ 0 # drop (Suc (length (concat cs))) (g_recvBuf st), net_log := net_log st @ evs\<rparr>"
    and st1: "http_inv st1" "length (s_reqBodyBuf st1) = MAX_BUFFER_SIZE" "words_inv st1"
    using request_step [OF assms(1-3)] by metis
  have str: "cstr (g_recvBuf st1) = concat cs" by (simp add: rb cstr_append_nul [OF assms(4)])
  define buf where
    "buf = cstr (g_recvBuf st1) @ replicate (MAX_BUFFER_SIZE - length (cstr (g_recvBuf st1))) 0"
  have buf: "length buf = MAX_BUFFER_SIZE" "terminated buf" "cstr buf = concat cs"
    using received_buffer [OF st1(1) buf_def] str by auto
  have "c_strstr buf crlf2 = Inr None"
  proof (rule c_strstr_absent)
    show "take (length crlf2) (drop i (cstr buf)) \<noteq> crlf2" for i
      unfolding buf(3) length_crlf2 by (rule assms(5))
  qed (use buf(2) in \<open>simp_all add: crlf2_def\<close>)
  then show ?thesis
    unfolding Requset_after_receive [OF req st1(1,2) buf_def]
    using buf(1) by (simp add: ReqWord_ParseResponse_def rb req_sizes)
qed

subsection \<open>Copying the strings out\<close>

lemma copy_out_eq:
  assumes "terminated src"
  shows "copy_out src str =
    (if length (cstr src) < length str
     then Inr (cstr src @ 0 # drop (Suc (length (cstr src))) str) else Inl Undef)"
proof -
  have t: "take (length (cstr src)) (cstr src @ replicate (length (cstr src)) 0) = cstr src" by simp
  consider "length (cstr src) < length str" | "length (cstr src) = length str" |
    "length str < length (cstr src)" by linarith
  then show ?thesis
  proof cases
    case 3
    then show ?thesis
      using assms by (simp add: copy_out_def c_strncpy_def strncpy_bytes_eq c_memcpy_def)
  qed (use assms in \<open>simp_all add: copy_out_def c_strncpy_eq list_update_at_drop\<close>)
qed

text \<open>
  Copying the word out: the caller's array receives the stored string and its terminator,
  and nothing beyond, when it has room for both; otherwise the copy writes past the array.
\<close>

lemma GetWord_copies:
  assumes "req_inv st"
  shows "ReqWord_GetWord str st =
    (if length (cstr (word st)) < length str
     then Inr (cstr (word st) @ 0 # drop (Suc (length (cstr (word st)))) str) else Inl Undef)"
  using assms by (simp add: ReqWord_GetWord_def copy_out_eq req_inv_def words_inv_def)

end
