(* ===== verification/Tv_Task.thy ===== *)
theory Tv_Task
  imports Lcd_Touch Audio_Stream Req_Word
begin

text \<open>
  \<open>main/task.c\<close>: the four tasks of the firmware and the state they share. A task's function is an
  endless loop; the model has its body, one iteration at a time.
\<close>

subsection \<open>State\<close>

definition TV_TASK_TIME_MIN :: byte where "TV_TASK_TIME_MIN = 2"
definition TV_TASK_TIME_SEC :: byte where "TV_TASK_TIME_SEC = 0"
definition TV_TASK_REPEAT_TIME_SEC :: byte where "TV_TASK_REPEAT_TIME_SEC = 15"

lemmas tv_time_defs = TV_TASK_TIME_MIN_def TV_TASK_TIME_SEC_def TV_TASK_REPEAT_TIME_SEC_def

record ScreenData =
  isNewWord :: bool
  sd_word :: "byte list"
  word_x :: u32
  word_y :: u32
  isNewSentence :: bool
  sd_sentence :: "byte list"
  sentence_x :: u32
  sentence_y :: u32
  isNewTime :: bool
  sd_time :: "byte list"
  time_x :: u32
  time_y :: u32

definition s_wordData_init :: ScreenData where
  "s_wordData_init = \<lparr>
     isNewWord = False, sd_word = replicate 100 0, word_x = 10, word_y = 10,
     isNewSentence = False, sd_sentence = replicate 256 0, sentence_x = 10, sentence_y = 60,
     isNewTime = False, sd_time = replicate 20 0, time_x = 150, time_y = 200\<rparr>"

datatype task = AudioStreamTask | LcdTouchTask | TimerTask | MainTask

text \<open>There are no other tasks, so sums and quantifiers over them are finite.\<close>

instantiation task :: enum
begin

definition enum_task :: "task list" where
  "enum_task = [AudioStreamTask, LcdTouchTask, TimerTask, MainTask]"

definition enum_all_task :: "(task \<Rightarrow> bool) \<Rightarrow> bool" where
  "enum_all_task P \<longleftrightarrow> P AudioStreamTask \<and> P LcdTouchTask \<and> P TimerTask \<and> P MainTask"

definition enum_ex_task :: "(task \<Rightarrow> bool) \<Rightarrow> bool" where
  "enum_ex_task P \<longleftrightarrow> P AudioStreamTask \<or> P LcdTouchTask \<or> P TimerTask \<or> P MainTask"

instance
proof
  show u: "(UNIV :: task set) = set enum_class.enum"
    unfolding enum_task_def by (auto intro: task.exhaust)
  show "distinct (enum_class.enum :: task list)" by (simp add: enum_task_def)
  show "enum_class.enum_all P = Ball UNIV P" for P :: "task \<Rightarrow> bool"
    unfolding u by (simp add: enum_task_def enum_all_task_def)
  show "enum_class.enum_ex P = Bex UNIV P" for P :: "task \<Rightarrow> bool"
    unfolding u by (simp add: enum_task_def enum_ex_task_def)
qed

end

text \<open>
  The whole firmware: the display module's statics, the request module's and the audio module's, the
  statics of \<open>task.c\<close>, the timer task's two local variables, the tasks that were created, how often
  light sleep was entered, the pin and level that end it, the power save mode of the radio, and as parameters the network at each request and the Hangul bitmaps.
\<close>

record tv_state = "unit ili_dev_ext lcd_state" +
  tv_req :: req_state
  tv_audio :: audio_state
  s_isWordRequest :: bool
  s_isStartTimer :: bool
  s_timerTick :: u32
  s_wordData :: ScreenData
  timer_min :: byte
  timer_sec :: byte
  tv_tasks :: "task list"
  light_sleeps :: nat
  ext0_wakeup :: "(int \<times> nat) option"
  wifi_ps_min_modem :: bool
  requests :: nat
  tv_net :: "nat \<Rightarrow> net_env"
  tv_bitmaps :: bitmaps

subsection \<open>The touch callback and the screen\<close>

definition TASK_TOUCH_CALLBACK :: touch_callback where "TASK_TOUCH_CALLBACK = 1"

definition Task_TouchCallback :: "tv_state \<Rightarrow> tv_state run" where
  "Task_TouchCallback st = LcdTouch_TurnOn (st\<lparr>s_isStartTimer := True\<rparr>)"

text \<open>The only callback address in the program.\<close>

definition call_touch :: "touch_callback \<Rightarrow> tv_state \<Rightarrow> tv_state run" where
  "call_touch f st = (if f = TASK_TOUCH_CALLBACK then Task_TouchCallback st else Inl Undef)"

abbreviation draw_string :: "byte list \<Rightarrow> u32 \<Rightarrow> u32 \<Rightarrow> tv_state \<Rightarrow> tv_state run" where
  "draw_string str x y st \<equiv> LcdTouch_DrawString (Font (tv_bitmaps st)) str x y st"

definition Task_UpdateScreen :: "tv_state \<Rightarrow> tv_state run" where
  "Task_UpdateScreen st =
     bindR (if isNewWord (s_wordData st) then
              bindR (draw_string (sd_word (s_wordData st)) (word_x (s_wordData st)) (word_y (s_wordData st)) st) (\<lambda>st.
              Inr (st\<lparr>s_wordData := (s_wordData st)\<lparr>isNewWord := False\<rparr>\<rparr>))
            else Inr st) (\<lambda>st.
     bindR (if isNewSentence (s_wordData st) then
              bindR (draw_string (sd_sentence (s_wordData st)) (sentence_x (s_wordData st)) (sentence_y (s_wordData st)) st) (\<lambda>st.
              Inr (st\<lparr>s_wordData := (s_wordData st)\<lparr>isNewSentence := False\<rparr>\<rparr>))
            else Inr st) (\<lambda>st.
     if isNewTime (s_wordData st) then
       bindR (draw_string (sd_time (s_wordData st)) (time_x (s_wordData st)) (time_y (s_wordData st)) st) (\<lambda>st.
       Inr (st\<lparr>s_wordData := (s_wordData st)\<lparr>isNewTime := False\<rparr>\<rparr>))
     else Inr st))"

definition Task_LcdTouch :: "tv_state \<Rightarrow> tv_state run" where
  "Task_LcdTouch st = bindR (LcdTouch_Task call_touch st) Task_UpdateScreen"

subsection \<open>The audio task\<close>

definition on_audio :: "(audio_state \<Rightarrow> audio_state run) \<Rightarrow> tv_state \<Rightarrow> tv_state run" where
  "on_audio f st = bindR (f (tv_audio st)) (\<lambda>a. Inr (st\<lparr>tv_audio := a\<rparr>))"

definition Task_AudioStream_Wrapper :: "tv_state \<Rightarrow> tv_state run" where
  "Task_AudioStream_Wrapper = on_audio AudioStream_Task"

subsection \<open>The timer task\<close>

text \<open>\<open>sprintf (buf, "%02d : %02d", a, b)\<close>: decimal digits, at least two.\<close>

fun digits :: "nat \<Rightarrow> byte list" where
  "digits n = (if n < 10 then [of_nat (0x30 + n)] else digits (n div 10) @ [of_nat (0x30 + n mod 10)])"

declare digits.simps [simp del]

definition dec02 :: "nat \<Rightarrow> byte list" where
  "dec02 n = (if n < 10 then [0x30] else []) @ digits n"

definition time_text :: "byte \<Rightarrow> byte \<Rightarrow> byte list" where
  "time_text m s = dec02 (unat m) @ [0x20, 0x3A, 0x20] @ dec02 (unat s)"

definition c_sprintf :: "byte list \<Rightarrow> byte list \<Rightarrow> byte list run" where
  "c_sprintf buf s = (if length s < length buf then Inr (s @ 0 # drop (Suc (length s)) buf) else Inl Undef)"

definition esp_light_sleep_start :: "tv_state \<Rightarrow> tv_state" where
  "esp_light_sleep_start st = st\<lparr>light_sleeps := light_sleeps st + 1\<rparr>"

text \<open>The count-down: decrement, with the borrow from the minutes.\<close>

definition count_down :: "tv_state \<Rightarrow> tv_state" where
  "count_down st =
     (let st = st\<lparr>timer_sec := timer_sec st - 1\<rparr> in
      if timer_sec st > 60 then
        let st = st\<lparr>s_isWordRequest := True, timer_sec := 59, timer_min := timer_min st - 1\<rparr> in
        if timer_min st > 60 then st\<lparr>timer_min := TV_TASK_TIME_MIN\<rparr> else st
      else st)"

definition Task_TimerTask :: "tv_state \<Rightarrow> tv_state run" where
  "Task_TimerTask st =
     (let st = st\<lparr>s_timerTick := s_timerTick st + 1\<rparr> in
      if s_isStartTimer st then
        bindR (c_sprintf (sd_time (s_wordData st)) (time_text (timer_min st) (timer_sec st))) (\<lambda>t.
        let st = st\<lparr>s_wordData := (s_wordData st)\<lparr>sd_time := t, isNewTime := True\<rparr>\<rparr>;
            st = count_down st in
        if timer_sec st = 0 \<and> timer_min st = 0 then
          let st = st\<lparr>s_isStartTimer := False, timer_min := TV_TASK_TIME_MIN, timer_sec := TV_TASK_TIME_SEC\<rparr> in
          bindR (LcdTouch_TurnOff st) (\<lambda>st. Inr (esp_light_sleep_start st))
        else if timer_sec st mod TV_TASK_REPEAT_TIME_SEC = 0 \<and> timer_sec st \<noteq> 0 then on_audio AudioStream_Run st
        else Inr st)
      else Inr st)"

subsection \<open>The main task\<close>

definition Task_MainTask :: "tv_state \<Rightarrow> tv_state run" where
  "Task_MainTask st =
     (if s_isWordRequest st then
        bindR (ReqWord_Requset (tv_net st (requests st)) (tv_req st)) (\<lambda>(ok, r).
        let st = st\<lparr>tv_req := r, requests := requests st + 1\<rparr> in
        bindR (if ok then
                 bindR (LcdTouch_ResetBackground st) (\<lambda>st.
                 bindR (ReqWord_GetWord (sd_word (s_wordData st)) (tv_req st)) (\<lambda>b.
                 let st = st\<lparr>s_wordData := (s_wordData st)\<lparr>sd_word := b, isNewWord := True\<rparr>\<rparr> in
                 bindR (ReqWord_GetSentence (sd_sentence (s_wordData st)) (tv_req st)) (\<lambda>b.
                 let st = st\<lparr>s_wordData := (s_wordData st)\<lparr>sd_sentence := b, isNewSentence := True\<rparr>\<rparr> in
                 on_audio AudioStream_Run st)))
               else Inr st) (\<lambda>st.
        Inr (st\<lparr>s_isWordRequest := False\<rparr>)))
      else Inr st)"

subsection \<open>Starting the tasks\<close>

text \<open>The results of the calls are dropped by the code; here they succeed: all four tasks exist afterwards.\<close>

definition Task_Init :: "tv_state \<Rightarrow> tv_state" where
  "Task_Init st =
     (let st = st\<lparr>ext0_wakeup := Some (8, 0)\<rparr>;
          st = st\<lparr>wifi_ps_min_modem := True\<rparr>;
          st = LcdTouch_SetTouchCallback (Some TASK_TOUCH_CALLBACK) st;
          st = st\<lparr>tv_tasks := tv_tasks st @ [AudioStreamTask]\<rparr>;
          st = st\<lparr>tv_tasks := tv_tasks st @ [LcdTouchTask]\<rparr>;
          st = st\<lparr>tv_tasks := tv_tasks st @ [TimerTask]\<rparr>;
          st = st\<lparr>tv_tasks := tv_tasks st @ [MainTask]\<rparr> in
      esp_light_sleep_start st)"

primrec task_body :: "task \<Rightarrow> tv_state \<Rightarrow> tv_state run" where
  "task_body AudioStreamTask = Task_AudioStream_Wrapper"
| "task_body LcdTouchTask = Task_LcdTouch"
| "task_body TimerTask = Task_TimerTask"
| "task_body MainTask = Task_MainTask"

subsection \<open>The clock\<close>

text \<open>The values the timer task's two variables take: from 2:00 down to 0:01.\<close>

definition clock_ok :: "byte \<Rightarrow> byte \<Rightarrow> bool" where
  "clock_ok m s \<longleftrightarrow> unat m \<le> 2 \<and> unat s \<le> 59 \<and> (unat m = 2 \<longrightarrow> s = 0) \<and> \<not> (m = 0 \<and> s = 0)"

text \<open>The abstract clock: seconds to go.\<close>

definition clock :: "tv_state \<Rightarrow> nat" where
  "clock st = 60 * unat (timer_min st) + unat (timer_sec st)"

lemma byte_pred: "b \<noteq> 0 \<Longrightarrow> unat (b - 1 :: byte) = unat b - 1"
  by (metis unat_minus_one)

lemma count_down_eq:
  assumes "clock_ok (timer_min st) (timer_sec st)"
  shows "count_down st = st\<lparr>s_isWordRequest := s_isWordRequest st \<or> timer_sec st = 0,
     timer_sec := if timer_sec st = 0 then 59 else timer_sec st - 1,
     timer_min := if timer_sec st = 0 then timer_min st - 1 else timer_min st\<rparr>"
proof (cases "timer_sec st = 0")
  case True
  hence m: "timer_min st \<noteq> 0" using assms by (auto simp: clock_ok_def)
  have "\<not> timer_min st - 1 > 60"
    using byte_pred [OF m] assms by (auto simp: word_less_nat_alt clock_ok_def)
  thus ?thesis using True by (simp add: count_down_def Let_def)
next
  case False
  have "\<not> timer_sec st - 1 > 60"
    using byte_pred [OF False] assms by (auto simp: word_less_nat_alt clock_ok_def)
  thus ?thesis using False by (cases st) (simp add: count_down_def Let_def)
qed

lemma count_down_clock:
  assumes "clock_ok (timer_min st) (timer_sec st)"
  shows "Suc (clock (count_down st)) = clock st"
    and "unat (timer_sec (count_down st)) \<le> 59" "unat (timer_min (count_down st)) < 2"
    and "(timer_sec (count_down st) = 0 \<and> timer_min (count_down st) = 0) = (clock st = 1)"
proof -
  have m: "timer_min st \<noteq> 0" if "timer_sec st = 0" using assms that by (auto simp: clock_ok_def)
  have s: "0 < unat (timer_sec st)" if "timer_sec st \<noteq> 0" using that by (simp add: unat_gt_0)
  have m0: "0 < unat (timer_min st)" if "timer_sec st = 0" using m [OF that] by (simp add: unat_gt_0)
  show c: "Suc (clock (count_down st)) = clock st"
  proof (cases "timer_sec st = 0")
    case True
    obtain k where "unat (timer_min st) = Suc k" using m0 [OF True] by (cases "unat (timer_min st)") auto
    thus ?thesis using True m [OF True] by (simp add: count_down_eq [OF assms] clock_def byte_pred)
  next
    case False
    thus ?thesis using s [OF False] by (simp add: count_down_eq [OF assms] clock_def byte_pred)
  qed
  show "unat (timer_sec (count_down st)) \<le> 59" "unat (timer_min (count_down st)) < 2"
    using assms m s m0 by (auto simp: count_down_eq [OF assms] clock_ok_def byte_pred)
  have "(timer_sec (count_down st) = 0 \<and> timer_min (count_down st) = 0) = (clock (count_down st) = 0)"
    by (auto simp: clock_def unat_eq_0)
  thus "(timer_sec (count_down st) = 0 \<and> timer_min (count_down st) = 0) = (clock st = 1)"
    using c by linarith
qed

lemma count_down_keeps [simp]:
  "dev (count_down st) = dev st" "tv_audio (count_down st) = tv_audio st" "tv_req (count_down st) = tv_req st"
  "s_wordData (count_down st) = s_wordData st" "s_timerTick (count_down st) = s_timerTick st"
  "s_isStartTimer (count_down st) = s_isStartTimer st" "light_sleeps (count_down st) = light_sleeps st"
  "isInitDisplay (count_down st) = isInitDisplay st" "s_panelHandle (count_down st) = s_panelHandle st"
  "s_touch_callback_f (count_down st) = s_touch_callback_f st" "tv_net (count_down st) = tv_net st"
  "tv_bitmaps (count_down st) = tv_bitmaps st" "s_backgroud_color (count_down st) = s_backgroud_color st"
  by (simp_all add: count_down_def Let_def)

lemma digits_two: "10 \<le> n \<Longrightarrow> n < 100 \<Longrightarrow> digits n = [of_nat (0x30 + n div 10), of_nat (0x30 + n mod 10)]"
proof -
  assume n: "10 \<le> n" "n < 100"
  hence "n div 10 < 10" by linarith
  hence "digits (n div 10) = [of_nat (0x30 + n div 10)]" by (subst digits.simps) simp
  thus "digits n = [of_nat (0x30 + n div 10), of_nat (0x30 + n mod 10)]"
    using n by (subst digits.simps) simp
qed

lemma dec02_two: "n < 100 \<Longrightarrow> dec02 n = [of_nat (0x30 + n div 10), of_nat (0x30 + n mod 10)]"
  by (cases "n < 10") (simp_all add: dec02_def digits_two digits.simps)

definition time_code :: "nat \<Rightarrow> nat \<Rightarrow> nat list" where
  "time_code m s = [0x30 + m div 10, 0x30 + m mod 10, 0x20, 0x3A, 0x20, 0x30 + s div 10, 0x30 + s mod 10]"

lemma time_text_encode:
  assumes "unat m < 100" "unat s < 100"
  shows "time_text m s = encode (time_code (unat m) (unat s))" "length (time_text m s) = 7"
    "list_all drawable (time_code (unat m) (unat s))"
proof -
  have digit: "utf8_encode (0x30 + n) = [of_nat (0x30 + n)]" if "n < 10" for n
    using that by (simp add: utf8_encode_def)
  have other: "utf8_encode 0x20 = [0x20]" "utf8_encode 0x3A = [0x3A]" by (simp_all add: utf8_encode_def)
  have lt: "unat m div 10 < 10" "unat s div 10 < 10" "unat m mod 10 < 10" "unat s mod 10 < 10" using assms by auto
  show "time_text m s = encode (time_code (unat m) (unat s))"
    unfolding time_text_def dec02_two [OF assms(1)] dec02_two [OF assms(2)] time_code_def encode_simps other
      digit [OF lt(1)] digit [OF lt(2)] digit [OF lt(3)] digit [OF lt(4)] by simp
  show "length (time_text m s) = 7" using assms by (simp add: time_text_def dec02_two)
  have "drawable (0x30 + n)" if "n < 10" for n using that by (auto simp: drawable_def supported_def)
  moreover have "drawable 0x20" "drawable 0x3A" by (auto simp: drawable_def supported_def)
  ultimately show "list_all drawable (time_code (unat m) (unat s))"
    using assms by (simp add: time_code_def)
qed

subsection \<open>The invariant of the running firmware\<close>

definition text_buf :: "nat \<Rightarrow> byte list \<Rightarrow> bool" where
  "text_buf n buf \<longleftrightarrow> length buf = n \<and> (\<exists>cs rest. list_all drawable cs \<and> buf = encode cs @ 0 # rest)"

definition screen_inv :: "ScreenData \<Rightarrow> bool" where
  "screen_inv sd \<longleftrightarrow> text_buf 100 (sd_word sd) \<and> text_buf 256 (sd_sentence sd) \<and> text_buf 20 (sd_time sd) \<and>
     word_x sd = 10 \<and> word_y sd = 10 \<and> sentence_x sd = 10 \<and> sentence_y sd = 60 \<and> time_x sd = 150 \<and> time_y sd = 200"

text \<open>
  A server the firmware can live with: when it can be reached, it answers a header, an empty line and
  \<open>word : sentence\<close>, with a word of at most 99 bytes and a sentence of at most 255, all characters
  drawable. When it cannot be reached, the request fails and nothing is asked of it.
\<close>

definition polite_answer :: "net_env \<Rightarrow> nat list \<Rightarrow> nat list \<Rightarrow> bool" where
  "polite_answer env ws ss \<longleftrightarrow> list_all drawable ws \<and> list_all drawable ss \<and> length (encode ws) < 100 \<and>
     length (encode ss) < 256 \<and> (\<exists>cs h k. delivers env 0 (MAX_REC_BUFFER_SIZE - 1) cs \<and>
       concat cs = h @ crlf2 @ encode ws @ colon # replicate k space @ encode ss \<and>
       (\<forall>i<length h. take 4 (drop i (h @ crlf2)) \<noteq> crlf2) \<and> 0 \<notin> set h \<and> colon \<notin> set (encode ws) \<and>
       (encode ss = [] \<or> hd (encode ss) \<noteq> space))"

definition polite :: "net_env \<Rightarrow> bool" where
  "polite env \<longleftrightarrow> read_contract env \<and> (connects env \<longrightarrow> (\<exists>ws ss. polite_answer env ws ss))"

definition tv_inv :: "tv_state \<Rightarrow> bool" where
  "tv_inv st \<longleftrightarrow> lcd_ok st \<and> s_touch_callback_f st = Some TASK_TOUCH_CALLBACK \<and> bitmaps_ok (tv_bitmaps st) \<and>
     req_inv (tv_req st) \<and> audio_ready (tv_audio st) \<and> screen_inv (s_wordData st) \<and>
     clock_ok (timer_min st) (timer_sec st) \<and> (\<forall>n. polite (tv_net st n))"

text \<open>What happens in the firmware, one thing after the other: an iteration of a task, or the touch interrupt.\<close>

datatype tv_event = Iter task | TouchIrq

text \<open>A task that waits for an audio event stays where it is until there is one.\<close>

definition tv_step :: "tv_event \<Rightarrow> tv_state \<Rightarrow> tv_state run" where
  "tv_step e st =
     (case e of
        TouchIrq \<Rightarrow> Inr (LcdTouch_TouchISR st)
      | Iter t \<Rightarrow>
          if t = AudioStreamTask \<and> au_events (tv_audio st) (length (au_log (tv_audio st))) = None then Inr st
          else task_body t st)"

subsection \<open>Each event keeps it\<close>

lemma length_encode: "length cs \<le> length (encode cs)"
proof (induction cs)
  case (Cons c cs)
  have "0 < length (utf8_encode c)" by (auto simp: utf8_encode_def)
  thus ?case using Cons unfolding encode_simps length_append list.size by linarith
qed simp

lemma draw_text_buf:
  assumes "lcd_ok st" "bitmaps_ok (tv_bitmaps st)" "list_all drawable cs" "length (encode cs @ 0 # rest) \<le> 256"
    and "x \<le> 1000" "y \<le> 1000"
  shows "\<exists>w' r. draw_string (encode cs @ 0 # rest) (of_nat x) (of_nat y) st = Inr (st\<lparr>dev := w', refresh_finish := r\<rparr>) \<and>
    lcd_ok (st\<lparr>dev := w', refresh_finish := r\<rparr>) \<and>
    draws_to (text_frame (tv_bitmaps st) 0xFFFF (s_backgroud_color st) cs (x, y) (frame (dev st))) (dev st) w'"
proof -
  have "length cs \<le> 256" using length_encode [of cs] assms(4) by simp
  thus ?thesis
    using ili.draw_string_ok [of "tv_bitmaps st" cs st ili9341_base x y rest] assms
    by (auto simp: lcd_ok_def ili9341_base_draw draws_to_def)
qed

lemma draw_if_new:
  assumes "tv_inv st" "text_buf n buf" "n \<le> 256" "x \<le> 1000" "y \<le> 1000"
    and "\<And>sd. screen_inv sd \<Longrightarrow> screen_inv (clear sd)"
  shows "\<exists>st'. (if new then bindR (draw_string buf (of_nat x) (of_nat y) st)
                 (\<lambda>st. Inr (st\<lparr>s_wordData := clear (s_wordData st)\<rparr>)) else Inr st) = Inr st' \<and> tv_inv st'"
proof (cases new)
  case True
  obtain cs rest where b: "list_all drawable cs" "buf = encode cs @ 0 # rest" "length buf = n"
    using assms(2) by (auto simp: text_buf_def)
  hence "length (encode cs @ 0 # rest) \<le> 256" using assms(3) by simp
  with draw_text_buf [of st cs rest x y] assms(1,4,5) b(1) obtain w' r where
    "draw_string (encode cs @ 0 # rest) (of_nat x) (of_nat y) st = Inr (st\<lparr>dev := w', refresh_finish := r\<rparr>)"
    "lcd_ok (st\<lparr>dev := w', refresh_finish := r\<rparr>)"
    by (auto simp: tv_inv_def)
  thus ?thesis using True assms(1,6) b(2) by (auto simp: tv_inv_def lcd_ok_def)
next
  case False
  thus ?thesis using assms(1) by simp
qed

lemma update_screen_ok:
  assumes "tv_inv st"
  shows "\<exists>st'. Task_UpdateScreen st = Inr st' \<and> tv_inv st'"
proof -
  have pos: "word_x (s_wordData st) = of_nat 10" "word_y (s_wordData st) = of_nat 10"
    "sentence_x (s_wordData st) = of_nat 10" "sentence_y (s_wordData st) = of_nat 60"
    "time_x (s_wordData st) = of_nat 150" "time_y (s_wordData st) = of_nat 200"
    "text_buf 100 (sd_word (s_wordData st))" "text_buf 256 (sd_sentence (s_wordData st))" "text_buf 20 (sd_time (s_wordData st))"
    if "tv_inv st" for st
    using that by (simp_all add: tv_inv_def screen_inv_def)
  let ?w = "\<lambda>st. if isNewWord (s_wordData st) then
      bindR (draw_string (sd_word (s_wordData st)) (word_x (s_wordData st)) (word_y (s_wordData st)) st)
        (\<lambda>st. Inr (st\<lparr>s_wordData := (s_wordData st)\<lparr>isNewWord := False\<rparr>\<rparr>)) else Inr st"
  let ?s = "\<lambda>st. if isNewSentence (s_wordData st) then
      bindR (draw_string (sd_sentence (s_wordData st)) (sentence_x (s_wordData st)) (sentence_y (s_wordData st)) st)
        (\<lambda>st. Inr (st\<lparr>s_wordData := (s_wordData st)\<lparr>isNewSentence := False\<rparr>\<rparr>)) else Inr st"
  let ?t = "\<lambda>st. if isNewTime (s_wordData st) then
      bindR (draw_string (sd_time (s_wordData st)) (time_x (s_wordData st)) (time_y (s_wordData st)) st)
        (\<lambda>st. Inr (st\<lparr>s_wordData := (s_wordData st)\<lparr>isNewTime := False\<rparr>\<rparr>)) else Inr st"
  have w: "\<exists>st'. ?w st = Inr st' \<and> tv_inv st'" if "tv_inv st" for st
    unfolding pos(1,2) [OF that]
    by (rule draw_if_new [OF that pos(7) [OF that]]) (simp_all add: screen_inv_def)
  have s: "\<exists>st'. ?s st = Inr st' \<and> tv_inv st'" if "tv_inv st" for st
    unfolding pos(3,4) [OF that]
    by (rule draw_if_new [OF that pos(8) [OF that]]) (simp_all add: screen_inv_def)
  have t: "\<exists>st'. ?t st = Inr st' \<and> tv_inv st'" if "tv_inv st" for st
    unfolding pos(5,6) [OF that]
    by (rule draw_if_new [OF that pos(9) [OF that]]) (simp_all add: screen_inv_def)
  show ?thesis
    unfolding Task_UpdateScreen_def
    by (rule bindR_total [where P = tv_inv, OF w [OF assms]], rule bindR_total [where P = tv_inv], erule s, erule t)
qed

lemma turn_ok:
  assumes "lcd_ok st"
  shows "LcdTouch_TurnOn st = Inr (st\<lparr>dev := io_emit (GpioSetLevel (int LT_PIN_NUM_BK_LIGHT) LT_LCD_BK_LIGHT_ON_LEVEL)
            (io_emit (TxParam LCD_CMD_DISPON []) (dev st))\<rparr>)"
    and "LcdTouch_TurnOff st = Inr (st\<lparr>dev := io_emit (GpioSetLevel (int LT_PIN_NUM_BK_LIGHT) LT_LCD_BK_LIGHT_OFF_LEVEL)
            (io_emit (TxParam LCD_CMD_DISPOFF []) (dev st))\<rparr>)"
proof -
  obtain p where "dev_panel (dev st) = Some p"
    using assms by (auto simp: lcd_ok_def ili_ready_def split: option.splits)
  thus "LcdTouch_TurnOn st = Inr (st\<lparr>dev := io_emit (GpioSetLevel (int LT_PIN_NUM_BK_LIGHT) LT_LCD_BK_LIGHT_ON_LEVEL)
            (io_emit (TxParam LCD_CMD_DISPON []) (dev st))\<rparr>)"
    "LcdTouch_TurnOff st = Inr (st\<lparr>dev := io_emit (GpioSetLevel (int LT_PIN_NUM_BK_LIGHT) LT_LCD_BK_LIGHT_OFF_LEVEL)
            (io_emit (TxParam LCD_CMD_DISPOFF []) (dev st))\<rparr>)"
    using assms panel_disp_on_off_ok [of "dev st" p True] panel_disp_on_off_ok [of "dev st" p False]
    by (simp_all add: LcdTouch_TurnOn_def LcdTouch_TurnOff_def lcd_ok_def ili9341_base_def check_dev_ok gpio_set_level_def)
qed

lemma lcd_ok_emit: "lcd_ok (st\<lparr>dev := io_emit e (dev st)\<rparr>) = lcd_ok st"
  by (simp add: lcd_ok_def ili_ready_def)

lemma touch_task_ok:
  assumes "tv_inv st"
  shows "\<exists>st'. LcdTouch_Task call_touch st = Inr st' \<and> tv_inv st' \<and> \<not> isTouchOccurred st' \<and>
    (isTouchOccurred st \<longrightarrow> s_isStartTimer st' \<and> chip_on (chip_of (dev st')))"
proof -
  have ok: "lcd_ok (st\<lparr>s_isStartTimer := True\<rparr>)" using assms by (simp add: tv_inv_def lcd_ok_def)
  show ?thesis
    using assms turn_ok(1) [OF ok] chip_disp_on_off [of True]
    by (auto simp: LcdTouch_Task_def tv_inv_def call_touch_def Task_TouchCallback_def lcd_ok_def ili_ready_def)
qed

lemma on_audio_run:
  assumes "audio_ready (tv_audio st)"
  shows "on_audio AudioStream_Run st =
    Inr (st\<lparr>tv_audio := (tv_audio st)\<lparr>au_log := au_log (tv_audio st) @ restart_calls\<rparr>\<rparr>)"
  using Run_ready [OF assms] by (simp add: on_audio_def)

lemma tv_inv_upd:
  assumes "tv_inv st"
  shows "audio_ready a \<Longrightarrow> tv_inv (st\<lparr>tv_audio := a\<rparr>)"
    and "tv_inv (st\<lparr>s_timerTick := n\<rparr>)" "tv_inv (st\<lparr>s_isWordRequest := b\<rparr>)" "tv_inv (st\<lparr>s_isStartTimer := b\<rparr>)"
    and "tv_inv (st\<lparr>light_sleeps := k\<rparr>)" "clock_ok m s \<Longrightarrow> tv_inv (st\<lparr>timer_min := m, timer_sec := s\<rparr>)"
    and "tv_inv (st\<lparr>isTouchOccurred := b\<rparr>)" "screen_inv sd \<Longrightarrow> tv_inv (st\<lparr>s_wordData := sd\<rparr>)"
    and "req_inv r \<Longrightarrow> tv_inv (st\<lparr>tv_req := r\<rparr>)" "tv_inv (st\<lparr>requests := k\<rparr>)"
    and "tv_inv (st\<lparr>dev := io_emit e (dev st)\<rparr>)"
  using assms by (simp_all add: tv_inv_def lcd_ok_def ili_ready_def)

lemma play_second:
  assumes "unat (s :: byte) \<le> 59"
  shows "(s mod TV_TASK_REPEAT_TIME_SEC = 0 \<and> s \<noteq> 0) = (unat s \<in> {15, 30, 45})"
proof -
  have "(s mod 15 = 0) = (unat s mod 15 = 0)"
    by (simp add: unat_eq_0 [symmetric] unat_mod)
  moreover have "(s \<noteq> 0) = (unat s \<noteq> 0)" by (simp add: unat_eq_0)
  moreover have "(unat s mod 15 = 0 \<and> unat s \<noteq> 0) = (unat s \<in> {15, 30, 45})"
    using assms by auto
  ultimately show ?thesis by (simp add: tv_time_defs)
qed

text \<open>One iteration of the running timer, in terms of the abstract clock.\<close>

definition plays_at :: "nat \<Rightarrow> bool" where
  "plays_at c \<longleftrightarrow> c mod 60 \<in> {15, 30, 45}"

lemma print_time_ok:
  assumes "clock_ok m s" "length buf = 20"
  shows "\<exists>t. c_sprintf buf (time_text m s) = Inr t \<and> text_buf 20 t"
proof -
  have lt: "unat m < 100" "unat s < 100" using assms(1) by (auto simp: clock_ok_def)
  have "text_buf 20 (time_text m s @ 0 # drop 8 buf)"
    unfolding text_buf_def time_text_encode(1) [OF lt] using assms(2) time_text_encode [OF lt] by auto
  thus ?thesis using assms(2) time_text_encode(2) [OF lt] by (simp add: c_sprintf_def)
qed

lemma encode_drawable_no_nul: "list_all drawable cs \<Longrightarrow> 0 \<notin> set (encode cs)"
  by (rule encode_no_nul) (simp add: list_all_iff drawable_def)

lemma print_time_cstr:
  assumes "clock_ok m s" "c_sprintf buf (time_text m s) = Inr t"
  shows "cstr t = time_text m s"
proof -
  have lt: "unat m < 100" "unat s < 100" using assms(1) by (auto simp: clock_ok_def)
  have "0 \<notin> set (time_text m s)"
    using time_text_encode [OF lt] encode_drawable_no_nul by simp
  thus ?thesis using assms(2) by (auto simp: c_sprintf_def cstr_append_nul split: if_splits)
qed

text \<open>The state after the timer task has counted its tick and printed the time \<open>t\<close>.\<close>

definition printed :: "byte list \<Rightarrow> tv_state \<Rightarrow> tv_state" where
  "printed t st = st\<lparr>s_timerTick := s_timerTick st + 1, s_wordData := (s_wordData st)\<lparr>sd_time := t, isNewTime := True\<rparr>\<rparr>"

lemma printed_simps [simp]:
  "timer_min (printed t st) = timer_min st" "timer_sec (printed t st) = timer_sec st" "clock (printed t st) = clock st"
  "dev (printed t st) = dev st" "tv_audio (printed t st) = tv_audio st" "light_sleeps (printed t st) = light_sleeps st"
  "s_isStartTimer (printed t st) = s_isStartTimer st" "s_isWordRequest (printed t st) = s_isWordRequest st"
  "s_timerTick (printed t st) = s_timerTick st + 1"
  "s_wordData (printed t st) = (s_wordData st)\<lparr>sd_time := t, isNewTime := True\<rparr>"
  by (simp_all add: printed_def clock_def)

lemma timer_print_ok:
  assumes "tv_inv st"
  shows "\<exists>t. c_sprintf (sd_time (s_wordData st)) (time_text (timer_min st) (timer_sec st)) = Inr t \<and>
    cstr t = time_text (timer_min st) (timer_sec st) \<and> tv_inv (printed t st)"
proof -
  have clock: "clock_ok (timer_min st) (timer_sec st)" and buf: "length (sd_time (s_wordData st)) = 20"
    using assms by (auto simp: tv_inv_def screen_inv_def text_buf_def)
  obtain t where t: "c_sprintf (sd_time (s_wordData st)) (time_text (timer_min st) (timer_sec st)) = Inr t" "text_buf 20 t"
    using print_time_ok [OF clock buf] by blast
  hence "screen_inv ((s_wordData st)\<lparr>sd_time := t, isNewTime := True\<rparr>)"
    using assms by (simp add: tv_inv_def screen_inv_def)
  from tv_inv_upd(8) [OF tv_inv_upd(2) [OF assms] this] have "tv_inv (printed t st)" by (simp add: printed_def)
  with t(1) print_time_cstr [OF clock t(1)] show ?thesis by blast
qed

text \<open>An iteration of the running timer, its test written with the abstract clock.\<close>

lemma timer_task_eq:
  assumes "s_isStartTimer st" "clock_ok (timer_min st) (timer_sec st)"
    and "c_sprintf (sd_time (s_wordData st)) (time_text (timer_min st) (timer_sec st)) = Inr t"
  shows "Task_TimerTask st = (let st' = count_down (printed t st) in
      if clock st = 1 then
        bindR (LcdTouch_TurnOff (st'\<lparr>s_isStartTimer := False, timer_min := TV_TASK_TIME_MIN, timer_sec := TV_TASK_TIME_SEC\<rparr>))
          (\<lambda>st. Inr (esp_light_sleep_start st))
      else if plays_at (clock st') then on_audio AudioStream_Run st' else Inr st')"
proof -
  let ?st2 = "count_down (printed t st)"
  have "clock_ok (timer_min (printed t st)) (timer_sec (printed t st))" using assms(2) by simp
  note cd = count_down_clock [OF this]
  have "(timer_sec ?st2 mod TV_TASK_REPEAT_TIME_SEC = 0 \<and> timer_sec ?st2 \<noteq> 0) = plays_at (clock ?st2)"
    using play_second [OF cd(2)] cd(2) by (simp add: plays_at_def clock_def)
  thus ?thesis
    using assms(1,3) cd(4) by (simp add: Task_TimerTask_def printed_def Let_def clock_def del: insert_iff)
qed

lemma count_down_request:
  assumes "clock_ok (timer_min st) (timer_sec st)"
  shows "s_isWordRequest (count_down st) = (s_isWordRequest st \<or> clock st mod 60 = 0)"
proof -
  have "(timer_sec st = 0) = (clock st mod 60 = 0)"
    using assms by (auto simp: clock_def clock_ok_def unat_eq_0 [symmetric])
  thus ?thesis using assms by (simp add: count_down_eq)
qed

text \<open>The last second, and any other.\<close>

lemma session_end_ok:
  assumes "tv_inv st" "clock_ok (timer_min st) (timer_sec st)"
  shows "\<exists>st'. bindR (LcdTouch_TurnOff ((count_down st)\<lparr>s_isStartTimer := False, timer_min := TV_TASK_TIME_MIN, timer_sec := TV_TASK_TIME_SEC\<rparr>))
        (\<lambda>st. Inr (esp_light_sleep_start st)) = Inr st' \<and> tv_inv st' \<and> \<not> s_isStartTimer st' \<and> clock st' = 120 \<and>
      light_sleeps st' = light_sleeps st + 1 \<and> \<not> chip_on (chip_of (dev st')) \<and> tv_audio st' = tv_audio st \<and>
      frame (dev st') = frame (dev st) \<and> s_timerTick st' = s_timerTick st \<and> s_wordData st' = s_wordData st \<and>
      s_isWordRequest st' = s_isWordRequest (count_down st)"
proof -
  let ?st3 = "(count_down st)\<lparr>s_isStartTimer := False, timer_min := TV_TASK_TIME_MIN, timer_sec := TV_TASK_TIME_SEC\<rparr>"
  have inv3: "tv_inv ?st3"
    using assms by (simp add: tv_inv_def lcd_ok_def clock_ok_def tv_time_defs count_down_eq)
  hence "lcd_ok ?st3" by (simp add: tv_inv_def)
  note off = turn_ok(2) [OF this]
  let ?st4 = "esp_light_sleep_start (?st3\<lparr>dev := io_emit (GpioSetLevel (int LT_PIN_NUM_BK_LIGHT) LT_LCD_BK_LIGHT_OFF_LEVEL)
          (io_emit (TxParam LCD_CMD_DISPOFF []) (dev ?st3))\<rparr>)"
  have "tv_inv ?st4"
    using inv3 by (simp add: esp_light_sleep_start_def tv_inv_def lcd_ok_def ili_ready_def)
  moreover have "clock ?st4 = 120" by (simp add: clock_def esp_light_sleep_start_def tv_time_defs)
  moreover have "\<not> chip_on (chip_of (dev ?st4))"
    using chip_disp_on_off [of False] by (simp add: esp_light_sleep_start_def)
  ultimately show ?thesis
    using off by (intro exI [of _ ?st4]) (simp add: esp_light_sleep_start_def frame_def chip_param_keeps)
qed

lemma session_goes_on_ok:
  assumes "tv_inv st" "clock_ok (timer_min st) (timer_sec st)" "clock st \<noteq> 1"
  shows "\<exists>st'. (if plays_at (clock (count_down st)) then on_audio AudioStream_Run (count_down st) else Inr (count_down st)) = Inr st' \<and>
      tv_inv st' \<and> s_isStartTimer st' = s_isStartTimer st \<and> Suc (clock st') = clock st \<and> light_sleeps st' = light_sleeps st \<and>
      dev st' = dev st \<and> s_timerTick st' = s_timerTick st \<and> s_wordData st' = s_wordData st \<and>
      s_isWordRequest st' = s_isWordRequest (count_down st) \<and>
      au_log (tv_audio st') = au_log (tv_audio st) @ (if plays_at (clock st') then restart_calls else [])"
proof -
  let ?st2 = "count_down st"
  let ?st3 = "if plays_at (clock ?st2)
    then ?st2\<lparr>tv_audio := (tv_audio st)\<lparr>au_log := au_log (tv_audio st) @ restart_calls\<rparr>\<rparr> else ?st2"
  note cd = count_down_clock [OF assms(2)]
  have "clock_ok (timer_min ?st2) (timer_sec ?st2)" using cd assms(3) by (auto simp: clock_ok_def)
  with assms(1) have base: "tv_inv ?st2" by (simp add: tv_inv_def lcd_ok_def)
  hence au: "audio_ready (tv_audio ?st2)" by (simp add: tv_inv_def)
  have "tv_inv ?st3" using base au by (auto intro!: tv_inv_upd(1) simp: audio_ready_log)
  moreover have "clock ?st3 = clock ?st2" by (simp add: clock_def)
  ultimately show ?thesis
    using cd(1) on_audio_run [OF au] assms(3) by (intro exI [of _ ?st3]) simp
qed

lemma timer_tick_ok:
  assumes "tv_inv st" "s_isStartTimer st"
  shows "\<exists>st'. Task_TimerTask st = Inr st' \<and> tv_inv st' \<and> s_timerTick st' = s_timerTick st + 1 \<and>
    isNewTime (s_wordData st') \<and> cstr (sd_time (s_wordData st')) = time_text (timer_min st) (timer_sec st) \<and>
    s_isWordRequest st' = (s_isWordRequest st \<or> clock st mod 60 = 0) \<and> frame (dev st') = frame (dev st) \<and>
    (if clock st = 1
     then \<not> s_isStartTimer st' \<and> clock st' = 120 \<and> light_sleeps st' = light_sleeps st + 1 \<and>
       \<not> chip_on (chip_of (dev st')) \<and> tv_audio st' = tv_audio st
     else s_isStartTimer st' \<and> Suc (clock st') = clock st \<and> light_sleeps st' = light_sleeps st \<and> dev st' = dev st \<and>
       au_log (tv_audio st') = au_log (tv_audio st) @ (if plays_at (clock st') then restart_calls else []))"
proof -
  have ok: "clock_ok (timer_min st) (timer_sec st)" using assms(1) by (simp add: tv_inv_def)
  obtain t where t: "c_sprintf (sd_time (s_wordData st)) (time_text (timer_min st) (timer_sec st)) = Inr t"
    "cstr t = time_text (timer_min st) (timer_sec st)" "tv_inv (printed t st)"
    using timer_print_ok [OF assms(1)] by blast
  have ok1: "clock_ok (timer_min (printed t st)) (timer_sec (printed t st))" using ok by simp
  note run = timer_task_eq [OF assms(2) ok t(1)] and req = count_down_request [OF ok1]
  show ?thesis
  proof (cases "clock st = 1")
    case True
    show ?thesis
      by (rule ex_forward [OF session_end_ok [OF t(3) ok1]]) (use True t(2) req in \<open>simp add: run\<close>)
  next
    case False
    hence "clock (printed t st) \<noteq> 1" by simp
    from session_goes_on_ok [OF t(3) ok1 this] show ?thesis
      by (rule ex_forward) (use False t(2) req assms(2) in \<open>simp add: run Let_def\<close>)
  qed
qed

text \<open>One iteration of the main task with a request pending, when the server answers.\<close>

lemma reset_background_ok:
  assumes "lcd_ok st"
  shows "\<exists>w'. LcdTouch_ResetBackground st = Inr (st\<lparr>dev := w', refresh_finish := SemDeleted\<rparr>) \<and>
    lcd_ok (st\<lparr>dev := w', refresh_finish := SemDeleted\<rparr>) \<and>
    draws_to (fill_rect (s_backgroud_color st) 0 0 320 240 (frame (dev st))) (dev st) w'"
proof -
  obtain w' where fill: "LcdToudh_FillBackground (Some ili9341_base) (s_backgroud_color st) st =
      Inr (st\<lparr>dev := w', refresh_finish := SemDeleted, s_backgroud_color := s_backgroud_color st\<rparr>)"
    "draws_to (fill_rect (s_backgroud_color st) 0 0 320 240 (frame (dev st))) (dev st) w'" "ili_ready w'"
    using ili.fill_background_ok [of st ili9341_base "s_backgroud_color st"] assms
    by (auto simp: lcd_ok_def ili9341_base_draw)
  have "LcdTouch_ResetBackground st = Inr (st\<lparr>dev := w', refresh_finish := SemDeleted\<rparr>)"
    using fill(1) assms by (cases st) (simp add: LcdTouch_ResetBackground_def lcd_ok_def)
  moreover have "lcd_ok (st\<lparr>dev := w', refresh_finish := SemDeleted\<rparr>)"
    using assms fill(2,3) by (simp add: lcd_ok_def draws_to_def)
  ultimately show ?thesis using fill(2) by blast
qed

lemma polite_request:
  assumes "connects env" "req_inv r0" "polite_answer env ws ss"
  shows "\<exists>r. ReqWord_Requset env r0 = Inr (True, r) \<and> cstr (word r) = encode ws \<and> cstr (sentence r) = encode ss"
proof -
  note P = assms(3) [unfolded polite_answer_def]
  from P obtain cs h k where net: "delivers env 0 (MAX_REC_BUFFER_SIZE - 1) cs"
    "concat cs = h @ crlf2 @ encode ws @ colon # replicate k space @ encode ss"
    "\<And>i. i < length h \<Longrightarrow> take 4 (drop i (h @ crlf2)) \<noteq> crlf2" "0 \<notin> set h" "colon \<notin> set (encode ws)"
    "encode ss = [] \<or> hd (encode ss) \<noteq> space" by blast
  have nul: "0 \<notin> set (encode ws)" "0 \<notin> set (encode ss)" using P encode_drawable_no_nul by auto
  have len: "length (encode ws) < WORD_SIZE" using P by (simp add: WORD_SIZE_def)
  obtain r where r: "ReqWord_Requset env r0 = Inr (True, r)" "cstr (word r) = encode ws"
    "cstr (sentence r) = take (SENTENCE_SIZE - 1) (encode ss)"
    using Requset_stores [OF assms(1) net(1) assms(2) net(2,3,4) nul net(5) len net(6)] by auto
  thus ?thesis using P by (auto simp: SENTENCE_SIZE_def)
qed

text \<open>Copying the two texts of a polite answer into the screen data.\<close>

lemma copy_texts_ok:
  assumes "req_inv r"
  shows "cstr (word r) = encode ws \<Longrightarrow> list_all drawable ws \<Longrightarrow> length (encode ws) < 100 \<Longrightarrow> length buf = 100 \<Longrightarrow>
      \<exists>rest. ReqWord_GetWord buf r = Inr (encode ws @ 0 # rest) \<and> text_buf 100 (encode ws @ 0 # rest)"
    and "cstr (sentence r) = encode ss \<Longrightarrow> list_all drawable ss \<Longrightarrow> length (encode ss) < 256 \<Longrightarrow> length buf = 256 \<Longrightarrow>
      \<exists>rest. ReqWord_GetSentence buf r = Inr (encode ss @ 0 # rest) \<and> text_buf 256 (encode ss @ 0 # rest)"
  using assms
  by (auto simp: ReqWord_GetWord_def ReqWord_GetSentence_def copy_out_eq req_inv_def words_inv_def text_buf_def)

lemma main_task_word_ok:
  assumes "tv_inv st" "s_isWordRequest st" "connects (tv_net st (requests st))"
    and "polite_answer (tv_net st (requests st)) ws ss"
  shows "\<exists>st' wrest srest. Task_MainTask st = Inr st' \<and> tv_inv st' \<and> \<not> s_isWordRequest st' \<and>
    isNewWord (s_wordData st') \<and> sd_word (s_wordData st') = encode ws @ 0 # wrest \<and>
    isNewSentence (s_wordData st') \<and> sd_sentence (s_wordData st') = encode ss @ 0 # srest \<and>
    frame (dev st') = fill_rect (s_backgroud_color st) 0 0 320 240 (frame (dev st)) \<and>
    au_log (tv_audio st') = au_log (tv_audio st) @ restart_calls \<and> s_backgroud_color st' = s_backgroud_color st \<and>
    tv_bitmaps st' = tv_bitmaps st \<and> isNewTime (s_wordData st') = isNewTime (s_wordData st) \<and>
    isTouchOccurred st' = isTouchOccurred st"
proof -
  let ?env = "tv_net st (requests st)"
  note P = assms(4) [unfolded polite_answer_def]
  have rc: "read_contract ?env" and ri: "req_inv (tv_req st)" using assms(1) by (auto simp: tv_inv_def polite_def)
  obtain r where r: "ReqWord_Requset ?env (tv_req st) = Inr (True, r)" "cstr (word r) = encode ws" "cstr (sentence r) = encode ss"
    using polite_request [OF assms(3) ri assms(4)] by blast
  have rinv: "req_inv r" using Requset_ok [OF rc ri] r(1) by auto
  define st1 where "st1 = st\<lparr>tv_req := r, requests := requests st + 1\<rparr>"
  have inv1: "tv_inv st1" using tv_inv_upd(10) [OF tv_inv_upd(9) [OF assms(1) rinv]] by (simp add: st1_def)
  obtain w' where bg: "LcdTouch_ResetBackground st1 = Inr (st1\<lparr>dev := w', refresh_finish := SemDeleted\<rparr>)"
    "lcd_ok (st1\<lparr>dev := w', refresh_finish := SemDeleted\<rparr>)"
    "draws_to (fill_rect (s_backgroud_color st1) 0 0 320 240 (frame (dev st1))) (dev st1) w'"
    using reset_background_ok [of st1] inv1 by (auto simp: tv_inv_def)
  define st2 where "st2 = st1\<lparr>dev := w', refresh_finish := SemDeleted\<rparr>"
  have inv2: "tv_inv st2" using inv1 bg(2) by (simp add: st2_def tv_inv_def)
  let ?sd = "s_wordData st"
  have bufs: "length (sd_word ?sd) = 100" "length (sd_sentence ?sd) = 256"
    using assms(1) by (auto simp: tv_inv_def screen_inv_def text_buf_def)
  obtain wrest where w: "ReqWord_GetWord (sd_word ?sd) r = Inr (encode ws @ 0 # wrest)" "text_buf 100 (encode ws @ 0 # wrest)"
    using copy_texts_ok(1) [OF rinv r(2) _ _ bufs(1)] P by blast
  obtain srest where s: "ReqWord_GetSentence (sd_sentence ?sd) r = Inr (encode ss @ 0 # srest)" "text_buf 256 (encode ss @ 0 # srest)"
    using copy_texts_ok(2) [OF rinv r(3) _ _ bufs(2)] P by blast
  define sd where "sd = ?sd\<lparr>sd_word := encode ws @ 0 # wrest, isNewWord := True, sd_sentence := encode ss @ 0 # srest, isNewSentence := True\<rparr>"
  define st3 where "st3 = st2\<lparr>s_wordData := sd\<rparr>"
  have inv3: "tv_inv st3"
    unfolding st3_def using assms(1) w(2) s(2) by (intro tv_inv_upd(8) [OF inv2]) (simp add: sd_def tv_inv_def screen_inv_def)
  have au: "audio_ready (tv_audio st3)" using inv3 by (simp add: tv_inv_def)
  define st4 where "st4 = st3\<lparr>tv_audio := (tv_audio st3)\<lparr>au_log := au_log (tv_audio st3) @ restart_calls\<rparr>, s_isWordRequest := False\<rparr>"
  have inv4: "tv_inv st4"
    using tv_inv_upd(3) [OF tv_inv_upd(1) [OF inv3]] au by (simp add: st4_def audio_ready_log)
  have "Task_MainTask st = Inr st4"
    using assms(2) r(1) bg(1) w(1) s(1) on_audio_run [OF au]
    by (cases st) (simp add: Task_MainTask_def st1_def st2_def st3_def st4_def sd_def Let_def)
  thus ?thesis
    using inv4 bg(3)
    by (intro exI [of _ st4]) (simp add: st4_def st3_def st2_def st1_def sd_def draws_to_def)
qed

lemma main_task_ok:
  assumes "tv_inv st"
  shows "\<exists>st'. Task_MainTask st = Inr st' \<and> tv_inv st'"
proof (cases "s_isWordRequest st")
  case False
  thus ?thesis using assms by (simp add: Task_MainTask_def)
next
  case True
  let ?env = "tv_net st (requests st)"
  have pol: "polite ?env" and ri: "req_inv (tv_req st)" using assms by (auto simp: tv_inv_def)
  show ?thesis
  proof (cases "connects ?env")
    case up: True
    then obtain ws ss where "polite_answer ?env ws ss" using pol by (auto simp: polite_def)
    from main_task_word_ok [OF assms True up this] show ?thesis by blast
  next
    case False
    obtain r where r: "ReqWord_Requset ?env (tv_req st) = Inr (False, r)" "req_inv r"
      using Requset_ok [OF _ ri, of ?env] pol False by (auto simp: polite_def)
    have "tv_inv (st\<lparr>tv_req := r, requests := requests st + 1, s_isWordRequest := False\<rparr>)"
      by (rule tv_inv_upd(3) [OF tv_inv_upd(10) [OF tv_inv_upd(9) [OF assms r(2)]]])
    thus ?thesis using True r(1) by (simp add: Task_MainTask_def Let_def)
  qed
qed

lemma audio_task_ok:
  assumes "tv_inv st"
  shows "\<exists>st'. tv_step (Iter AudioStreamTask) st = Inr st' \<and> tv_inv st'"
proof (cases "au_events (tv_audio st) (length (au_log (tv_audio st)))")
  case None
  thus ?thesis using assms by (simp add: tv_step_def)
next
  case (Some ev)
  have au: "audio_ready (tv_audio st)" using assms by (simp add: tv_inv_def)
  have "\<exists>l. AudioStream_Task (tv_audio st) = Inr ((tv_audio st)\<lparr>au_log := au_log (tv_audio st) @ l\<rparr>)"
    by (rule Task_event_ready [OF au Some])
  thus ?thesis
    using Some au tv_inv_upd(1) [OF assms]
    by (auto simp: tv_step_def Task_AudioStream_Wrapper_def on_audio_def audio_ready_log)
qed

lemma lcd_task_ok:
  assumes "tv_inv st"
  shows "\<exists>st'. Task_LcdTouch st = Inr st' \<and> tv_inv st'"
  unfolding Task_LcdTouch_def
  by (rule bindR_total [where P = tv_inv]) (use touch_task_ok [OF assms] update_screen_ok in auto)

lemma timer_task_ok:
  assumes "tv_inv st"
  shows "\<exists>st'. Task_TimerTask st = Inr st' \<and> tv_inv st'"
proof (cases "s_isStartTimer st")
  case True
  from timer_tick_ok [OF assms this] show ?thesis by blast
next
  case False
  thus ?thesis using tv_inv_upd(2) [OF assms] by (simp add: Task_TimerTask_def Let_def)
qed

lemma tv_step_ok:
  assumes "tv_inv st"
  shows "\<exists>st'. tv_step e st = Inr st' \<and> tv_inv st'"
proof (cases e)
  case TouchIrq
  thus ?thesis using tv_inv_upd(7) [OF assms] by (simp add: tv_step_def LcdTouch_TouchISR_def)
next
  case (Iter t)
  thus ?thesis
    using audio_task_ok [OF assms] lcd_task_ok [OF assms] timer_task_ok [OF assms] main_task_ok [OF assms]
    by (cases t) (simp_all add: tv_step_def)
qed

interpretation tv: total_ops tv_step tv_inv
  by unfold_locales (rule tv_step_ok)

end
