(* ===== verification/Tv_Session.thy ===== *)
theory Tv_Session
  imports Tv_Task
begin

text \<open>
  What the tasks of \<open>main/task.c\<close> do over several iterations and together: a whole count-down, a word
  from the network to the screen, a touch, and the word that overflows its buffer.
\<close>

subsection \<open>A whole count-down\<close>

definition timer_ticks :: "nat \<Rightarrow> tv_state \<Rightarrow> tv_state run" where
  "timer_ticks n = run_ops (\<lambda>_. Task_TimerTask) (replicate n ())"

lemma timer_ticks_Suc: "timer_ticks (Suc n) st = bindR (timer_ticks n st) Task_TimerTask"
proof -
  have "replicate (Suc n) () = replicate n () @ [()]" by (metis replicate_Suc replicate_append_same)
  moreover have "run_ops (\<lambda>_. Task_TimerTask) [()] = Task_TimerTask" by (rule ext) simp
  ultimately show ?thesis by (simp only: timer_ticks_def run_ops_append)
qed

text \<open>How often the audio has been restarted when the clock has come down from \<open>120\<close> to \<open>c\<close>.\<close>

definition plays_from :: "nat \<Rightarrow> nat" where
  "plays_from c = length (filter plays_at [c..<120])"

lemma plays_from_Suc: "c < 120 \<Longrightarrow> plays_from c = plays_from (Suc c) + (if plays_at c then 1 else 0)"
  by (simp add: plays_from_def upt_conv_Cons)

lemma count_restart:
  "count_list (xs @ (if b then restart_calls else [])) AuRun = count_list xs AuRun + (if b then 1 else 0)"
  by (simp add: restart_calls_def)

lemma timer_tick_running:
  assumes "tv_inv st" "s_isStartTimer st" "clock st \<noteq> 1"
  shows "\<exists>st'. Task_TimerTask st = Inr st' \<and> tv_inv st' \<and> isNewTime (s_wordData st') \<and>
    s_isWordRequest st' = (s_isWordRequest st \<or> clock st mod 60 = 0) \<and> frame (dev st') = frame (dev st) \<and>
    s_isStartTimer st' \<and> Suc (clock st') = clock st \<and> light_sleeps st' = light_sleeps st \<and>
    au_log (tv_audio st') = au_log (tv_audio st) @ (if plays_at (clock st') then restart_calls else [])"
  by (rule ex_forward [OF timer_tick_ok [OF assms(1,2)]]) (use assms(3) in simp)

lemma timer_tick_last:
  assumes "tv_inv st" "s_isStartTimer st" "clock st = 1"
  shows "\<exists>st'. Task_TimerTask st = Inr st' \<and> tv_inv st' \<and> s_isWordRequest st' = s_isWordRequest st \<and>
    frame (dev st') = frame (dev st) \<and> \<not> s_isStartTimer st' \<and> clock st' = 120 \<and>
    light_sleeps st' = light_sleeps st + 1 \<and> \<not> chip_on (chip_of (dev st')) \<and> tv_audio st' = tv_audio st"
  by (rule ex_forward [OF timer_tick_ok [OF assms(1,2)]]) (use assms(3) in simp)

lemma timer_ticks_running:
  assumes "tv_inv st" "s_isStartTimer st" "clock st = 120" "n < 120"
  shows "\<exists>st'. timer_ticks n st = Inr st' \<and> tv_inv st' \<and> s_isStartTimer st' \<and> clock st' = 120 - n \<and>
    light_sleeps st' = light_sleeps st \<and> frame (dev st') = frame (dev st) \<and>
    (0 < n \<longrightarrow> s_isWordRequest st' \<and> isNewTime (s_wordData st')) \<and>
    count_list (au_log (tv_audio st')) AuRun = count_list (au_log (tv_audio st)) AuRun + plays_from (120 - n)"
  using assms(4)
proof (induction n)
  case 0
  thus ?case using assms by (simp add: timer_ticks_def plays_from_def)
next
  case (Suc n)
  then obtain st1 where st1: "timer_ticks n st = Inr st1" "tv_inv st1" "s_isStartTimer st1" "clock st1 = 120 - n"
    "light_sleeps st1 = light_sleeps st" "frame (dev st1) = frame (dev st)" "0 < n \<longrightarrow> s_isWordRequest st1"
    "count_list (au_log (tv_audio st1)) AuRun = count_list (au_log (tv_audio st)) AuRun + plays_from (120 - n)"
    by auto
  have nz: "clock st1 \<noteq> 1" using st1(4) Suc.prems by simp
  obtain st2 where st2: "Task_TimerTask st1 = Inr st2" "tv_inv st2" "isNewTime (s_wordData st2)"
    "s_isWordRequest st2 = (s_isWordRequest st1 \<or> clock st1 mod 60 = 0)" "frame (dev st2) = frame (dev st1)"
    "s_isStartTimer st2" "Suc (clock st2) = clock st1" "light_sleeps st2 = light_sleeps st1"
    "au_log (tv_audio st2) = au_log (tv_audio st1) @ (if plays_at (clock st2) then restart_calls else [])"
    using timer_tick_running [OF st1(2,3) nz] by (elim exE conjE) (rule that; assumption)
  have c2: "clock st2 = 120 - Suc n" "120 - n = Suc (120 - Suc n)" using st2(7) st1(4) Suc.prems by simp_all
  have req: "s_isWordRequest st2" using st2(4) st1(4,7) by (cases n) simp_all
  have run: "timer_ticks (Suc n) st = Inr st2" using st1(1) st2(1) by (simp add: timer_ticks_Suc)
  have plays: "plays_from (120 - Suc n) = plays_from (120 - n) + (if plays_at (120 - Suc n) then 1 else 0)"
    unfolding c2(2) by (rule plays_from_Suc) simp
  have "count_list (au_log (tv_audio st2)) AuRun = count_list (au_log (tv_audio st1)) AuRun + (if plays_at (120 - Suc n) then 1 else 0)"
    unfolding st2(9) c2(1) by (rule count_restart)
  hence "count_list (au_log (tv_audio st2)) AuRun = count_list (au_log (tv_audio st)) AuRun + plays_from (120 - Suc n)"
    unfolding plays st1(8) by (simp only: add.assoc)
  moreover have "light_sleeps st2 = light_sleeps st" "frame (dev st2) = frame (dev st)"
    by (simp_all only: st2(5,8) st1(5,6))
  ultimately show ?case using run req st2(2,3,6) c2(1) by blast
qed

lemma plays_in_session: "plays_from 1 = 6"
  unfolding plays_from_def plays_at_def by code_simp

subsection \<open>Properties\<close>

text \<open>
  C8. The timer task refines a count-down of seconds. In an iteration with the timer running, at a
  time from 2:00 to 0:01, the time shown is the one before the tick, as \<open>mm : ss\<close> inside its 20 bytes;
  a word is requested exactly when a minute begins; then either a second is gone, and the audio is
  restarted exactly at the quarters of a minute but not at its end, or the last second is gone: the
  timer is stopped and back at 2:00, the panel is switched off and the chip sent to sleep.
\<close>

theorem timer_refines_clock:
  assumes "tv_inv st" "s_isStartTimer st"
  shows "\<exists>st'. Task_TimerTask st = Inr st' \<and> tv_inv st' \<and>
    cstr (sd_time (s_wordData st')) = time_text (timer_min st) (timer_sec st) \<and> isNewTime (s_wordData st') \<and>
    s_isWordRequest st' = (s_isWordRequest st \<or> clock st mod 60 = 0) \<and>
    (if clock st = 1
     then \<not> s_isStartTimer st' \<and> clock st' = 120 \<and> light_sleeps st' = light_sleeps st + 1 \<and>
       \<not> chip_on (chip_of (dev st')) \<and> tv_audio st' = tv_audio st
     else s_isStartTimer st' \<and> Suc (clock st') = clock st \<and> light_sleeps st' = light_sleeps st \<and> dev st' = dev st \<and>
       au_log (tv_audio st') = au_log (tv_audio st) @ (if clock st' mod 60 \<in> {15, 30, 45} then restart_calls else []))"
  by (rule ex_forward [OF timer_tick_ok [OF assms, unfolded plays_at_def]])
    (elim conjE, intro conjI; assumption)

definition tv_up :: tv_state where
  "tv_up = \<lparr>dev = demo_dev, refresh_finish = SemNull, s_panelHandle = Some ili9341_base, s_backgroud_color = 0,
     s_touch_callback_f = Some TASK_TOUCH_CALLBACK, isTouchOccurred = False, isInitDisplay = True,
     tv_req = req_init, tv_audio = audio_start\<lparr>handles := (\<lambda>_. HLive), s_isInitAudioStream := True\<rparr>,
     s_isWordRequest = False, s_isStartTimer = True, s_timerTick = 0, s_wordData = s_wordData_init,
     timer_min = TV_TASK_TIME_MIN, timer_sec = TV_TASK_TIME_SEC, tv_tasks = [], light_sleeps = 0,
     ext0_wakeup = None, wifi_ps_min_modem = False, requests = 0,
     tv_net = (\<lambda>_. demo_env\<lparr>socket_ret := - 1\<rparr>), tv_bitmaps = blank_bitmaps\<rparr>"

lemma empty_text_buf: "0 < n \<Longrightarrow> text_buf n (replicate n 0)"
proof -
  assume "0 < n"
  then obtain m where "n = Suc m" by (cases n) auto
  hence "list_all drawable [] \<and> replicate n 0 = encode [] @ 0 # replicate m (0 :: byte)" by simp
  thus "text_buf n (replicate n 0)" unfolding text_buf_def by (metis length_replicate)
qed

lemma screen_inv_init: "screen_inv s_wordData_init"
  by (simp add: screen_inv_def s_wordData_init_def empty_text_buf)

lemma tv_up_ok: "tv_inv tv_up" "s_isStartTimer tv_up" "clock tv_up = 120"
proof -
  have "polite (demo_env\<lparr>socket_ret := - 1\<rparr>)"
    by (auto simp: polite_def read_contract_def connects_def demo_env_def)
  thus "tv_inv tv_up"
    using demo_dev_ok blank_bitmaps_ok req_inv_init screen_inv_init
    by (simp add: tv_inv_def tv_up_def lcd_ok_def audio_ready_def clock_ok_def tv_time_defs)
  show "s_isStartTimer tv_up" "clock tv_up = 120" by (simp_all add: tv_up_def clock_def tv_time_defs)
qed

theorem timer_refines_clock_witness:
  "\<exists>st'. Task_TimerTask tv_up = Inr st' \<and> cstr (sd_time (s_wordData st')) = time_text 2 0 \<and> s_isWordRequest st' \<and>
    Suc (clock st') = 120"
  using timer_refines_clock [OF tv_up_ok(1,2)] tv_up_ok(3) by (auto simp: tv_up_def tv_time_defs)

text \<open>
  C14. A session. Started at 2:00 and left alone, the timer task runs 120 iterations: through the first
  119 it keeps running, with the clock at 120 less the iterations done; the last one stops it, puts
  the clock back and the chip to sleep, once, with the panel off. A word request is pending, the
  audio has been started six times, and the frame memory has not been touched.
\<close>

theorem timer_session:
  assumes "tv_inv st" "s_isStartTimer st" "clock st = 120"
  shows "(\<forall>n<120. \<exists>st'. timer_ticks n st = Inr st' \<and> s_isStartTimer st' \<and> clock st' = 120 - n) \<and>
    (\<exists>st'. timer_ticks 120 st = Inr st' \<and> tv_inv st' \<and> \<not> s_isStartTimer st' \<and> clock st' = 120 \<and>
       light_sleeps st' = light_sleeps st + 1 \<and> \<not> chip_on (chip_of (dev st')) \<and> s_isWordRequest st' \<and>
       count_list (au_log (tv_audio st')) AuRun = count_list (au_log (tv_audio st)) AuRun + 6 \<and>
       frame (dev st') = frame (dev st))"
proof (intro conjI allI impI)
  fix n :: nat assume "n < 120"
  thus "\<exists>st'. timer_ticks n st = Inr st' \<and> s_isStartTimer st' \<and> clock st' = 120 - n"
    using timer_ticks_running [OF assms] by blast
next
  obtain st1 where st1: "timer_ticks 119 st = Inr st1" "tv_inv st1" "s_isStartTimer st1" "clock st1 = 1"
    "light_sleeps st1 = light_sleeps st" "s_isWordRequest st1" "frame (dev st1) = frame (dev st)"
    "count_list (au_log (tv_audio st1)) AuRun = count_list (au_log (tv_audio st)) AuRun + 6"
    using timer_ticks_running [OF assms, of 119] plays_in_session by auto
  have "timer_ticks 120 st = Task_TimerTask st1" using timer_ticks_Suc [of 119 st] st1(1) by simp
  thus "\<exists>st'. timer_ticks 120 st = Inr st' \<and> tv_inv st' \<and> \<not> s_isStartTimer st' \<and> clock st' = 120 \<and>
       light_sleeps st' = light_sleeps st + 1 \<and> \<not> chip_on (chip_of (dev st')) \<and> s_isWordRequest st' \<and>
       count_list (au_log (tv_audio st')) AuRun = count_list (au_log (tv_audio st)) AuRun + 6 \<and>
       frame (dev st') = frame (dev st)"
    using timer_tick_last [OF st1(2-4)] st1(5-8) by auto
qed

theorem timer_session_witness:
  "\<exists>st'. timer_ticks 120 tv_up = Inr st' \<and> \<not> s_isStartTimer st' \<and> light_sleeps st' = 1"
  using timer_session [OF tv_up_ok] by (auto simp: tv_up_def)

text \<open>Drawing a new word and a new sentence, one after the other.\<close>

lemma update_word_sentence:
  assumes "tv_inv st" "isNewWord (s_wordData st)" "sd_word (s_wordData st) = encode ws @ 0 # wr"
    and "isNewSentence (s_wordData st)" "sd_sentence (s_wordData st) = encode ss @ 0 # sr"
    and "\<not> isNewTime (s_wordData st)" "list_all drawable ws" "list_all drawable ss"
  shows "\<exists>st'. Task_UpdateScreen st = Inr st' \<and> s_isWordRequest st' = s_isWordRequest st \<and> tv_audio st' = tv_audio st \<and>
    frame (dev st') = text_frame (tv_bitmaps st) 0xFFFF (s_backgroud_color st) ss (10, 60)
      (text_frame (tv_bitmaps st) 0xFFFF (s_backgroud_color st) ws (10, 10) (frame (dev st)))"
proof -
  have inv: "lcd_ok st" "bitmaps_ok (tv_bitmaps st)" "length (encode ws @ 0 # wr) \<le> 256" "length (encode ss @ 0 # sr) \<le> 256"
    using assms(1,3,5) by (auto simp: tv_inv_def screen_inv_def text_buf_def)
  have pos: "word_x (s_wordData st) = of_nat 10" "word_y (s_wordData st) = of_nat 10"
    "sentence_x (s_wordData st) = of_nat 10" "sentence_y (s_wordData st) = of_nat 60"
    using assms(1) by (simp_all add: tv_inv_def screen_inv_def)
  obtain w1 r1 where d1: "draw_string (encode ws @ 0 # wr) (of_nat 10) (of_nat 10) st = Inr (st\<lparr>dev := w1, refresh_finish := r1\<rparr>)"
    "lcd_ok (st\<lparr>dev := w1, refresh_finish := r1\<rparr>)"
    "frame w1 = text_frame (tv_bitmaps st) 0xFFFF (s_backgroud_color st) ws (10, 10) (frame (dev st))"
    using draw_text_buf [OF inv(1,2) assms(7) inv(3), of 10 10] by (auto simp: draws_to_def)
  let ?sd = "(s_wordData st)\<lparr>isNewWord := False\<rparr>"
  define st1 where "st1 = st\<lparr>dev := w1, refresh_finish := r1, s_wordData := ?sd\<rparr>"
  have st1: "lcd_ok st1" "bitmaps_ok (tv_bitmaps st1)" using d1(2) inv(2) by (simp_all add: st1_def lcd_ok_def)
  obtain w2 r2 where d2: "draw_string (encode ss @ 0 # sr) (of_nat 10) (of_nat 60) st1 = Inr (st1\<lparr>dev := w2, refresh_finish := r2\<rparr>)"
    "frame w2 = text_frame (tv_bitmaps st) 0xFFFF (s_backgroud_color st) ss (10, 60) (frame w1)"
    using draw_text_buf [OF st1 assms(8) inv(4), of 10 60] by (auto simp: draws_to_def st1_def)
  have "Task_UpdateScreen st = Inr (st1\<lparr>dev := w2, refresh_finish := r2, s_wordData := ?sd\<lparr>isNewSentence := False\<rparr>\<rparr>)"
    using assms(2-6) pos d1(1) d2(1) by (simp add: Task_UpdateScreen_def st1_def)
  thus ?thesis using d1(3) d2(2) by (simp add: st1_def)
qed

text \<open>
  C1. From the network to the screen. When a word is requested, no touch has occurred and no time is waiting to
  be drawn, and the server answers \<open>word : sentence\<close> with drawable characters, in any segments, then after one iteration of the main
  task and one of the display task the frame memory shows the background over the whole screen, the
  word laid out from (10, 10) and the sentence laid out from (10, 60), and nothing else has changed.
  The request is served, and the audio has been restarted once.
\<close>

theorem word_reaches_screen:
  assumes "tv_inv st" "s_isWordRequest st" "connects (tv_net st (requests st))"
    and "polite_answer (tv_net st (requests st)) ws ss" "\<not> isNewTime (s_wordData st)" "\<not> isTouchOccurred st"
  shows "\<exists>st'. bindR (Task_MainTask st) Task_LcdTouch = Inr st' \<and>
    frame (dev st') = text_frame (tv_bitmaps st) 0xFFFF (s_backgroud_color st) ss (10, 60)
      (text_frame (tv_bitmaps st) 0xFFFF (s_backgroud_color st) ws (10, 10)
        (fill_rect (s_backgroud_color st) 0 0 320 240 (frame (dev st)))) \<and>
    \<not> s_isWordRequest st' \<and> au_log (tv_audio st') = au_log (tv_audio st) @ restart_calls"
proof -
  obtain st1 wr sr where st1: "Task_MainTask st = Inr st1" "tv_inv st1" "\<not> s_isWordRequest st1"
    "isNewWord (s_wordData st1)" "sd_word (s_wordData st1) = encode ws @ 0 # wr"
    "isNewSentence (s_wordData st1)" "sd_sentence (s_wordData st1) = encode ss @ 0 # sr"
    "frame (dev st1) = fill_rect (s_backgroud_color st) 0 0 320 240 (frame (dev st))"
    "au_log (tv_audio st1) = au_log (tv_audio st) @ restart_calls" "s_backgroud_color st1 = s_backgroud_color st"
    "tv_bitmaps st1 = tv_bitmaps st" "isNewTime (s_wordData st1) = isNewTime (s_wordData st)"
    "isTouchOccurred st1 = isTouchOccurred st"
    using main_task_word_ok [OF assms(1-4)] by (elim exE conjE) (rule that; assumption)
  have dr: "list_all drawable ws" "list_all drawable ss" using assms(4) by (auto simp: polite_answer_def)
  have nt: "\<not> isNewTime (s_wordData st1)" "\<not> isTouchOccurred st1" using st1(12,13) assms(5,6) by simp_all
  obtain st2 where st2: "Task_UpdateScreen st1 = Inr st2" "s_isWordRequest st2 = s_isWordRequest st1" "tv_audio st2 = tv_audio st1"
    "frame (dev st2) = text_frame (tv_bitmaps st1) 0xFFFF (s_backgroud_color st1) ss (10, 60)
      (text_frame (tv_bitmaps st1) 0xFFFF (s_backgroud_color st1) ws (10, 10) (frame (dev st1)))"
    using update_word_sentence [OF st1(2,4,5,6,7) nt(1) dr] by (elim exE conjE) (rule that; assumption)
  have "bindR (Task_MainTask st) Task_LcdTouch = Inr st2"
    using st1(1) nt(2) st2(1) by (simp add: Task_LcdTouch_def LcdTouch_Task_def)
  thus ?thesis using st2(2-4) st1(3,8-11) by auto
qed

definition word_env :: net_env where
  "word_env = demo_env\<lparr>read_ret := (\<lambda>k n. if k = 0 \<and> 10 \<le> n
     then (10, [0x48] @ crlf2 @ [0x61, 0x62] @ colon # replicate 1 space @ [0x63]) else (0, []))\<rparr>"

lemma word_env_polite: "connects word_env" "polite_answer word_env [0x61, 0x62] [0x63]" "polite word_env"
proof -
  let ?r = "[0x48] @ crlf2 @ [0x61, 0x62] @ colon # replicate 1 space @ [0x63]"
  have e: "encode [0x61, 0x62] = [0x61, 0x62]" "encode [0x63] = [0x63]" by (simp_all add: utf8_encode_def)
  have d: "delivers word_env 0 (MAX_REC_BUFFER_SIZE - 1) [?r]" by (simp add: word_env_def MAX_REC_BUFFER_SIZE_def)
  have ok: "drawable 0x61" "drawable 0x62" "drawable 0x63" by (simp_all add: drawable_def supported_def)
  have h: "\<forall>i<length [0x48 :: byte]. take 4 (drop i ([0x48] @ crlf2)) \<noteq> crlf2" by (simp add: crlf2_def)
  show c: "connects word_env" by (simp add: connects_def word_env_def demo_env_def)
  show a: "polite_answer word_env [0x61, 0x62] [0x63]"
    unfolding polite_answer_def e
    using h ok by (intro conjI exI [of _ "[?r]"] exI [of _ "[0x48]"] exI [of _ 1])
      (use d in \<open>simp_all add: colon_def space_def word_env_def\<close>)
  have "read_contract word_env" by (auto simp: read_contract_def word_env_def demo_env_def crlf2_def)
  thus "polite word_env" using a by (auto simp: polite_def)
qed

lemma tv_up_net_ok:
  assumes "\<And>n. polite (net n)"
  shows "tv_inv (tv_up\<lparr>tv_net := net, s_isWordRequest := True\<rparr>)"
  using tv_up_ok(1) assms by (simp add: tv_inv_def lcd_ok_def)

theorem word_reaches_screen_witness:
  "\<exists>st'. bindR (Task_MainTask (tv_up\<lparr>tv_net := (\<lambda>_. word_env), s_isWordRequest := True\<rparr>)) Task_LcdTouch = Inr st' \<and>
    \<not> s_isWordRequest st' \<and> frame (dev st') = text_frame blank_bitmaps 0xFFFF 0 [0x63] (10, 60)
      (text_frame blank_bitmaps 0xFFFF 0 [0x61, 0x62] (10, 10) (fill_rect 0 0 0 320 240 (frame demo_dev)))"
  using word_reaches_screen [OF tv_up_net_ok [of "\<lambda>_. word_env"], of "[0x61, 0x62]" "[0x63]"] word_env_polite
  by (auto simp: tv_up_def s_wordData_init_def)

text \<open>
  C30. The word buffer of the tasks is smaller than the request module's. When the server answers with
  a word of 100 to 127 bytes, which the request module stores, the main task copies it into the 100
  bytes of the screen data and writes past them.
\<close>

theorem long_word_overflows:
  assumes "lcd_ok st" "req_inv (tv_req st)" "length (sd_word (s_wordData st)) = 100" "s_isWordRequest st"
    and "tv_net st (requests st) = env" "read_contract env" "connects env" "delivers env 0 (MAX_REC_BUFFER_SIZE - 1) cs"
    and "concat cs = h @ crlf2 @ w @ colon # replicate k space @ s"
    and "\<And>i. i < length h \<Longrightarrow> take 4 (drop i (h @ crlf2)) \<noteq> crlf2"
    and "0 \<notin> set h" "0 \<notin> set w" "0 \<notin> set s" "colon \<notin> set w" "s = [] \<or> hd s \<noteq> space"
    and "100 \<le> length w" "length w < WORD_SIZE"
  shows "Task_MainTask st = Inl Undef"
proof -
  obtain r where r: "ReqWord_Requset env (tv_req st) = Inr (True, r)" "cstr (word r) = w"
    using Requset_stores [OF assms(7,8,2,9,10,11,12,13,14,17,15)] by blast
  have rinv: "req_inv r" using Requset_ok [OF assms(6,2)] r(1) by auto
  define st1 where "st1 = st\<lparr>tv_req := r, requests := requests st + 1\<rparr>"
  have "lcd_ok st1" using assms(1) by (simp add: st1_def lcd_ok_def)
  then obtain w' where bg: "LcdTouch_ResetBackground st1 = Inr (st1\<lparr>dev := w', refresh_finish := SemDeleted\<rparr>)"
    using reset_background_ok by blast
  have "ReqWord_GetWord (sd_word (s_wordData st)) r = Inl Undef"
    using rinv r(2) assms(3,16) by (simp add: ReqWord_GetWord_def copy_out_eq req_inv_def words_inv_def)
  thus ?thesis using assms(4,5) r(1) bg by (simp add: Task_MainTask_def st1_def Let_def)
qed

definition long_answer :: "byte list" where
  "long_answer = [0x48] @ crlf2 @ replicate 100 0x61 @ colon # replicate 1 space @ [0x63]"

definition long_env :: net_env where
  "long_env = demo_env\<lparr>read_ret := (\<lambda>k n. if k = 0 \<and> 108 \<le> n then (108, long_answer) else (0, []))\<rparr>"

theorem long_word_overflows_witness:
  "Task_MainTask (tv_up\<lparr>tv_net := (\<lambda>_. long_env), s_isWordRequest := True\<rparr>) = Inl Undef"
proof (rule long_word_overflows)
  let ?st = "tv_up\<lparr>tv_net := (\<lambda>_. long_env), s_isWordRequest := True\<rparr>"
  have len: "length long_answer = 108" "long_answer \<noteq> []" by (simp_all add: long_answer_def crlf2_def)
  show "lcd_ok ?st" "req_inv (tv_req ?st)" using tv_up_ok(1) by (simp_all add: tv_inv_def lcd_ok_def)
  show "length (sd_word (s_wordData ?st)) = 100" by (simp add: tv_up_def s_wordData_init_def)
  show "tv_net ?st (requests ?st) = long_env" by simp
  show "read_contract long_env" using len by (auto simp: read_contract_def long_env_def demo_env_def)
  show "connects long_env" by (simp add: connects_def long_env_def demo_env_def)
  show "delivers long_env 0 (MAX_REC_BUFFER_SIZE - 1) [long_answer]"
    using len by (simp add: long_env_def MAX_REC_BUFFER_SIZE_def)
  show "concat [long_answer] = [0x48] @ crlf2 @ replicate 100 0x61 @ colon # replicate 1 space @ [0x63]"
    by (simp add: long_answer_def)
  show "take 4 (drop i ([0x48] @ crlf2)) \<noteq> crlf2" if "i < length [0x48 :: byte]" for i
    using that by (simp add: crlf2_def)
qed (simp_all add: colon_def space_def WORD_SIZE_def)

text \<open>
  C13. A touch. The interrupt only sets a flag; the next iteration of the display task clears it,
  starts the timer, switches the panel and its light on and then updates the screen; the firmware's
  invariant holds throughout.
\<close>

theorem touch_starts_session:
  assumes "tv_inv st"
  shows "\<exists>st1 st2. tv_step TouchIrq st = Inr st1 \<and> LcdTouch_Task call_touch st1 = Inr st2 \<and>
    tv_step (Iter LcdTouchTask) st1 = Task_UpdateScreen st2 \<and> tv_inv st2 \<and> \<not> isTouchOccurred st2 \<and>
    s_isStartTimer st2 \<and> chip_on (chip_of (dev st2)) \<and> frame (dev st2) = frame (dev st) \<and>
    io_log (dev st2) = io_log (dev st) @ [TxParam LCD_CMD_DISPON [], GpioSetLevel (int LT_PIN_NUM_BK_LIGHT) LT_LCD_BK_LIGHT_ON_LEVEL]"
proof -
  define st1 where "st1 = st\<lparr>isTouchOccurred := True\<rparr>"
  define w where "w = io_emit (GpioSetLevel (int LT_PIN_NUM_BK_LIGHT) LT_LCD_BK_LIGHT_ON_LEVEL)
    (io_emit (TxParam LCD_CMD_DISPON []) (dev st))"
  define st2 where "st2 = st1\<lparr>s_isStartTimer := True, dev := w, isTouchOccurred := False\<rparr>"
  have ok: "lcd_ok (st1\<lparr>s_isStartTimer := True\<rparr>)" and cb: "s_touch_callback_f st = Some TASK_TOUCH_CALLBACK"
    using assms by (simp_all add: st1_def tv_inv_def lcd_ok_def)
  have run: "LcdTouch_Task call_touch st1 = Inr st2"
    using turn_ok(1) [OF ok] cb
    by (simp add: LcdTouch_Task_def call_touch_def Task_TouchCallback_def st1_def st2_def w_def)
  have "tv_inv st2" using assms by (simp add: tv_inv_def lcd_ok_def ili_ready_def st1_def st2_def w_def)
  moreover have "tv_step TouchIrq st = Inr st1" by (simp add: tv_step_def LcdTouch_TouchISR_def st1_def)
  moreover have "tv_step (Iter LcdTouchTask) st1 = Task_UpdateScreen st2"
    by (simp add: tv_step_def Task_LcdTouch_def run)
  moreover have "frame w = frame (dev st)" by (simp add: w_def frame_def chip_param_keeps)
  ultimately show ?thesis
    using run chip_disp_on_off [of True] by (auto simp: st2_def w_def)
qed

theorem touch_starts_session_witness:
  "\<exists>st1 st2. tv_step TouchIrq tv_up = Inr st1 \<and> LcdTouch_Task call_touch st1 = Inr st2 \<and> s_isStartTimer st2 \<and>
    chip_on (chip_of (dev st2))"
  using touch_starts_session [OF tv_up_ok(1)] by blast

end
