(* ===== verification/Tv_Main.thy ===== *)
theory Tv_Main
  imports Tv_Session
begin

text \<open>
  \<open>main/main.c\<close>: the boot sequence, and the theorem about the whole firmware that it gives: from
  power-on, through any sequence of task iterations and touches.
\<close>

subsection \<open>State\<close>

definition ESP_ERR_NVS_NO_FREE_PAGES :: esp_err_t where "ESP_ERR_NVS_NO_FREE_PAGES = 0x110D"

datatype sys_call = NvsFlashInit | NvsFlashErase | NetifInit

text \<open>The calls to the system, and as a parameter what the \<open>n\<close>th of them answers.\<close>

record boot_state =
  firmware :: tv_state
  sys_log :: "sys_call list"
  sys_ret :: "nat \<Rightarrow> esp_err_t"

definition sys :: "sys_call \<Rightarrow> boot_state \<Rightarrow> esp_err_t \<times> boot_state" where
  "sys c b = (sys_ret b (length (sys_log b)), b\<lparr>sys_log := sys_log b @ [c]\<rparr>)"

definition on_firmware :: "(tv_state \<Rightarrow> tv_state run) \<Rightarrow> boot_state \<Rightarrow> boot_state run" where
  "on_firmware f b = bindR (f (firmware b)) (\<lambda>st. Inr (b\<lparr>firmware := st\<rparr>))"

subsection \<open>Booting\<close>

definition GPIO_NUM_14 :: nat where "GPIO_NUM_14 = 14"

definition init_board_gpio :: "tv_state \<Rightarrow> tv_state" where
  "init_board_gpio st =
     (let (_, w) = gpio_config (push_bit GPIO_NUM_14 1) (dev st); st = st\<lparr>dev := w\<rparr> in
      gpio_set_level (int GPIO_NUM_14) True st)"

definition app_init :: "nat \<Rightarrow> nat \<Rightarrow> boot_state \<Rightarrow> boot_state run" where
  "app_init panel_size touch_size b =
     (let (err, b) = sys NvsFlashInit b in
      bindR (if err = ESP_ERR_NVS_NO_FREE_PAGES then
               let (e, b) = sys NvsFlashErase b in
               bindR (ESP_ERROR_CHECK e) (\<lambda>_.
               let (err, b) = sys NvsFlashInit b in Inr b)
             else Inr b) (\<lambda>b.
      let (e, b) = sys NetifInit b in
      bindR (ESP_ERROR_CHECK e) (\<lambda>_.
      bindR (on_firmware (\<lambda>st. Inr (init_board_gpio st)) b) (\<lambda>b.
      bindR (on_firmware (LcdTouch_Init panel_size touch_size) b) (\<lambda>b.
      bindR (on_firmware (on_audio AudioStream_Init) b) (\<lambda>b.
      on_firmware (\<lambda>st. Inr (Task_Init st)) b))))))"

definition app_main :: "nat \<Rightarrow> nat \<Rightarrow> boot_state \<Rightarrow> boot_state run" where
  "app_main panel_size touch_size b = app_init panel_size touch_size b"

subsection \<open>Power-on\<close>

text \<open>The statics before \<open>app_main\<close>, and what the boot needs of the hardware and the network.\<close>

definition power_on :: "tv_state \<Rightarrow> bool" where
  "power_on st \<longleftrightarrow> s_wordData st = s_wordData_init \<and> req_inv (tv_req st) \<and> \<not> s_isWordRequest st \<and> \<not> s_isStartTimer st \<and>
     \<not> isTouchOccurred st \<and> timer_min st = TV_TASK_TIME_MIN \<and> timer_sec st = TV_TASK_TIME_SEC \<and> tv_tasks st = [] \<and>
     light_sleeps st = 0"

definition hardware_ok :: "tv_state \<Rightarrow> bool" where
  "hardware_ok st \<longleftrightarrow> all_ok (dev st) \<and> bitmaps_ok (tv_bitmaps st) \<and> (\<forall>n. au_create_ret (tv_audio st) n) \<and>
     wifi_comes_up (tv_audio st) \<and> (\<forall>n. polite (tv_net st n))"

text \<open>Start-up of the two system services: which answers let it pass.\<close>

definition sys_starts :: "boot_state \<Rightarrow> bool" where
  "sys_starts b \<longleftrightarrow> (let n = length (sys_log b) in
     if sys_ret b n = ESP_ERR_NVS_NO_FREE_PAGES then sys_ret b (n + 1) = ESP_OK \<and> sys_ret b (n + 3) = ESP_OK
     else sys_ret b (n + 1) = ESP_OK)"

lemma app_init_sys:
  "app_init p t b =
     (if sys_starts b then
        bindR (bindR (LcdTouch_Init p t (init_board_gpio (firmware b))) (\<lambda>st.
               bindR (on_audio AudioStream_Init st) (\<lambda>st. Inr (Task_Init st))))
          (\<lambda>st. Inr (b\<lparr>firmware := st, sys_log := sys_log b @
             (if sys_ret b (length (sys_log b)) = ESP_ERR_NVS_NO_FREE_PAGES
              then [NvsFlashInit, NvsFlashErase, NvsFlashInit, NetifInit] else [NvsFlashInit, NetifInit])\<rparr>))
      else Inl Abort)"
  by (cases b) (simp add: app_init_def sys_starts_def sys_def on_firmware_def Let_def ESP_ERROR_CHECK_def
      numeral_2_eq_2 numeral_3_eq_3 bindR_assoc)

lemma frame_neutral:
  "\<forall>e\<in>set evs. chip_step e = id \<Longrightarrow> io_log w' = io_log w @ evs \<Longrightarrow> chip_of w' = chip_of w"
proof -
  have "fold chip_step evs c = c" if "\<forall>e\<in>set evs. chip_step e = id" for c evs
    using that by (induction evs) simp_all
  thus "\<forall>e\<in>set evs. chip_step e = id \<Longrightarrow> io_log w' = io_log w @ evs \<Longrightarrow> chip_of w' = chip_of w"
    by (simp add: chip_of_def)
qed

lemma lcd_init_ok:
  assumes "all_ok (dev st)"
  shows "\<exists>w r. LcdTouch_Init p t st = Inr (st\<lparr>dev := w, refresh_finish := r, s_panelHandle := Some ili9341_base,
      s_backgroud_color := 0, isInitDisplay := True\<rparr>) \<and> ili_ready w \<and> all_ok w \<and> \<not> chip_on (chip_of w) \<and>
    frame w = fill_rect 0 0 0 320 240 (frame (dev st)) \<and> GpioIsr IntrEnable 8 \<in> set (io_log w) \<and> GpioIsr HandlerAdd 8 \<in> set (io_log w)"
proof -
  obtain st1 where st1: "LcdTouch_InitDisplay p st = Inr st1" "isInitDisplay st1" "s_panelHandle st1 = Some ili9341_base"
    "s_backgroud_color st1 = 0" "isTouchOccurred st1 = isTouchOccurred st" "s_touch_callback_f st1 = s_touch_callback_f st"
    "lcd_state.more st1 = lcd_state.more st" "ili_ready (dev st1)" "all_ok (dev st1)"
    "chip_mode (dev st1) = (LCD_CMD_BGR_BIT OR LCD_CMD_MX_BIT, 0x55, False, True, chip_inverted (chip_of (dev st1)))"
    "frame (dev st1) = fill_rect 0 0 0 320 240 (frame (dev st))"
    using init_display_ok [OF assms, of p] by (elim exE conjE) (rule that; assumption)
  obtain tp st2 where st2: "LcdTouch_InitTouchPanel t st1 = Inr (tp, st2)" "st2 = st1\<lparr>dev := dev st2\<rparr>" "all_ok (dev st2)"
    "io_world.more (dev st2) = io_world.more (dev st1)"
    "io_log (dev st2) = io_log (dev st1) @ [SpiBusInit LT_LCD_TOUCH_HOST, NewPanelIo LT_LCD_TOUCH_HOST, Calloc t True,
      GpioConfig (push_bit 8 1), GpioIsr IsrInstall 0, GpioIsr IntrEnable 8, GpioIsr HandlerAdd 8]"
    using init_touch_ok [OF st1(9), of t] by (elim exE conjE) (rule that; assumption)
  have chip: "chip_of (dev st2) = chip_of (dev st1)"
    by (rule frame_neutral [OF _ st2(5)]) (auto simp: fun_eq_iff)
  have panel: "dev_panel (dev st2) = dev_panel (dev st1)"
    using st2(4) by (cases "dev st1"; cases "dev st2") simp
  have "st1 = st\<lparr>dev := dev st1, refresh_finish := refresh_finish st1, s_panelHandle := Some ili9341_base,
      s_backgroud_color := 0, isInitDisplay := True\<rparr>"
    using st1(2-7) by (cases st; cases st1) simp
  hence "st2 = st\<lparr>dev := dev st2, refresh_finish := refresh_finish st1, s_panelHandle := Some ili9341_base,
      s_backgroud_color := 0, isInitDisplay := True\<rparr>"
    using st2(2) by (cases st; cases st1; cases st2) simp
  moreover have "LcdTouch_Init p t st = Inr st2" using st1(1) st2(1) by (simp add: LcdTouch_Init_def)
  moreover have "ili_ready (dev st2)" using st1(8) panel by (simp add: ili_ready_def)
  moreover have "\<not> chip_on (chip_of (dev st2))" using st1(10) chip by (simp add: chip_mode_def Let_def)
  moreover have "frame (dev st2) = fill_rect 0 0 0 320 240 (frame (dev st))" using chip st1(11) by (simp add: frame_def)
  ultimately show ?thesis using st2(3,5) by (metis (no_types) Un_iff list.set_intros set_append)
qed

lemma boot_ok:
  assumes "power_on st" "hardware_ok st"
  shows "\<exists>st'. bindR (LcdTouch_Init p t (init_board_gpio st)) (\<lambda>st. bindR (on_audio AudioStream_Init st) (\<lambda>st. Inr (Task_Init st))) = Inr st' \<and>
    tv_inv st' \<and> tv_tasks st' = [AudioStreamTask, LcdTouchTask, TimerTask, MainTask] \<and> light_sleeps st' = 1 \<and>
    ext0_wakeup st' = Some (LT_PIN_NUM_TOUCH_IRQ, 0) \<and> \<not> s_isStartTimer st' \<and> \<not> s_isWordRequest st' \<and> clock st' = 120 \<and>
    \<not> chip_on (chip_of (dev st')) \<and> frame (dev st') = fill_rect 0 0 0 320 240 (frame (dev st))"
proof -
  let ?st0 = "init_board_gpio st"
  define st0 where "st0 = init_board_gpio st"
  have st0: "st0 = st\<lparr>dev := dev st0\<rparr>" "frame (dev st0) = frame (dev st)" "all_ok (dev st0)"
    using assms(2) by (simp_all add: st0_def init_board_gpio_def gpio_set_level_def gpio_config_def frame_def hardware_ok_def)
  obtain w r where lcd: "LcdTouch_Init p t st0 = Inr (st0\<lparr>dev := w, refresh_finish := r, s_panelHandle := Some ili9341_base,
      s_backgroud_color := 0, isInitDisplay := True\<rparr>)" "ili_ready w" "all_ok w" "\<not> chip_on (chip_of w)"
    "frame w = fill_rect 0 0 0 320 240 (frame (dev st0))"
    using lcd_init_ok [OF st0(3), of p t] by (elim exE conjE) (rule that; assumption)
  obtain l where au: "AudioStream_Init (tv_audio st) =
      Inr ((tv_audio st)\<lparr>au_log := au_log (tv_audio st) @ l, handles := (\<lambda>_. HLive), s_isInitAudioStream := True\<rparr>)"
    using Init_calls [of "tv_audio st"] assms(2) by (auto simp: hardware_ok_def)
  define a where "a = (tv_audio st)\<lparr>au_log := au_log (tv_audio st) @ l, handles := (\<lambda>_. HLive), s_isInitAudioStream := True\<rparr>"
  define st1 where "st1 = st0\<lparr>dev := w, refresh_finish := r, s_panelHandle := Some ili9341_base,
      s_backgroud_color := 0, isInitDisplay := True, tv_audio := a\<rparr>"
  have "tv_audio (st0\<lparr>dev := w, refresh_finish := r, s_panelHandle := Some ili9341_base,
      s_backgroud_color := 0, isInitDisplay := True\<rparr>) = tv_audio st"
    by (subst st0(1)) simp
  hence run: "bindR (LcdTouch_Init p t st0) (\<lambda>st. bindR (on_audio AudioStream_Init st) (\<lambda>st. Inr (Task_Init st))) = Inr (Task_Init st1)"
    using au by (simp add: lcd(1) on_audio_def a_def st1_def)
  have eq: "Task_Init st1 = st\<lparr>dev := w, refresh_finish := r, s_panelHandle := Some ili9341_base, s_backgroud_color := 0,
      isInitDisplay := True, s_touch_callback_f := Some TASK_TOUCH_CALLBACK, tv_audio := a, ext0_wakeup := Some (8, 0),
      wifi_ps_min_modem := True, tv_tasks := tv_tasks st @ [AudioStreamTask, LcdTouchTask, TimerTask, MainTask],
      light_sleeps := light_sleeps st + 1\<rparr>"
    unfolding st1_def by (subst st0(1), cases st) (simp add: Task_Init_def LcdTouch_SetTouchCallback_def esp_light_sleep_start_def Let_def)
  have "audio_ready a" by (simp add: a_def audio_ready_def)
  moreover have "clock_ok (TV_TASK_TIME_MIN) (TV_TASK_TIME_SEC)" by (simp add: clock_ok_def tv_time_defs)
  ultimately have "tv_inv (Task_Init st1)"
    using assms lcd(2,3) screen_inv_init by (simp add: eq tv_inv_def lcd_ok_def power_on_def hardware_ok_def)
  thus ?thesis
    using run lcd(4,5) st0(2) assms(1)
    by (simp add: st0_def [symmetric] eq power_on_def clock_def tv_time_defs LT_PIN_NUM_TOUCH_IRQ_def)
qed

subsection \<open>Properties\<close>

text \<open>
  C7. Booting. From the statics as they are at power-on, on hardware that works: if the two system
  services start, \<open>app_main\<close> returns with the firmware's invariant established, the four tasks created
  in order, the panel off over a black screen, no timer and no request pending, the clock at 2:00, the
  pin that wakes the chip the one the touch interrupt is on, and one light sleep begun; otherwise it
  aborts. The error of the last \<open>nvs_flash_init\<close> plays no part in this.
\<close>

theorem boot_establishes:
  assumes "power_on (firmware b)" "hardware_ok (firmware b)"
  shows "if sys_starts b
    then \<exists>b'. app_main p t b = Inr b' \<and> tv_inv (firmware b') \<and>
      tv_tasks (firmware b') = [AudioStreamTask, LcdTouchTask, TimerTask, MainTask] \<and> light_sleeps (firmware b') = 1 \<and>
      ext0_wakeup (firmware b') = Some (int_gpio_num tp_cfg, 0) \<and> \<not> s_isStartTimer (firmware b') \<and>
      \<not> s_isWordRequest (firmware b') \<and> clock (firmware b') = 120 \<and> \<not> chip_on (chip_of (dev (firmware b'))) \<and>
      (\<forall>x<320. \<forall>y<240. frame (dev (firmware b')) x y = 0)
    else app_main p t b = Inl Abort"
proof -
  obtain st' where "bindR (LcdTouch_Init p t (init_board_gpio (firmware b)))
      (\<lambda>st. bindR (on_audio AudioStream_Init st) (\<lambda>st. Inr (Task_Init st))) = Inr st'"
    "tv_inv st'" "tv_tasks st' = [AudioStreamTask, LcdTouchTask, TimerTask, MainTask]" "light_sleeps st' = 1"
    "ext0_wakeup st' = Some (LT_PIN_NUM_TOUCH_IRQ, 0)" "\<not> s_isStartTimer st'" "\<not> s_isWordRequest st'" "clock st' = 120"
    "\<not> chip_on (chip_of (dev st'))" "frame (dev st') = fill_rect 0 0 0 320 240 (frame (dev (firmware b)))"
    using boot_ok [OF assms, of p t] by (elim exE conjE) (rule that; assumption)
  thus ?thesis by (simp add: app_main_def app_init_sys tp_cfg_def fill_rect_def)
qed

definition tv_off :: tv_state where
  "tv_off = tv_up\<lparr>dev := demo_dev\<lparr>dev_panel := None\<rparr>, s_panelHandle := None, s_touch_callback_f := None, isInitDisplay := False,
     tv_audio := audio_start, s_isStartTimer := False\<rparr>"

definition boot_start :: boot_state where
  "boot_start = \<lparr>firmware = tv_off, sys_log = [],
     sys_ret = (\<lambda>n. if n = 0 then ESP_ERR_NVS_NO_FREE_PAGES else if n = 2 then ESP_FAIL else ESP_OK)\<rparr>"

lemma boot_start_ok: "power_on (firmware boot_start)" "hardware_ok (firmware boot_start)" "sys_starts boot_start"
proof -
  show "power_on (firmware boot_start)"
    using req_inv_init by (simp add: boot_start_def tv_off_def tv_up_def power_on_def)
  show "hardware_ok (firmware boot_start)"
    using tv_up_ok(1) lcd_start_ok audio_start_ok
    by (simp add: boot_start_def tv_off_def hardware_ok_def tv_inv_def lcd_start_def)
  show "sys_starts boot_start" by (simp add: boot_start_def sys_starts_def)
qed

theorem boot_establishes_witness:
  "\<exists>b'. app_main 64 200 boot_start = Inr b' \<and> tv_inv (firmware b') \<and> light_sleeps (firmware b') = 1"
  using boot_establishes [OF boot_start_ok(1,2), of 64 200] boot_start_ok(3) by auto

text \<open>
  C2. The whole firmware. Booted on hardware that works, with a server that answers politely or not at
  all, it survives any sequence of task iterations and touch interrupts, in any order: every one of
  them returns, none reads or writes outside an object, aborts or hangs, and the invariant holds
  after each.
\<close>

theorem firmware_runs:
  assumes "power_on (firmware b)" "hardware_ok (firmware b)" "sys_starts b"
  shows "\<exists>b'. app_main p t b = Inr b' \<and> (\<forall>evs. \<exists>st'. run_ops tv_step evs (firmware b') = Inr st' \<and> tv_inv st')"
proof -
  obtain st' where "bindR (LcdTouch_Init p t (init_board_gpio (firmware b)))
      (\<lambda>st. bindR (on_audio AudioStream_Init st) (\<lambda>st. Inr (Task_Init st))) = Inr st'" "tv_inv st'"
    using boot_ok [OF assms(1,2), of p t] by blast
  thus ?thesis using assms(3) tv.run_total by (auto simp: app_main_def app_init_sys)
qed

theorem firmware_runs_witness:
  "\<exists>b' st'. app_main 64 200 boot_start = Inr b' \<and>
    run_ops tv_step [TouchIrq, Iter LcdTouchTask, Iter TimerTask, Iter MainTask, Iter LcdTouchTask] (firmware b') = Inr st'"
  using firmware_runs [OF boot_start_ok, of 64 200] by blast

end
