(* ===== verification/Tv_Statements.thy ===== *)
theory Tv_Statements
  imports Tv_Main
begin

text \<open>
  The tasks of \<open>main/task.c\<close> statement by statement: each task has a program counter, and a step is one
  statement, a test, an assignment to a shared flag or one call of a module. Running one task's
  statements alone is its iteration of \<open>Tv_Task\<close>; interleaved in any way, a call of a module being one step, they keep the firmware safe.
\<close>

subsection \<open>Program counters\<close>

datatype main_pc = MTest | MRequest | MClear | MWord | MWordFlag | MSentence | MSentenceFlag | MPlay | MDone

datatype lcd_pc =
    LTouch | LStartTimer | LTurnOn | LTouchDone
  | LWord | LDrawWord | LWordDone
  | LSentence | LDrawSentence | LSentenceDone
  | LTime | LDrawTime | LTimeDone

datatype timer_pc =
    TTick | TTest | TPrint | TTimeFlag | TSecond | TRequest | TBorrow | TEnd | TTurnOff | TSleep | TPlay

record fine_state =
  fw :: tv_state
  main_at :: main_pc
  lcd_at :: lcd_pc
  timer_at :: timer_pc

text \<open>A statement that changes the firmware and goes on at a label.\<close>

definition goto_main :: "main_pc \<Rightarrow> fine_state \<Rightarrow> tv_state run \<Rightarrow> fine_state run" where
  "goto_main l f r = bindR r (\<lambda>st. Inr (f\<lparr>fw := st, main_at := l\<rparr>))"

definition goto_lcd :: "lcd_pc \<Rightarrow> fine_state \<Rightarrow> tv_state run \<Rightarrow> fine_state run" where
  "goto_lcd l f r = bindR r (\<lambda>st. Inr (f\<lparr>fw := st, lcd_at := l\<rparr>))"

definition goto_timer :: "timer_pc \<Rightarrow> fine_state \<Rightarrow> tv_state run \<Rightarrow> fine_state run" where
  "goto_timer l f r = bindR r (\<lambda>st. Inr (f\<lparr>fw := st, timer_at := l\<rparr>))"

lemmas goto_defs = goto_main_def goto_lcd_def goto_timer_def

subsection \<open>The statements\<close>

definition main_stmt :: "fine_state \<Rightarrow> fine_state run" where
  "main_stmt f =
     (let st = fw f; sd = s_wordData st in
      case main_at f of
        MTest \<Rightarrow> goto_main (if s_isWordRequest st then MRequest else MTest) f (Inr st)
      | MRequest \<Rightarrow>
          bindR (ReqWord_Requset (tv_net st (requests st)) (tv_req st)) (\<lambda>(ok, r).
          goto_main (if ok then MClear else MDone) f (Inr (st\<lparr>tv_req := r, requests := requests st + 1\<rparr>)))
      | MClear \<Rightarrow> goto_main MWord f (LcdTouch_ResetBackground st)
      | MWord \<Rightarrow>
          goto_main MWordFlag f (bindR (ReqWord_GetWord (sd_word sd) (tv_req st)) (\<lambda>b. Inr (st\<lparr>s_wordData := sd\<lparr>sd_word := b\<rparr>\<rparr>)))
      | MWordFlag \<Rightarrow> goto_main MSentence f (Inr (st\<lparr>s_wordData := sd\<lparr>isNewWord := True\<rparr>\<rparr>))
      | MSentence \<Rightarrow>
          goto_main MSentenceFlag f (bindR (ReqWord_GetSentence (sd_sentence sd) (tv_req st)) (\<lambda>b. Inr (st\<lparr>s_wordData := sd\<lparr>sd_sentence := b\<rparr>\<rparr>)))
      | MSentenceFlag \<Rightarrow> goto_main MPlay f (Inr (st\<lparr>s_wordData := sd\<lparr>isNewSentence := True\<rparr>\<rparr>))
      | MPlay \<Rightarrow> goto_main MDone f (on_audio AudioStream_Run st)
      | MDone \<Rightarrow> goto_main MTest f (Inr (st\<lparr>s_isWordRequest := False\<rparr>)))"

definition lcd_stmt :: "fine_state \<Rightarrow> fine_state run" where
  "lcd_stmt f =
     (let st = fw f; sd = s_wordData st in
      case lcd_at f of
        LTouch \<Rightarrow>
          if isTouchOccurred st then
            (case s_touch_callback_f st of
               None \<Rightarrow> goto_lcd LTouchDone f (Inr st)
             | Some c \<Rightarrow> if c = TASK_TOUCH_CALLBACK then goto_lcd LStartTimer f (Inr st) else Inl Undef)
          else goto_lcd LWord f (Inr st)
      | LStartTimer \<Rightarrow> goto_lcd LTurnOn f (Inr (st\<lparr>s_isStartTimer := True\<rparr>))
      | LTurnOn \<Rightarrow> goto_lcd LTouchDone f (LcdTouch_TurnOn st)
      | LTouchDone \<Rightarrow> goto_lcd LWord f (Inr (st\<lparr>isTouchOccurred := False\<rparr>))
      | LWord \<Rightarrow> goto_lcd (if isNewWord sd then LDrawWord else LSentence) f (Inr st)
      | LDrawWord \<Rightarrow> goto_lcd LWordDone f (draw_string (sd_word sd) (word_x sd) (word_y sd) st)
      | LWordDone \<Rightarrow> goto_lcd LSentence f (Inr (st\<lparr>s_wordData := sd\<lparr>isNewWord := False\<rparr>\<rparr>))
      | LSentence \<Rightarrow> goto_lcd (if isNewSentence sd then LDrawSentence else LTime) f (Inr st)
      | LDrawSentence \<Rightarrow> goto_lcd LSentenceDone f (draw_string (sd_sentence sd) (sentence_x sd) (sentence_y sd) st)
      | LSentenceDone \<Rightarrow> goto_lcd LTime f (Inr (st\<lparr>s_wordData := sd\<lparr>isNewSentence := False\<rparr>\<rparr>))
      | LTime \<Rightarrow> goto_lcd (if isNewTime sd then LDrawTime else LTouch) f (Inr st)
      | LDrawTime \<Rightarrow> goto_lcd LTimeDone f (draw_string (sd_time sd) (time_x sd) (time_y sd) st)
      | LTimeDone \<Rightarrow> goto_lcd LTouch f (Inr (st\<lparr>s_wordData := sd\<lparr>isNewTime := False\<rparr>\<rparr>)))"

definition timer_stmt :: "fine_state \<Rightarrow> fine_state run" where
  "timer_stmt f =
     (let st = fw f; sd = s_wordData st in
      case timer_at f of
        TTick \<Rightarrow> goto_timer TTest f (Inr (st\<lparr>s_timerTick := s_timerTick st + 1\<rparr>))
      | TTest \<Rightarrow> goto_timer (if s_isStartTimer st then TPrint else TTick) f (Inr st)
      | TPrint \<Rightarrow>
          goto_timer TTimeFlag f (bindR (c_sprintf (sd_time sd) (time_text (timer_min st) (timer_sec st)))
            (\<lambda>t. Inr (st\<lparr>s_wordData := sd\<lparr>sd_time := t\<rparr>\<rparr>)))
      | TTimeFlag \<Rightarrow> goto_timer TSecond f (Inr (st\<lparr>s_wordData := sd\<lparr>isNewTime := True\<rparr>\<rparr>))
      | TSecond \<Rightarrow> goto_timer (if timer_sec st - 1 > 60 then TRequest else TEnd) f (Inr (st\<lparr>timer_sec := timer_sec st - 1\<rparr>))
      | TRequest \<Rightarrow> goto_timer TBorrow f (Inr (st\<lparr>s_isWordRequest := True\<rparr>))
      | TBorrow \<Rightarrow>
          goto_timer TEnd f (Inr (let st = st\<lparr>timer_sec := 59, timer_min := timer_min st - 1\<rparr> in
            if timer_min st > 60 then st\<lparr>timer_min := TV_TASK_TIME_MIN\<rparr> else st))
      | TEnd \<Rightarrow>
          if timer_sec st = 0 \<and> timer_min st = 0 then
            goto_timer TTurnOff f (Inr (st\<lparr>s_isStartTimer := False, timer_min := TV_TASK_TIME_MIN, timer_sec := TV_TASK_TIME_SEC\<rparr>))
          else if timer_sec st mod TV_TASK_REPEAT_TIME_SEC = 0 \<and> timer_sec st \<noteq> 0 then goto_timer TPlay f (Inr st)
          else goto_timer TTick f (Inr st)
      | TTurnOff \<Rightarrow> goto_timer TSleep f (LcdTouch_TurnOff st)
      | TSleep \<Rightarrow> goto_timer TTick f (Inr (esp_light_sleep_start st))
      | TPlay \<Rightarrow> goto_timer TTick f (on_audio AudioStream_Run st))"

text \<open>The audio task's only statement waits for an event and handles it.\<close>

definition audio_stmt :: "fine_state \<Rightarrow> fine_state run" where
  "audio_stmt f =
     (let st = fw f in
      if au_events (tv_audio st) (length (au_log (tv_audio st))) = None then Inr f
      else bindR (Task_AudioStream_Wrapper st) (\<lambda>st. Inr (f\<lparr>fw := st\<rparr>)))"

primrec task_stmt :: "task \<Rightarrow> fine_state \<Rightarrow> fine_state run" where
  "task_stmt AudioStreamTask = audio_stmt"
| "task_stmt LcdTouchTask = lcd_stmt"
| "task_stmt TimerTask = timer_stmt"
| "task_stmt MainTask = main_stmt"

datatype fine_event = Stmt task | Touch

primrec fine_step :: "fine_event \<Rightarrow> fine_state \<Rightarrow> fine_state run" where
  "fine_step (Stmt t) f = task_stmt t f"
| "fine_step Touch f = Inr (f\<lparr>fw := LcdTouch_TouchISR (fw f)\<rparr>)"

lemmas stmt_defs = main_stmt_def lcd_stmt_def timer_stmt_def goto_defs bindR_assoc Let_def

text \<open>All tasks at the top of their loops.\<close>

definition at_start :: "tv_state \<Rightarrow> fine_state" where
  "at_start st = \<lparr>fw = st, main_at = MTest, lcd_at = LTouch, timer_at = TTick\<rparr>"

subsection \<open>An iteration is its statements\<close>

text \<open>Some number of statements of one task have together the effect of \<open>r\<close>, and end in \<open>g\<close> of its result.\<close>

definition runs_as :: "task \<Rightarrow> fine_state \<Rightarrow> 'a run \<Rightarrow> ('a \<Rightarrow> fine_state) \<Rightarrow> bool" where
  "runs_as t f r g \<longleftrightarrow> (\<exists>n. run_ops task_stmt (replicate n t) f = bindR r (\<lambda>x. Inr (g x)))"

lemma runs_as_done: "runs_as t f (Inr x) (\<lambda>_. f)"
  unfolding runs_as_def by (rule exI [of _ 0]) simp

lemma runs_as_stmt: "task_stmt t f = bindR r (\<lambda>x. Inr (g x)) \<Longrightarrow> runs_as t f r g"
  unfolding runs_as_def by (rule exI [of _ 1]) (cases r; simp)

lemma runs_as_seq:
  assumes "runs_as t f r g" "\<And>x. r = Inr x \<Longrightarrow> runs_as t (g x) (r' x) h"
  shows "runs_as t f (bindR r r') h"
proof -
  obtain n where n: "run_ops task_stmt (replicate n t) f = bindR r (\<lambda>x. Inr (g x))" using assms(1) by (auto simp: runs_as_def)
  show ?thesis
  proof (cases r)
    case (Inl e)
    thus ?thesis using n by (auto simp: runs_as_def)
  next
    case (Inr x)
    then obtain m where "run_ops task_stmt (replicate m t) (g x) = bindR (r' x) (\<lambda>x. Inr (h x))"
      using assms(2) by (auto simp: runs_as_def)
    hence "run_ops task_stmt (replicate (n + m) t) f = bindR (r' x) (\<lambda>x. Inr (h x))"
      using n Inr by (simp add: replicate_add run_ops_append)
    thus ?thesis using Inr by (auto simp: runs_as_def)
  qed
qed

lemma runs_as_skip:
  assumes "task_stmt t f = Inr f'" "runs_as t f' r g"
  shows "runs_as t f r g"
proof -
  have "runs_as t f (Inr ()) (\<lambda>_. f')" by (rule runs_as_stmt) (simp add: assms(1))
  from runs_as_seq [OF this, of "\<lambda>_. r" g] assms(2) show ?thesis by simp
qed

lemma runs_as_then:
  assumes "task_stmt t f = bindR r (\<lambda>x. Inr (g x))" "\<And>x. r = Inr x \<Longrightarrow> runs_as t (g x) (r' x) h"
  shows "runs_as t f (bindR r r') h"
  by (rule runs_as_seq [OF runs_as_stmt]) (use assms in simp_all)

text \<open>The main task from the moment the request has been answered.\<close>

lemma main_runs_last:
  assumes "main_at f = MTest"
  shows "runs_as MainTask (f\<lparr>fw := st, main_at := MDone\<rparr>) (Inr (st\<lparr>s_isWordRequest := False\<rparr>)) (\<lambda>st. f\<lparr>fw := st\<rparr>)"
  using assms by (intro runs_as_stmt) (cases f, simp add: stmt_defs)

lemma main_runs_word:
  assumes "main_at f = MTest"
  shows "runs_as MainTask (f\<lparr>fw := st, main_at := MClear\<rparr>)
    (bindR (LcdTouch_ResetBackground st) (\<lambda>st. bindR (ReqWord_GetWord (sd_word (s_wordData st)) (tv_req st)) (\<lambda>b.
       bindR (ReqWord_GetSentence (sd_sentence (s_wordData st)) (tv_req st)) (\<lambda>b'.
       bindR (on_audio AudioStream_Run (st\<lparr>s_wordData := (s_wordData st)\<lparr>sd_word := b, isNewWord := True, sd_sentence := b', isNewSentence := True\<rparr>\<rparr>))
         (\<lambda>st. Inr (st\<lparr>s_isWordRequest := False\<rparr>)))))) (\<lambda>st. f\<lparr>fw := st\<rparr>)"
proof (rule runs_as_then [where g = "\<lambda>st. f\<lparr>fw := st, main_at := MWord\<rparr>"], goal_cases)
  case (2 st)
  show ?case
  proof (rule runs_as_then [where g = "\<lambda>b. f\<lparr>fw := st\<lparr>s_wordData := (s_wordData st)\<lparr>sd_word := b\<rparr>\<rparr>, main_at := MWordFlag\<rparr>"], goal_cases)
    case (2 b)
    let ?sd = "(s_wordData st)\<lparr>sd_word := b, isNewWord := True\<rparr>"
    have "task_stmt MainTask (f\<lparr>fw := st\<lparr>s_wordData := (s_wordData st)\<lparr>sd_word := b\<rparr>\<rparr>, main_at := MWordFlag\<rparr>) =
        Inr (f\<lparr>fw := st\<lparr>s_wordData := ?sd\<rparr>, main_at := MSentence\<rparr>)"
      by (simp add: stmt_defs)
    thus ?case
    proof (rule runs_as_skip, goal_cases)
      case 1
      show ?case
      proof (rule runs_as_then [where g = "\<lambda>b'. f\<lparr>fw := st\<lparr>s_wordData := ?sd\<lparr>sd_sentence := b'\<rparr>\<rparr>, main_at := MSentenceFlag\<rparr>"], goal_cases)
        case (2 b')
        have "task_stmt MainTask (f\<lparr>fw := st\<lparr>s_wordData := ?sd\<lparr>sd_sentence := b'\<rparr>\<rparr>, main_at := MSentenceFlag\<rparr>) =
            Inr (f\<lparr>fw := st\<lparr>s_wordData := ?sd\<lparr>sd_sentence := b', isNewSentence := True\<rparr>\<rparr>, main_at := MPlay\<rparr>)"
          by (simp add: stmt_defs)
        thus ?case
          by (rule runs_as_skip) (rule runs_as_then [OF _ main_runs_last [OF assms]], simp add: stmt_defs)
      qed (simp add: stmt_defs)
    qed
  qed (simp add: stmt_defs)
qed (simp add: stmt_defs)

lemma main_runs:
  assumes "main_at f = MTest"
  shows "runs_as MainTask f (Task_MainTask (fw f)) (\<lambda>st. f\<lparr>fw := st\<rparr>)"
proof (cases "s_isWordRequest (fw f)")
  case False
  thus ?thesis
    using assms by (intro runs_as_stmt) (cases f, simp add: stmt_defs Task_MainTask_def)
next
  case True
  let ?st = "fw f"
  have start: "task_stmt MainTask f = Inr (f\<lparr>main_at := MRequest\<rparr>)"
    using True assms by (cases f) (simp add: stmt_defs)
  have request: "task_stmt MainTask (f\<lparr>main_at := MRequest\<rparr>) =
      bindR (ReqWord_Requset (tv_net ?st (requests ?st)) (tv_req ?st))
        (\<lambda>x. Inr (f\<lparr>fw := ?st\<lparr>tv_req := snd x, requests := requests ?st + 1\<rparr>, main_at := if fst x then MClear else MDone\<rparr>))"
    by (simp add: stmt_defs case_prod_beta')
  show ?thesis
  proof (rule runs_as_skip [OF start], simp only: Task_MainTask_def True if_True, rule runs_as_then [OF request])
    fix x
    show "runs_as MainTask (f\<lparr>fw := ?st\<lparr>tv_req := snd x, requests := requests ?st + 1\<rparr>, main_at := if fst x then MClear else MDone\<rparr>)
      (case x of (ok, r) \<Rightarrow> let st = ?st\<lparr>tv_req := r, requests := requests ?st + 1\<rparr> in
        bindR (if ok then
                 bindR (LcdTouch_ResetBackground st) (\<lambda>st.
                 bindR (ReqWord_GetWord (sd_word (s_wordData st)) (tv_req st)) (\<lambda>b.
                 let st = st\<lparr>s_wordData := (s_wordData st)\<lparr>sd_word := b, isNewWord := True\<rparr>\<rparr> in
                 bindR (ReqWord_GetSentence (sd_sentence (s_wordData st)) (tv_req st)) (\<lambda>b.
                 let st = st\<lparr>s_wordData := (s_wordData st)\<lparr>sd_sentence := b, isNewSentence := True\<rparr>\<rparr> in
                 on_audio AudioStream_Run st)))
               else Inr st) (\<lambda>st. Inr (st\<lparr>s_isWordRequest := False\<rparr>))) (\<lambda>st. f\<lparr>fw := st\<rparr>)"
      using main_runs_last [OF assms] main_runs_word [OF assms, of "?st\<lparr>tv_req := snd x, requests := requests ?st + 1\<rparr>"]
      by (cases x) (simp add: bindR_assoc Let_def)
  qed
qed

lemma touch_runs:
  assumes "lcd_at f = LTouch"
  shows "runs_as LcdTouchTask f (LcdTouch_Task call_touch (fw f)) (\<lambda>st. f\<lparr>fw := st, lcd_at := LWord\<rparr>)"
proof -
  have fin: "runs_as LcdTouchTask (f\<lparr>fw := st, lcd_at := LTouchDone\<rparr>) (Inr (st\<lparr>isTouchOccurred := False\<rparr>))
    (\<lambda>st. f\<lparr>fw := st, lcd_at := LWord\<rparr>)" for st
    by (rule runs_as_stmt) (simp add: stmt_defs)
  consider "\<not> isTouchOccurred (fw f)" | "isTouchOccurred (fw f)" "s_touch_callback_f (fw f) = None"
    | c where "isTouchOccurred (fw f)" "s_touch_callback_f (fw f) = Some c" by (cases "s_touch_callback_f (fw f)") auto
  thus ?thesis
  proof cases
    case 1
    thus ?thesis using assms by (intro runs_as_stmt) (cases f, simp add: stmt_defs LcdTouch_Task_def)
  next
    case 2
    hence "task_stmt LcdTouchTask f = Inr (f\<lparr>fw := fw f, lcd_at := LTouchDone\<rparr>)"
      using assms by (simp add: stmt_defs)
    from runs_as_skip [OF this fin] show ?thesis using 2 by (simp add: LcdTouch_Task_def)
  next
    case 3
    show ?thesis
    proof (cases "c = TASK_TOUCH_CALLBACK")
      case False
      thus ?thesis using 3 assms by (intro runs_as_stmt) (simp add: stmt_defs LcdTouch_Task_def call_touch_def)
    next
      case True
      let ?st = "(fw f)\<lparr>s_isStartTimer := True\<rparr>"
      have 1: "task_stmt LcdTouchTask f = Inr (f\<lparr>lcd_at := LStartTimer\<rparr>)" using 3 True assms by (cases f) (simp add: stmt_defs)
      have 2: "task_stmt LcdTouchTask (f\<lparr>lcd_at := LStartTimer\<rparr>) = Inr (f\<lparr>fw := ?st, lcd_at := LTurnOn\<rparr>)" by (simp add: stmt_defs)
      have "runs_as LcdTouchTask f (bindR (LcdTouch_TurnOn ?st) (\<lambda>st. Inr (st\<lparr>isTouchOccurred := False\<rparr>))) (\<lambda>st. f\<lparr>fw := st, lcd_at := LWord\<rparr>)"
        by (rule runs_as_skip [OF 1], rule runs_as_skip [OF 2], rule runs_as_then [OF _ fin]) (simp add: stmt_defs)
      thus ?thesis using 3 True by (simp add: LcdTouch_Task_def call_touch_def Task_TouchCallback_def)
    qed
  qed
qed

text \<open>The three parts of \<open>Task_UpdateScreen\<close> have the same shape: test a flag, draw, clear the flag.\<close>

lemma draw_if_runs:
  assumes "task_stmt t f = Inr (if b then f1 else h st)" "task_stmt t f1 = bindR r (\<lambda>st. Inr (g st))"
    and "\<And>st. task_stmt t (g st) = Inr (h (k st))"
  shows "runs_as t f (if b then bindR r (\<lambda>st. Inr (k st)) else Inr st) h"
proof (cases b)
  case True
  have "runs_as t (g st) (Inr (k st)) h" for st by (rule runs_as_stmt) (simp add: assms(3))
  hence "runs_as t f1 (bindR r (\<lambda>st. Inr (k st))) h" by (rule runs_as_then [OF assms(2)])
  with assms(1) show ?thesis using True by (simp add: runs_as_skip)
qed (use assms(1) in \<open>simp add: runs_as_stmt\<close>)

lemma word_runs:
  "runs_as LcdTouchTask (f\<lparr>fw := st, lcd_at := LWord\<rparr>)
    (if isNewWord (s_wordData st) then
       bindR (draw_string (sd_word (s_wordData st)) (word_x (s_wordData st)) (word_y (s_wordData st)) st) (\<lambda>st.
       Inr (st\<lparr>s_wordData := (s_wordData st)\<lparr>isNewWord := False\<rparr>\<rparr>)) else Inr st) (\<lambda>st. f\<lparr>fw := st, lcd_at := LSentence\<rparr>)"
  by (rule draw_if_runs [where ?f1.0 = "f\<lparr>fw := st, lcd_at := LDrawWord\<rparr>" and g = "\<lambda>st. f\<lparr>fw := st, lcd_at := LWordDone\<rparr>"]) (simp_all add: stmt_defs)

lemma sentence_runs:
  "runs_as LcdTouchTask (f\<lparr>fw := st, lcd_at := LSentence\<rparr>)
    (if isNewSentence (s_wordData st) then
       bindR (draw_string (sd_sentence (s_wordData st)) (sentence_x (s_wordData st)) (sentence_y (s_wordData st)) st) (\<lambda>st.
       Inr (st\<lparr>s_wordData := (s_wordData st)\<lparr>isNewSentence := False\<rparr>\<rparr>)) else Inr st) (\<lambda>st. f\<lparr>fw := st, lcd_at := LTime\<rparr>)"
  by (rule draw_if_runs [where ?f1.0 = "f\<lparr>fw := st, lcd_at := LDrawSentence\<rparr>" and g = "\<lambda>st. f\<lparr>fw := st, lcd_at := LSentenceDone\<rparr>"]) (simp_all add: stmt_defs)

lemma time_runs:
  assumes "lcd_at f = LTouch"
  shows "runs_as LcdTouchTask (f\<lparr>fw := st, lcd_at := LTime\<rparr>)
    (if isNewTime (s_wordData st) then
       bindR (draw_string (sd_time (s_wordData st)) (time_x (s_wordData st)) (time_y (s_wordData st)) st) (\<lambda>st.
       Inr (st\<lparr>s_wordData := (s_wordData st)\<lparr>isNewTime := False\<rparr>\<rparr>)) else Inr st) (\<lambda>st. f\<lparr>fw := st\<rparr>)"
proof -
  have top: "f\<lparr>fw := st, lcd_at := LTouch\<rparr> = f\<lparr>fw := st\<rparr>" for st using assms by (cases f) simp
  show ?thesis
    by (rule draw_if_runs [where ?f1.0 = "f\<lparr>fw := st, lcd_at := LDrawTime\<rparr>" and g = "\<lambda>st. f\<lparr>fw := st, lcd_at := LTimeDone\<rparr>"]) (simp_all add: stmt_defs top)
qed

lemma lcd_runs:
  assumes "lcd_at f = LTouch"
  shows "runs_as LcdTouchTask f (Task_LcdTouch (fw f)) (\<lambda>st. f\<lparr>fw := st\<rparr>)"
  unfolding Task_LcdTouch_def Task_UpdateScreen_def
  by (rule runs_as_seq [OF touch_runs [OF assms]], rule runs_as_seq [OF word_runs], rule runs_as_seq [OF sentence_runs],
      rule time_runs [OF assms])

text \<open>The timer task from the end of the count-down on, and its count-down.\<close>

lemma timer_end_runs:
  assumes "timer_at f = TTick"
  shows "runs_as TimerTask (f\<lparr>fw := st, timer_at := TEnd\<rparr>)
    (if timer_sec st = 0 \<and> timer_min st = 0 then
       bindR (LcdTouch_TurnOff (st\<lparr>s_isStartTimer := False, timer_min := TV_TASK_TIME_MIN, timer_sec := TV_TASK_TIME_SEC\<rparr>))
         (\<lambda>st. Inr (esp_light_sleep_start st))
     else if timer_sec st mod TV_TASK_REPEAT_TIME_SEC = 0 \<and> timer_sec st \<noteq> 0 then on_audio AudioStream_Run st
     else Inr st) (\<lambda>st. f\<lparr>fw := st\<rparr>)"
proof -
  have top: "f\<lparr>fw := st, timer_at := TTick\<rparr> = f\<lparr>fw := st\<rparr>" for st using assms by (cases f) simp
  consider "timer_sec st = 0" "timer_min st = 0"
    | "\<not> (timer_sec st = 0 \<and> timer_min st = 0)" "timer_sec st mod TV_TASK_REPEAT_TIME_SEC = 0 \<and> timer_sec st \<noteq> 0"
    | "\<not> (timer_sec st = 0 \<and> timer_min st = 0)" "\<not> (timer_sec st mod TV_TASK_REPEAT_TIME_SEC = 0 \<and> timer_sec st \<noteq> 0)"
    by blast
  thus ?thesis
  proof cases
    case 1
    let ?st = "st\<lparr>s_isStartTimer := False, timer_min := TV_TASK_TIME_MIN, timer_sec := TV_TASK_TIME_SEC\<rparr>"
    have "task_stmt TimerTask (f\<lparr>fw := st, timer_at := TEnd\<rparr>) = Inr (f\<lparr>fw := ?st, timer_at := TTurnOff\<rparr>)"
      using 1 by (simp add: stmt_defs)
    moreover have "runs_as TimerTask (f\<lparr>fw := ?st, timer_at := TTurnOff\<rparr>)
        (bindR (LcdTouch_TurnOff ?st) (\<lambda>st. Inr (esp_light_sleep_start st))) (\<lambda>st. f\<lparr>fw := st\<rparr>)"
      by (rule runs_as_then [where g = "\<lambda>st. f\<lparr>fw := st, timer_at := TSleep\<rparr>"]) (simp_all add: stmt_defs runs_as_stmt top)
    ultimately have "runs_as TimerTask (f\<lparr>fw := st, timer_at := TEnd\<rparr>)
        (bindR (LcdTouch_TurnOff ?st) (\<lambda>st. Inr (esp_light_sleep_start st))) (\<lambda>st. f\<lparr>fw := st\<rparr>)"
      by (rule runs_as_skip)
    thus ?thesis by (simp only: 1 simp_thms if_True)
  next
    case 2
    have "task_stmt TimerTask (f\<lparr>fw := st, timer_at := TEnd\<rparr>) = Inr (f\<lparr>fw := st, timer_at := TPlay\<rparr>)"
      using 2 by (simp only: task_stmt.simps timer_stmt_def Let_def) (simp add: goto_timer_def)
    moreover have "runs_as TimerTask (f\<lparr>fw := st, timer_at := TPlay\<rparr>) (on_audio AudioStream_Run st) (\<lambda>st. f\<lparr>fw := st\<rparr>)"
      by (rule runs_as_stmt) (simp add: stmt_defs top)
    ultimately have "runs_as TimerTask (f\<lparr>fw := st, timer_at := TEnd\<rparr>) (on_audio AudioStream_Run st) (\<lambda>st. f\<lparr>fw := st\<rparr>)"
      by (rule runs_as_skip)
    thus ?thesis unfolding if_not_P [OF 2(1)] if_P [OF 2(2)] .
  next
    case 3
    have "task_stmt TimerTask (f\<lparr>fw := st, timer_at := TEnd\<rparr>) = Inr (f\<lparr>fw := st\<rparr>)"
      using 3 by (auto simp: timer_stmt_def Let_def goto_timer_def top)
    hence "runs_as TimerTask (f\<lparr>fw := st, timer_at := TEnd\<rparr>) (Inr st) (\<lambda>st. f\<lparr>fw := st\<rparr>)" by (intro runs_as_stmt) simp
    thus ?thesis unfolding if_not_P [OF 3(1)] if_not_P [OF 3(2)] .
  qed
qed

lemma count_down_runs:
  "runs_as TimerTask (f\<lparr>fw := st, timer_at := TSecond\<rparr>) (Inr (count_down st)) (\<lambda>st. f\<lparr>fw := st, timer_at := TEnd\<rparr>)"
proof (cases "timer_sec st - 1 > 60")
  case False
  thus ?thesis by (intro runs_as_stmt) (simp add: stmt_defs count_down_def)
next
  case True
  let ?st = "st\<lparr>timer_sec := timer_sec st - 1\<rparr>"
  have 1: "task_stmt TimerTask (f\<lparr>fw := st, timer_at := TSecond\<rparr>) = Inr (f\<lparr>fw := ?st, timer_at := TRequest\<rparr>)"
    using True by (simp add: stmt_defs)
  have 2: "task_stmt TimerTask (f\<lparr>fw := ?st, timer_at := TRequest\<rparr>) = Inr (f\<lparr>fw := ?st\<lparr>s_isWordRequest := True\<rparr>, timer_at := TBorrow\<rparr>)"
    by (simp add: stmt_defs)
  show ?thesis
    by (rule runs_as_skip [OF 1], rule runs_as_skip [OF 2], rule runs_as_stmt)
      (use True in \<open>simp add: stmt_defs count_down_def\<close>)
qed

lemma timer_runs:
  assumes "timer_at f = TTick"
  shows "runs_as TimerTask f (Task_TimerTask (fw f)) (\<lambda>st. f\<lparr>fw := st\<rparr>)"
proof -
  define st where "st = (fw f)\<lparr>s_timerTick := s_timerTick (fw f) + 1\<rparr>"
  have tick: "task_stmt TimerTask f = Inr (f\<lparr>fw := st, timer_at := TTest\<rparr>)"
    using assms by (simp add: stmt_defs st_def)
  show ?thesis
  proof (cases "s_isStartTimer st")
    case False
    hence "task_stmt TimerTask (f\<lparr>fw := st, timer_at := TTest\<rparr>) = Inr (f\<lparr>fw := st\<rparr>)"
      using assms by (cases f) (simp add: stmt_defs)
    hence "runs_as TimerTask f (Inr st) (\<lambda>st. f\<lparr>fw := st\<rparr>)"
      by (intro runs_as_skip [OF tick] runs_as_stmt) simp
    thus ?thesis using False by (simp add: Task_TimerTask_def st_def)
  next
    case True
    let ?print = "c_sprintf (sd_time (s_wordData st)) (time_text (timer_min st) (timer_sec st))"
    let ?rest = "\<lambda>st. if timer_sec st = 0 \<and> timer_min st = 0 then
       bindR (LcdTouch_TurnOff (st\<lparr>s_isStartTimer := False, timer_min := TV_TASK_TIME_MIN, timer_sec := TV_TASK_TIME_SEC\<rparr>))
         (\<lambda>st. Inr (esp_light_sleep_start st))
     else if timer_sec st mod TV_TASK_REPEAT_TIME_SEC = 0 \<and> timer_sec st \<noteq> 0 then on_audio AudioStream_Run st else Inr st"
    have 1: "task_stmt TimerTask (f\<lparr>fw := st, timer_at := TTest\<rparr>) = Inr (f\<lparr>fw := st, timer_at := TPrint\<rparr>)"
      using True by (simp add: stmt_defs)
    have 2: "task_stmt TimerTask (f\<lparr>fw := st, timer_at := TPrint\<rparr>) =
        bindR ?print (\<lambda>t. Inr (f\<lparr>fw := st\<lparr>s_wordData := (s_wordData st)\<lparr>sd_time := t\<rparr>\<rparr>, timer_at := TTimeFlag\<rparr>))"
      by (simp add: stmt_defs)
    have 3: "task_stmt TimerTask (f\<lparr>fw := st\<lparr>s_wordData := (s_wordData st)\<lparr>sd_time := t\<rparr>\<rparr>, timer_at := TTimeFlag\<rparr>) =
        Inr (f\<lparr>fw := st\<lparr>s_wordData := (s_wordData st)\<lparr>sd_time := t, isNewTime := True\<rparr>\<rparr>, timer_at := TSecond\<rparr>)" for t
      by (simp add: stmt_defs)
    have "runs_as TimerTask f (bindR ?print (\<lambda>t. bindR
        (Inr (count_down (st\<lparr>s_wordData := (s_wordData st)\<lparr>sd_time := t, isNewTime := True\<rparr>\<rparr>))) ?rest)) (\<lambda>st. f\<lparr>fw := st\<rparr>)"
      by (rule runs_as_skip [OF tick], rule runs_as_skip [OF 1], rule runs_as_then [OF 2], rule runs_as_skip [OF 3],
          rule runs_as_seq [OF count_down_runs timer_end_runs [OF assms]])
    thus ?thesis using True by (simp add: Task_TimerTask_def st_def Let_def cong: if_cong)
  qed
qed

lemma audio_runs:
  assumes "au_events (tv_audio (fw f)) (length (au_log (tv_audio (fw f)))) \<noteq> None"
  shows "runs_as AudioStreamTask f (Task_AudioStream_Wrapper (fw f)) (\<lambda>st. f\<lparr>fw := st\<rparr>)"
  using assms by (intro runs_as_stmt) (auto simp: audio_stmt_def Let_def)

subsection \<open>The invariant between statements\<close>

text \<open>The answer the main task holds between the request and the copies.\<close>

definition answer_ok :: "req_state \<Rightarrow> bool" where
  "answer_ok r \<longleftrightarrow> (\<exists>ws ss. list_all drawable ws \<and> list_all drawable ss \<and> length (encode ws) < 100 \<and> length (encode ss) < 256 \<and>
     cstr (word r) = encode ws \<and> cstr (sentence r) = encode ss)"

text \<open>The timer's two variables at each of its statements; 255 is the second below 0.\<close>

fun timer_ok :: "timer_pc \<Rightarrow> byte \<Rightarrow> byte \<Rightarrow> bool" where
  "timer_ok TRequest m s = (s = 255 \<and> 1 \<le> unat m \<and> unat m \<le> 2)"
| "timer_ok TBorrow m s = (s = 255 \<and> 1 \<le> unat m \<and> unat m \<le> 2)"
| "timer_ok TEnd m s = (unat s \<le> 59 \<and> unat m < 2)"
| "timer_ok pc m s = clock_ok m s"

text \<open>What holds of the firmware at every statement: \<open>tv_inv\<close> without the clock.\<close>

definition tv_base :: "tv_state \<Rightarrow> bool" where
  "tv_base st \<longleftrightarrow> lcd_ok st \<and> s_touch_callback_f st = Some TASK_TOUCH_CALLBACK \<and> bitmaps_ok (tv_bitmaps st) \<and>
     req_inv (tv_req st) \<and> audio_ready (tv_audio st) \<and> screen_inv (s_wordData st) \<and> (\<forall>n. polite (tv_net st n))"

lemma tv_inv_base: "tv_inv st \<longleftrightarrow> tv_base st \<and> clock_ok (timer_min st) (timer_sec st)"
  by (auto simp: tv_inv_def tv_base_def)

definition fine_inv :: "fine_state \<Rightarrow> bool" where
  "fine_inv f \<longleftrightarrow> tv_base (fw f) \<and> timer_ok (timer_at f) (timer_min (fw f)) (timer_sec (fw f)) \<and>
     (main_at f \<in> {MClear, MWord, MWordFlag, MSentence} \<longrightarrow> answer_ok (tv_req (fw f)))"

lemma fine_inv_start: "tv_inv st \<Longrightarrow> fine_inv (at_start st)"
  by (simp add: fine_inv_def at_start_def tv_inv_base)

lemma tv_base_upd:
  assumes "tv_base st"
  shows "audio_ready a \<Longrightarrow> tv_base (st\<lparr>tv_audio := a\<rparr>)"
    and "tv_base (st\<lparr>s_timerTick := n\<rparr>)" "tv_base (st\<lparr>s_isWordRequest := b\<rparr>)" "tv_base (st\<lparr>s_isStartTimer := b\<rparr>)"
    and "tv_base (st\<lparr>light_sleeps := k\<rparr>)" "tv_base (st\<lparr>timer_min := m\<rparr>)" "tv_base (st\<lparr>timer_sec := s\<rparr>)"
    and "tv_base (st\<lparr>isTouchOccurred := b\<rparr>)" "screen_inv sd \<Longrightarrow> tv_base (st\<lparr>s_wordData := sd\<rparr>)"
    and "req_inv r \<Longrightarrow> tv_base (st\<lparr>tv_req := r\<rparr>)" "tv_base (st\<lparr>requests := k\<rparr>)"
    and "tv_base (st\<lparr>dev := io_emit e (dev st)\<rparr>)"
  using assms by (simp_all add: tv_base_def lcd_ok_def ili_ready_def)

subsection \<open>Each statement keeps it\<close>

text \<open>The calls that a statement makes, on the weaker invariant.\<close>

lemma draw_base_ok:
  assumes "tv_base st" "text_buf n buf" "n \<le> 256" "x \<le> 1000" "y \<le> 1000"
  shows "\<exists>st'. draw_string buf (of_nat x) (of_nat y) st = Inr st' \<and> tv_base st' \<and> timer_min st' = timer_min st \<and>
    timer_sec st' = timer_sec st \<and> tv_req st' = tv_req st"
proof -
  obtain cs rest where b: "list_all drawable cs" "buf = encode cs @ 0 # rest" "length buf = n"
    using assms(2) by (auto simp: text_buf_def)
  hence "length (encode cs @ 0 # rest) \<le> 256" using assms(3) by simp
  with draw_text_buf [of st cs rest x y] assms(1,4,5) b(1) obtain w' r where
    "draw_string (encode cs @ 0 # rest) (of_nat x) (of_nat y) st = Inr (st\<lparr>dev := w', refresh_finish := r\<rparr>)"
    "lcd_ok (st\<lparr>dev := w', refresh_finish := r\<rparr>)"
    by (auto simp: tv_base_def)
  thus ?thesis using b(2) assms(1) by (auto simp: tv_base_def)
qed

lemma screen_inv_flags:
  "screen_inv sd \<Longrightarrow> screen_inv (sd\<lparr>isNewWord := b\<rparr>)" "screen_inv sd \<Longrightarrow> screen_inv (sd\<lparr>isNewSentence := b\<rparr>)"
  "screen_inv sd \<Longrightarrow> screen_inv (sd\<lparr>isNewTime := b\<rparr>)"
  "screen_inv sd \<Longrightarrow> text_buf 100 t \<Longrightarrow> screen_inv (sd\<lparr>sd_word := t\<rparr>)"
  "screen_inv sd \<Longrightarrow> text_buf 256 t \<Longrightarrow> screen_inv (sd\<lparr>sd_sentence := t\<rparr>)"
  "screen_inv sd \<Longrightarrow> text_buf 20 t \<Longrightarrow> screen_inv (sd\<lparr>sd_time := t\<rparr>)"
  by (simp_all add: screen_inv_def)

lemma screen_pos:
  assumes "tv_base st"
  shows "word_x (s_wordData st) = of_nat 10" "word_y (s_wordData st) = of_nat 10"
    "sentence_x (s_wordData st) = of_nat 10" "sentence_y (s_wordData st) = of_nat 60"
    "time_x (s_wordData st) = of_nat 150" "time_y (s_wordData st) = of_nat 200"
    "text_buf 100 (sd_word (s_wordData st))" "text_buf 256 (sd_sentence (s_wordData st))" "text_buf 20 (sd_time (s_wordData st))"
    "screen_inv (s_wordData st)"
  using assms by (simp_all add: tv_base_def screen_inv_def)

lemma lcd_stmt_ok:
  assumes "fine_inv f"
  shows "\<exists>f'. lcd_stmt f = Inr f' \<and> fine_inv f'"
proof -
  let ?st = "fw f"
  have base: "tv_base ?st" and ok: "lcd_ok ?st" using assms by (simp_all add: fine_inv_def tv_base_def)
  note U = tv_base_upd [OF base] screen_inv_flags [OF screen_pos(10) [OF base]]
  have cb: "s_touch_callback_f ?st = Some TASK_TOUCH_CALLBACK" using base by (simp add: tv_base_def)
  note D = draw_base_ok [OF base, of 100 _ 10 10, OF screen_pos(7) [OF base]]
    draw_base_ok [OF base, of 256 _ 10 60, OF screen_pos(8) [OF base]]
    draw_base_ok [OF base, of 20 _ 150 200, OF screen_pos(9) [OF base]]
  show ?thesis
  proof (cases "lcd_at f")
    case LDrawWord
    thus ?thesis using assms D(1) by (auto simp: lcd_stmt_def goto_lcd_def Let_def screen_pos(1,2) [OF base] fine_inv_def simp del: of_nat_numeral)
  next
    case LDrawSentence
    thus ?thesis using assms D(2) by (auto simp: lcd_stmt_def goto_lcd_def Let_def screen_pos(3,4) [OF base] fine_inv_def simp del: of_nat_numeral)
  next
    case LDrawTime
    thus ?thesis using assms D(3) by (auto simp: lcd_stmt_def goto_lcd_def Let_def screen_pos(5,6) [OF base] fine_inv_def simp del: of_nat_numeral)
  next
    case LTurnOn
    have "tv_base (?st\<lparr>dev := io_emit (GpioSetLevel (int LT_PIN_NUM_BK_LIGHT) LT_LCD_BK_LIGHT_ON_LEVEL)
        (io_emit (TxParam LCD_CMD_DISPON []) (dev ?st))\<rparr>)"
      using base by (simp add: tv_base_def lcd_ok_def ili_ready_def)
    thus ?thesis using assms LTurnOn turn_ok(1) [OF ok] by (simp add: stmt_defs fine_inv_def)
  qed (use assms U cb in \<open>auto simp: lcd_stmt_def goto_lcd_def Let_def fine_inv_def\<close>)
qed

lemma second_ok:
  assumes "clock_ok m s"
  shows "timer_ok (if s - 1 > 60 then TRequest else TEnd) m (s - 1)"
proof (cases "s = 0")
  case True
  thus ?thesis using assms by (auto simp: clock_ok_def unat_eq_0 Suc_le_eq unat_gt_0)
next
  case False
  hence "unat (s - 1) = unat s - 1" "0 < unat s" by (simp_all add: byte_pred unat_gt_0)
  thus ?thesis using assms False by (auto simp: clock_ok_def word_less_nat_alt)
qed

lemma borrow_ok:
  assumes "1 \<le> unat m" "unat m \<le> 2"
  shows "\<not> m - 1 > (60 :: byte)" "timer_ok TEnd (m - 1) 59"
proof -
  have "m \<noteq> 0" using assms(1) by auto
  thus "\<not> m - 1 > (60 :: byte)" "timer_ok TEnd (m - 1) 59"
    using assms by (simp_all add: byte_pred word_less_nat_alt)
qed

lemma end_ok:
  assumes "timer_ok TEnd m s" "\<not> (s = 0 \<and> m = 0)"
  shows "clock_ok m s"
  using assms by (auto simp: clock_ok_def)

lemma timer_stmt_ok:
  assumes "fine_inv f"
  shows "\<exists>f'. timer_stmt f = Inr f' \<and> fine_inv f'"
proof -
  let ?st = "fw f" and ?m = "timer_min (fw f)" and ?s = "timer_sec (fw f)"
  have base: "tv_base ?st" and ok: "lcd_ok ?st" and au: "audio_ready (tv_audio ?st)"
    using assms by (simp_all add: fine_inv_def tv_base_def)
  have tm: "timer_ok (timer_at f) ?m ?s" using assms by (simp add: fine_inv_def)
  note U = tv_base_upd [OF base] screen_inv_flags [OF screen_pos(10) [OF base]]
  have len: "length (sd_time (s_wordData ?st)) = 20" using screen_pos(9) [OF base] by (simp add: text_buf_def)
  show ?thesis
  proof (cases "timer_at f")
    case TPrint
    then obtain t where "c_sprintf (sd_time (s_wordData ?st)) (time_text ?m ?s) = Inr t" "text_buf 20 t"
      using print_time_ok [OF _ len, of ?m ?s] tm by auto
    thus ?thesis using TPrint assms U by (auto simp: stmt_defs fine_inv_def)
  next
    case TSecond
    thus ?thesis using assms U second_ok [of ?m ?s] by (auto simp: timer_stmt_def goto_timer_def Let_def fine_inv_def simp del: timer_ok.simps(3))
  next
    case TBorrow
    have "tv_base (?st\<lparr>timer_sec := 59, timer_min := ?m - 1\<rparr>)" using base by (simp add: tv_base_def lcd_ok_def)
    thus ?thesis using TBorrow assms tm borrow_ok [of ?m] by (simp add: stmt_defs fine_inv_def)
  next
    case TEnd
    have reset: "tv_base (?st\<lparr>s_isStartTimer := False, timer_min := TV_TASK_TIME_MIN, timer_sec := TV_TASK_TIME_SEC\<rparr>)"
      using base by (simp add: tv_base_def lcd_ok_def)
    have "clock_ok TV_TASK_TIME_MIN TV_TASK_TIME_SEC" by (simp add: clock_ok_def tv_time_defs)
    moreover have "\<not> (?s = 0 \<and> ?m = 0) \<Longrightarrow> clock_ok ?m ?s" using end_ok [of ?m ?s] tm TEnd by simp
    ultimately show ?thesis using TEnd assms reset by (auto simp: timer_stmt_def goto_timer_def Let_def fine_inv_def)
  next
    case TTurnOff
    have "tv_base (?st\<lparr>dev := io_emit (GpioSetLevel (int LT_PIN_NUM_BK_LIGHT) LT_LCD_BK_LIGHT_OFF_LEVEL)
        (io_emit (TxParam LCD_CMD_DISPOFF []) (dev ?st))\<rparr>)"
      using base by (simp add: tv_base_def lcd_ok_def ili_ready_def)
    thus ?thesis using assms TTurnOff turn_ok(2) [OF ok] by (simp add: stmt_defs fine_inv_def)
  next
    case TPlay
    have "tv_base (?st\<lparr>tv_audio := (tv_audio ?st)\<lparr>au_log := au_log (tv_audio ?st) @ restart_calls\<rparr>\<rparr>)"
      using U(1) au by (simp add: audio_ready_log)
    thus ?thesis using assms TPlay on_audio_run [OF au] by (simp add: stmt_defs fine_inv_def)
  qed (use assms U in \<open>auto simp: timer_stmt_def goto_timer_def Let_def fine_inv_def esp_light_sleep_start_def\<close>)
qed

text \<open>The request, whatever it answers.\<close>

lemma request_ok:
  assumes "polite env" "req_inv r0"
  shows "\<exists>ok r. ReqWord_Requset env r0 = Inr (ok, r) \<and> req_inv r \<and> (ok \<longrightarrow> answer_ok r)"
proof (cases "connects env")
  case False
  thus ?thesis using Requset_ok [OF _ assms(2), of env] assms(1) by (auto simp: polite_def)
next
  case True
  then obtain ws ss where P: "polite_answer env ws ss" using assms(1) by (auto simp: polite_def)
  obtain r where r: "ReqWord_Requset env r0 = Inr (True, r)" "cstr (word r) = encode ws" "cstr (sentence r) = encode ss"
    using polite_request [OF True assms(2) P] by blast
  moreover have "req_inv r" using Requset_ok [OF _ assms(2), of env] assms(1) r(1) by (auto simp: polite_def)
  ultimately show ?thesis using P by (auto simp: answer_ok_def polite_answer_def)
qed

lemma main_stmt_ok:
  assumes "fine_inv f"
  shows "\<exists>f'. main_stmt f = Inr f' \<and> fine_inv f'"
proof -
  let ?st = "fw f" and ?sd = "s_wordData (fw f)"
  have base: "tv_base ?st" and au: "audio_ready (tv_audio ?st)" and ri: "req_inv (tv_req ?st)" and ok: "lcd_ok ?st"
    and pol: "\<And>n. polite (tv_net ?st n)"
    using assms by (simp_all add: fine_inv_def tv_base_def)
  note U = tv_base_upd [OF base] screen_inv_flags [OF screen_pos(10) [OF base]]
  have len: "length (sd_word ?sd) = 100" "length (sd_sentence ?sd) = 256"
    using screen_pos(7,8) [OF base] by (simp_all add: text_buf_def)
  show ?thesis
  proof (cases "main_at f")
    case MRequest
    obtain ok r where "ReqWord_Requset (tv_net ?st (requests ?st)) (tv_req ?st) = Inr (ok, r)" "req_inv r" "ok \<longrightarrow> answer_ok r"
      using request_ok [OF pol ri] by blast
    moreover from this(2) have "tv_base (?st\<lparr>tv_req := r, requests := Suc (requests ?st)\<rparr>)"
      using base by (simp add: tv_base_def lcd_ok_def)
    ultimately show ?thesis using MRequest assms by (auto simp: stmt_defs fine_inv_def)
  next
    case MClear
    obtain w' where "LcdTouch_ResetBackground ?st = Inr (?st\<lparr>dev := w', refresh_finish := SemDeleted\<rparr>)"
      "lcd_ok (?st\<lparr>dev := w', refresh_finish := SemDeleted\<rparr>)" using reset_background_ok [OF ok] by blast
    moreover from this(2) have "tv_base (?st\<lparr>dev := w', refresh_finish := SemDeleted\<rparr>)" using base by (simp add: tv_base_def)
    ultimately show ?thesis using MClear assms by (simp add: stmt_defs fine_inv_def)
  next
    case MWord
    then obtain ws where ws: "list_all drawable ws" "length (encode ws) < 100" "cstr (word (tv_req ?st)) = encode ws"
      using assms by (auto simp: fine_inv_def answer_ok_def)
    with copy_texts_ok(1) [OF ri ws(3,1,2) len(1)] show ?thesis using MWord assms U by (auto simp: stmt_defs fine_inv_def)
  next
    case MSentence
    then obtain ss where ss: "list_all drawable ss" "length (encode ss) < 256" "cstr (sentence (tv_req ?st)) = encode ss"
      using assms by (auto simp: fine_inv_def answer_ok_def)
    with copy_texts_ok(2) [OF ri ss(3,1,2) len(2)] show ?thesis using MSentence assms U by (auto simp: stmt_defs fine_inv_def)
  next
    case MPlay
    have "tv_base (?st\<lparr>tv_audio := (tv_audio ?st)\<lparr>au_log := au_log (tv_audio ?st) @ restart_calls\<rparr>\<rparr>)"
      using U(1) au by (simp add: audio_ready_log)
    thus ?thesis using assms MPlay on_audio_run [OF au] by (simp add: stmt_defs fine_inv_def)
  qed (use assms U in \<open>auto simp: main_stmt_def goto_main_def Let_def fine_inv_def\<close>)
qed

lemma audio_stmt_ok:
  assumes "fine_inv f"
  shows "\<exists>f'. audio_stmt f = Inr f' \<and> fine_inv f'"
proof (cases "au_events (tv_audio (fw f)) (length (au_log (tv_audio (fw f))))")
  case None
  thus ?thesis using assms by (simp add: audio_stmt_def)
next
  case (Some ev)
  have base: "tv_base (fw f)" and au: "audio_ready (tv_audio (fw f))" using assms by (simp_all add: fine_inv_def tv_base_def)
  obtain l where "AudioStream_Task (tv_audio (fw f)) = Inr ((tv_audio (fw f))\<lparr>au_log := au_log (tv_audio (fw f)) @ l\<rparr>)"
    using Task_event_ready [OF au Some] by blast
  moreover have "tv_base ((fw f)\<lparr>tv_audio := (tv_audio (fw f))\<lparr>au_log := au_log (tv_audio (fw f)) @ l\<rparr>\<rparr>)"
    using tv_base_upd(1) [OF base] au by (simp add: audio_ready_log)
  ultimately show ?thesis
    using assms Some by (simp add: audio_stmt_def Task_AudioStream_Wrapper_def on_audio_def fine_inv_def Let_def)
qed

lemma fine_step_ok:
  assumes "fine_inv f"
  shows "\<exists>f'. fine_step e f = Inr f' \<and> fine_inv f'"
proof (cases e)
  case (Stmt t)
  thus ?thesis
    using assms lcd_stmt_ok timer_stmt_ok main_stmt_ok audio_stmt_ok by (cases t) auto
next
  case Touch
  thus ?thesis using assms tv_base_upd(8) by (simp add: fine_inv_def LcdTouch_TouchISR_def)
qed

interpretation fine: total_ops fine_step fine_inv
  by unfold_locales (rule fine_step_ok)

text \<open>The boot brings the firmware to the top of the loops.\<close>

lemma boot_fine:
  assumes "power_on (firmware b)" "hardware_ok (firmware b)" "sys_starts b"
  shows "\<exists>b'. app_main p t b = Inr b' \<and> fine_inv (at_start (firmware b'))"
proof -
  obtain st' where "bindR (LcdTouch_Init p t (init_board_gpio (firmware b)))
      (\<lambda>st. bindR (on_audio AudioStream_Init st) (\<lambda>st. Inr (Task_Init st))) = Inr st'" "tv_inv st'"
    using boot_ok [OF assms(1,2), of p t] by blast
  thus ?thesis using assms(3) fine_inv_start [of st'] by (auto simp: app_main_def app_init_sys)
qed

subsection \<open>Properties\<close>

text \<open>
  The statements are the iterations. Run alone from the top of its loop, each task comes back there
  after some number of its statements, with exactly the effect, or the fault, of its iteration, the
  audio task when an event has come.
\<close>

lemma statements_are_iterations:
  assumes "main_at f = MTest" "lcd_at f = LTouch" "timer_at f = TTick"
    and "t = AudioStreamTask \<longrightarrow> au_events (tv_audio (fw f)) (length (au_log (tv_audio (fw f)))) \<noteq> None"
  shows "\<exists>n. run_ops task_stmt (replicate n t) f = bindR (task_body t (fw f)) (\<lambda>st. Inr (f\<lparr>fw := st\<rparr>))"
  using main_runs [OF assms(1)] lcd_runs [OF assms(2)] timer_runs [OF assms(3)] audio_runs [of f] assms(4)
  by (cases t) (simp_all add: runs_as_def)

text \<open>
  C3. The flags of the tasks do no harm. A statement of a task is here one step: an assignment to a shared
  variable, or a whole call of a module or copy of a text, so that such calls and copies exclude each other.
  The code does not make them do so, and drawings that overlap fail, as do texts read while they are copied;
  what this property is about is everything between the calls. Booted on hardware that works, with a server
  that answers politely or not at all, the firmware survives any interleaving of such steps of its four tasks
  and of touch interrupts, whatever they find the flags and the clock changed to: every one returns, and after
  each the display is usable, the buffers of the screen hold drawable text, and the timer's variables are
  those of a clock between 0:00 and 2:00.
\<close>

theorem firmware_runs_call_by_call:
  assumes "power_on (firmware b)" "hardware_ok (firmware b)" "sys_starts b"
  shows "\<exists>b'. app_main p t b = Inr b' \<and>
    (\<forall>evs. \<exists>f. run_ops fine_step evs (at_start (firmware b')) = Inr f \<and> lcd_ok (fw f) \<and> screen_inv (s_wordData (fw f)) \<and>
       timer_ok (timer_at f) (timer_min (fw f)) (timer_sec (fw f)))"
  using boot_fine [OF assms, of p t] fine.run_total by (fastforce simp: fine_inv_def tv_base_def)

theorem firmware_runs_call_by_call_witness:
  "\<exists>b' f. app_main 64 200 boot_start = Inr b' \<and> lcd_ok (fw f) \<and>
    run_ops fine_step [Touch, Stmt LcdTouchTask, Stmt TimerTask, Stmt MainTask, Stmt LcdTouchTask, Touch, Stmt TimerTask]
      (at_start (firmware b')) = Inr f"
  using firmware_runs_call_by_call [OF boot_start_ok, of 64 200] by blast

end
