(* ===== verification/Bus_Types.thy ===== *)
theory Bus_Types
  imports Lcd_Keeps Tv_Statements
begin

text \<open>
  A type system for the traffic to the display controller: which commands may follow which, and with how
  many parameters. Whatever the hardware answers, and as long as drawings do not overlap in time, the firmware
  sends only well-typed traffic.
\<close>

subsection \<open>The type of a command sequence\<close>

text \<open>The parameters a command of the controller takes; the manufacturer's commands take any number.\<close>

definition params_ok :: "byte \<Rightarrow> byte list \<Rightarrow> bool" where
  "params_ok cmd bs =
     (if cmd \<in> {LCD_CMD_SWRESET, LCD_CMD_SLPOUT, LCD_CMD_INVOFF, LCD_CMD_INVON, LCD_CMD_DISPOFF, LCD_CMD_DISPON} then bs = []
      else if cmd \<in> {LCD_CMD_CASET, LCD_CMD_RASET} then length bs = 4
      else if cmd \<in> {LCD_CMD_MADCTL, LCD_CMD_COLMOD} then length bs = 1
      else cmd \<noteq> LCD_CMD_RAMWR)"

text \<open>
  A phase: whether the controller is out of sleep mode, and how much of an address window has been set
  (1: columns, 2: columns and rows). Resetting puts the controller to sleep; columns come before rows,
  rows before pixels, and windows, pixels and switching on need a controller that is awake.
\<close>

type_synonym bus_phase = "bool \<times> nat"

definition param_phase :: "byte \<Rightarrow> byte list \<Rightarrow> bus_phase \<Rightarrow> bus_phase option" where
  "param_phase cmd bs ph =
     (let (awake, k) = ph in
      if \<not> params_ok cmd bs then None
      else if cmd = LCD_CMD_SWRESET then Some (False, 0)
      else if cmd = LCD_CMD_SLPOUT then Some (True, 0)
      else if cmd = LCD_CMD_CASET then (if awake then Some (True, 1) else None)
      else if cmd = LCD_CMD_RASET then (if awake \<and> k = 1 then Some (True, 2) else None)
      else if cmd = LCD_CMD_DISPON then (if awake then Some (True, 0) else None)
      else Some (awake, 0))"

fun bus_step :: "io_ev \<Rightarrow> bus_phase \<Rightarrow> bus_phase option" where
  "bus_step (TxParam cmd bs) ph = param_phase cmd bs ph"
| "bus_step (TxColor cmd bs) ph = (if cmd = LCD_CMD_RAMWR \<and> ph = (True, 2) \<and> even (length bs) then Some (True, 0) else None)"
| "bus_step (GpioSetLevel pin level) ph = Some (if pin = LT_PIN_NUM_LCD_RST then (False, 0) else ph)"
| "bus_step e ph = Some ph"

primrec bus_run :: "io_ev list \<Rightarrow> bus_phase \<Rightarrow> bus_phase option" where
  "bus_run [] ph = Some ph"
| "bus_run (e # es) ph = Option.bind (bus_step e ph) (bus_run es)"

definition bus_typed :: "io_ev list \<Rightarrow> bool" where
  "bus_typed es \<longleftrightarrow> bus_run es (False, 0) \<noteq> None"

definition phase :: "'a io_world_scheme \<Rightarrow> bus_phase option" where
  "phase w = bus_run (io_log w) (False, 0)"

lemma bus_run_append: "bus_run (es @ es') ph = Option.bind (bus_run es ph) (bus_run es')"
proof (induction es arbitrary: ph)
  case (Cons e es)
  thus ?case by (cases "bus_step e ph") simp_all
qed simp

lemma phase_emit [simp]: "phase (io_emit e w) = Option.bind (phase w) (bus_step e)"
  by (cases "phase w"; cases "bus_step e (the (phase w))") (simp_all add: phase_def bus_run_append)

lemma phase_upd [simp]: "phase (w\<lparr>irq_pending := b\<rparr>) = phase w" "phase (w'\<lparr>dev_panel := p\<rparr>) = phase w'"
  by (simp_all add: phase_def)

lemma typed_phase: "phase w = Some ph \<Longrightarrow> bus_typed (io_log w)"
  by (simp add: phase_def bus_typed_def)

lemmas bus_defs = param_phase_def params_ok_def lcd_cmd_defs

subsection \<open>The driver\<close>

definition bus_inv :: "'a ili_dev_scheme \<Rightarrow> bool" where
  "bus_inv w \<longleftrightarrow> (\<exists>k. phase w = Some (True, k)) \<and> pred_option (\<lambda>p. fb_bits_per_pixel p = 16) (dev_panel w)"

lemma own_event_quiet: "own_event e \<Longrightarrow> bus_step e ph = Some ph"
  by (cases e) (auto simp: LT_PIN_NUM_LCD_RST_def LT_PIN_NUM_BK_LIGHT_def)

lemma draw_bus:
  assumes "panel_ili9341_draw_bitmap xs ys xe ye cd w = Inr (e, w')" "bus_inv w"
  shows "bus_inv w'"
proof -
  obtain k p where w: "phase w = Some (True, k)" "dev_panel w = Some p" "fb_bits_per_pixel p = 16"
    using assms by (cases "dev_panel w") (auto simp: bus_inv_def panel_ili9341_draw_bitmap_def on_panel_def)
  have even: "even (nat (a * int 16 div 8))" for a
  proof -
    have "nat (a * int 16 div 8) = 2 * nat a" by (simp add: nat_mult_distrib)
    thus ?thesis by simp
  qed
  show ?thesis
    using assms(1) w even
    by (auto simp: panel_ili9341_draw_bitmap_def on_panel_def tx_param_def tx_color_def return_on_error_def Let_def
        bus_inv_def bus_defs bindR_eq_Inr_iff c_int_eq_Inr_iff min_absorb2 split: if_splits option.splits)
qed

lemma disp_bus:
  assumes "panel_ili9341_disp_on_off b w = Inr (e, w')" "bus_inv w"
  shows "bus_inv w'"
  using assms
  by (cases "dev_panel w") (auto simp: panel_ili9341_disp_on_off_def on_panel_def tx_param_def return_on_error_def bus_inv_def bus_defs split: if_splits)

interpretation bus: panel_keeps "\<lambda>p. p = ili9341_base" bus_inv
proof
  show "bus_inv (io_emit ev w)" if "bus_inv w" "own_event ev" for ev and w :: "'a ili_dev_scheme"
    using that own_event_quiet by (auto simp: bus_inv_def)
  show "bus_inv (w\<lparr>irq_pending := q\<rparr>)" if "bus_inv w" for w :: "'a ili_dev_scheme" and q
    using that by (simp add: bus_inv_def)
qed (auto simp: ili9341_base_def dest: draw_bus disp_bus)

subsection \<open>Initialisation\<close>

text \<open>A manufacturer's command leaves the phase at the start of a window.\<close>

definition vendor_cmd :: "lcd_init_cmd \<Rightarrow> bool" where
  "vendor_cmd c \<longleftrightarrow> ic_cmd c \<notin> {LCD_CMD_SWRESET, LCD_CMD_SLPOUT, LCD_CMD_INVOFF, LCD_CMD_INVON, LCD_CMD_DISPOFF, LCD_CMD_DISPON,
     LCD_CMD_CASET, LCD_CMD_RASET, LCD_CMD_RAMWR, LCD_CMD_MADCTL, LCD_CMD_COLMOD}"

lemma default_table_vendor: "list_all vendor_cmd vendor_specific_init_default"
  by (simp add: vendor_specific_init_default_def init_cmd_def vendor_cmd_def lcd_cmd_defs)

lemma vendor_phase: "vendor_cmd c \<Longrightarrow> param_phase (ic_cmd c) bs (a, k) = Some (a, 0)"
  by (auto simp: vendor_cmd_def param_phase_def params_ok_def)

lemma init_cmds_bus:
  assumes "send_init_cmds cs p w = Inr (e, w')" "list_all vendor_cmd cs" "bus_inv w" "dev_panel w = Some p"
  shows "bus_inv w' \<and> dev_panel w' = Some p"
  using assms
proof (induction cs p w rule: send_init_cmds.induct)
  case (2 c cs p w)
  have vc: "vendor_cmd c" using 2(3) by simp
  hence plain: "ic_cmd c \<noteq> LCD_CMD_MADCTL" "ic_cmd c \<noteq> LCD_CMD_COLMOD" by (auto simp: vendor_cmd_def)
  obtain k where k: "phase w = Some (True, k)" "fb_bits_per_pixel p = 16" using 2(4,5) by (auto simp: bus_inv_def)
  have keep: "w\<lparr>dev_panel := Some p\<rparr> = w" using 2(5) by (cases w) simp
  obtain e1 w1 where w1: "send_init_cmd c p w = Inr (e1, p, w1)" "bus_inv w1" "dev_panel w1 = Some p"
    using 2(2) k vendor_phase [OF vc] 2(5)
    by (auto simp: send_init_cmd_def plain tx_param_def Let_def keep bus_inv_def split: if_splits)
  show ?case
    using 2(1) [OF w1(1) refl refl _ _ _ w1(2,3)] 2(2,3) w1
    by (cases "e1 = ESP_OK") auto
qed simp

lemma check_dev_iff: "check_dev op st = Inr st' \<longleftrightarrow> (\<exists>w. op (dev st) = Inr (ESP_OK, w) \<and> st' = st\<lparr>dev := w\<rparr>)"
  by (auto simp: check_dev_def bindR_eq_Inr_iff ESP_ERROR_CHECK_def split: if_splits)

lemma new_panel_bus:
  assumes "esp_lcd_new_panel_ili9341 True (Some panel_config) True n w = (ESP_OK, w')" "phase w = Some ph"
  shows "phase w' = Some ph \<and> dev_panel w' = Some tv_panel"
  using assms
  by (auto simp: esp_lcd_new_panel_ili9341_def panel_config_def heap_calloc_def gpio_config_def new_panel_err_def Let_def
      tv_panel_def LT_PIN_NUM_LCD_RST_def split: if_splits)

lemma reset_bus:
  assumes "panel_ili9341_reset w = Inr (e, w')" "phase w = Some ph" "dev_panel w = Some tv_panel"
  shows "phase w' = Some (False, 0) \<and> dev_panel w' = Some tv_panel"
  using assms by (auto simp: panel_ili9341_reset_def on_panel_def tv_panel_def Let_def LT_PIN_NUM_LCD_RST_def)

lemma init_bus:
  assumes "panel_ili9341_init w = Inr (ESP_OK, w')" "phase w = Some ph" "dev_panel w = Some tv_panel"
  shows "bus_inv w'"
proof -
  define w1 where "w1 = io_emit (TxParam LCD_CMD_COLMOD [colmod_val tv_panel]) (io_emit (TxParam LCD_CMD_MADCTL [madctl_val tv_panel])
    (io_emit (Delay 100) (io_emit (TxParam LCD_CMD_SLPOUT []) w)))"
  have run: "send_init_cmds vendor_specific_init_default tv_panel w1 = Inr (ESP_OK, w')"
    using assms(1,3)
    by (auto simp: panel_ili9341_init_def on_panel_def tx_param_def return_on_error_def Let_def w1_def tv_panel_def split: if_splits)
  have "bus_inv w1" "dev_panel w1 = Some tv_panel"
    using assms(2,3) by (cases ph; simp add: w1_def bus_inv_def bus_defs tv_panel_def)+
  thus ?thesis using init_cmds_bus [OF run default_table_vendor] by simp
qed

lemma mirror_bus:
  assumes "panel_ili9341_mirror mx my w = Inr (e, w')" "bus_inv w"
  shows "bus_inv w'"
  using assms
  by (cases "dev_panel w") (auto simp: panel_ili9341_mirror_def on_panel_def tx_param_def return_on_error_def Let_def bus_inv_def
      bus_defs split: if_splits)

abbreviation bus_ok :: "('e, 'a) lcd \<Rightarrow> bool" where
  "bus_ok \<equiv> dev_inv (\<lambda>p. p = ili9341_base) bus_inv"

lemma base_simps:
  "pn_reset ili9341_base = panel_ili9341_reset" "pn_init ili9341_base = panel_ili9341_init"
  "pn_mirror ili9341_base = panel_ili9341_mirror" "pn_disp_on_off ili9341_base = panel_ili9341_disp_on_off"
  by (simp_all add: ili9341_base_def)

lemma light_handle [simp]: "s_panelHandle (gpio_set_level p b st) = s_panelHandle st"
  by (simp add: gpio_set_level_def)

lemma init_display_bus:
  assumes "LcdTouch_InitDisplay n st = Inr st'" "phase (dev st) = Some ph"
  shows "bus_ok st'"
proof -
  let ?w0 = "io_emit (NewPanelIo LT_LCD_HOST) (io_emit (SpiBusInit LT_LCD_HOST) (io_emit (GpioConfig (push_bit LT_PIN_NUM_BK_LIGHT 1)) (dev st)))"
  obtain w1 w2 w3 w4 w5 st6 where run: "esp_lcd_new_panel_ili9341 True (Some panel_config) True n ?w0 = (ESP_OK, w1)"
    "panel_ili9341_reset w1 = Inr (ESP_OK, w2)" "panel_ili9341_init w2 = Inr (ESP_OK, w3)"
    "panel_ili9341_mirror True False w3 = Inr (ESP_OK, w4)" "panel_ili9341_disp_on_off False w4 = Inr (ESP_OK, w5)"
    "LcdToudh_FillBackground (Some ili9341_base) LT_BACKGROUND_COLOR
       (gpio_set_level (int LT_PIN_NUM_BK_LIGHT) LT_LCD_BK_LIGHT_OFF_LEVEL (st\<lparr>s_panelHandle := Some ili9341_base, dev := w5\<rparr>)) = Inr st6"
    "st' = st6\<lparr>isInitDisplay := True\<rparr>"
    using assms(1)
    by (auto simp: LcdTouch_InitDisplay_def bindR_eq_Inr_iff check_dev_iff new_panel_checked_def Let_def ESP_ERROR_CHECK_def
        gpio_config_def spi_bus_initialize_def new_panel_io_spi_def base_simps split: if_splits prod.splits)
  have "phase ?w0 = Some ph" using assms(2) by simp
  from new_panel_bus [OF run(1) this] have w1: "phase w1 = Some ph" "dev_panel w1 = Some tv_panel" by auto
  from reset_bus [OF run(2) w1] have w2: "phase w2 = Some (False, 0)" "dev_panel w2 = Some tv_panel" by auto
  have "bus_inv w5" by (rule disp_bus [OF run(5) mirror_bus [OF run(4) init_bus [OF run(3) w2]]])
  hence "bus_ok (gpio_set_level (int LT_PIN_NUM_BK_LIGHT) LT_LCD_BK_LIGHT_OFF_LEVEL (st\<lparr>s_panelHandle := Some ili9341_base, dev := w5\<rparr>))"
    by (intro bus.light_keeps) (simp add: dev_inv_def)
  from bus.fill_keeps [OF run(6) this] show ?thesis by (simp add: run(7) dev_inv_def)
qed

text \<open>The touch panel: nothing it does concerns the display.\<close>

fun quiet_event :: "io_ev \<Rightarrow> bool" where
  "quiet_event (TxParam cmd bs) = False"
| "quiet_event (TxColor cmd bs) = False"
| "quiet_event (GpioSetLevel pin level) = (pin \<noteq> LT_PIN_NUM_LCD_RST)"
| "quiet_event _ = True"

lemma quiet_phase: "quiet_event e \<Longrightarrow> bus_step e ph = Some ph"
  by (cases e) simp_all

lemma quiet_bus: "quiet_event e \<Longrightarrow> bus_inv (io_emit e w) = bus_inv w"
  using quiet_phase by (cases "phase w") (simp_all add: bus_inv_def)

lemma init_touch_bus:
  assumes "LcdTouch_InitTouchPanel n st = Inr (tp, st')" "bus_ok st"
  shows "bus_ok st'"
  using assms
  by (auto simp: LcdTouch_InitTouchPanel_def bindR_eq_Inr_iff check_dev_iff spi_bus_initialize_def new_panel_io_spi_def heap_calloc_def
      gpio_config_def esp_lcd_touch_register_interrupt_callback_def touch_object_def gpio_isr_def tp_cfg_def Let_def
      ESP_ERROR_CHECK_def dev_inv_def quiet_bus split: if_splits)

lemma boot_bus:
  assumes "app_main p t b = Inr b'" "phase (dev (firmware b)) = Some ph"
  shows "bus_ok (firmware b')"
proof -
  let ?st = "init_board_gpio (firmware b)"
  obtain st1 a where run: "LcdTouch_Init p t ?st = Inr st1" "firmware b' = Task_Init (st1\<lparr>tv_audio := a\<rparr>)"
    using assms(1)
    by (cases b, cases b') (auto simp: app_main_def app_init_sys bindR_eq_Inr_iff on_audio_def split: if_splits)
  obtain st2 tp where init: "LcdTouch_InitDisplay p ?st = Inr st2" "LcdTouch_InitTouchPanel t st2 = Inr (tp, st1)"
    using run(1) by (auto simp: LcdTouch_Init_def bindR_eq_Inr_iff)
  have "phase (dev ?st) = Some ph"
    using assms(2) by (simp add: init_board_gpio_def gpio_config_def gpio_set_level_def GPIO_NUM_14_def LT_PIN_NUM_LCD_RST_def)
  from init_touch_bus [OF init(2) init_display_bus [OF init(1) this]] show ?thesis
    by (simp add: run(2) Task_Init_def LcdTouch_SetTouchCallback_def esp_light_sleep_start_def dev_inv_def Let_def)
qed

subsection \<open>The tasks\<close>

lemma bus_ok_tv [simp]:
  "bus_ok (st\<lparr>tv_req := a\<rparr>) = bus_ok st" "bus_ok (st\<lparr>tv_audio := b\<rparr>) = bus_ok st" "bus_ok (st\<lparr>s_isWordRequest := c\<rparr>) = bus_ok st"
  "bus_ok (st\<lparr>s_isStartTimer := d\<rparr>) = bus_ok st" "bus_ok (st\<lparr>s_timerTick := e\<rparr>) = bus_ok st" "bus_ok (st\<lparr>s_wordData := f\<rparr>) = bus_ok st"
  "bus_ok (st\<lparr>timer_min := g\<rparr>) = bus_ok st" "bus_ok (st\<lparr>timer_sec := h\<rparr>) = bus_ok st" "bus_ok (st\<lparr>light_sleeps := i\<rparr>) = bus_ok st"
  "bus_ok (st\<lparr>requests := j\<rparr>) = bus_ok st"
  by (simp_all add: dev_inv_def)

lemma audio_bus: "on_audio f st = Inr st' \<Longrightarrow> bus_ok st' = bus_ok st"
  by (auto simp: on_audio_def bindR_eq_Inr_iff)

lemma main_bus: "main_stmt f = Inr f' \<Longrightarrow> bus_ok (fw f) \<Longrightarrow> bus_ok (fw f')"
  by (cases "main_at f")
    (auto simp: main_stmt_def goto_main_def Let_def bindR_eq_Inr_iff audio_bus dest: bus.module_keeps)

lemma lcd_bus: "lcd_stmt f = Inr f' \<Longrightarrow> bus_ok (fw f) \<Longrightarrow> bus_ok (fw f')"
  by (cases "lcd_at f")
    (auto simp: lcd_stmt_def goto_lcd_def Let_def bindR_eq_Inr_iff dest: bus.module_keeps split: if_splits option.splits)

lemma timer_bus: "timer_stmt f = Inr f' \<Longrightarrow> bus_ok (fw f) \<Longrightarrow> bus_ok (fw f')"
  by (cases "timer_at f")
    (auto simp: timer_stmt_def goto_timer_def Let_def bindR_eq_Inr_iff audio_bus esp_light_sleep_start_def dest: bus.module_keeps split: if_splits)

lemma fine_bus: "fine_step e f = Inr f' \<Longrightarrow> bus_ok (fw f) \<Longrightarrow> bus_ok (fw f')"
proof (cases e)
  case (Stmt t)
  thus "fine_step e f = Inr f' \<Longrightarrow> bus_ok (fw f) \<Longrightarrow> bus_ok (fw f')"
    by (cases t) (auto simp: audio_stmt_def Let_def Task_AudioStream_Wrapper_def bindR_eq_Inr_iff audio_bus
        dest: main_bus lcd_bus timer_bus split: if_splits)
qed (auto simp: LcdTouch_TouchISR_def)

lemma fine_run_bus: "run_ops fine_step evs f = Inr f' \<Longrightarrow> bus_ok (fw f) \<Longrightarrow> bus_ok (fw f')"
  by (induction evs arbitrary: f) (auto simp: bindR_eq_Inr_iff dest: fine_bus)

subsection \<open>Properties\<close>

text \<open>
  C4. The firmware sends only well-typed traffic to the display controller, as long as no two drawings overlap
  in time: a statement of a task, with the call of a module in it, is one step, and these steps and touch
  interrupts are interleaved in any way. From the first command after power-on, whatever the bus, the heap,
  the network and the other hardware answer, in every run without a fault (and so in every run up to the step
  that faults): every command has the number of parameters it takes, no window is set and no pixel sent to a
  controller that has been reset and not woken up, and pixels, always a whole number of them, follow a window
  of which the columns and then the rows were set.
\<close>

theorem bus_traffic_typed:
  assumes "io_log (dev (firmware b)) = []" "app_main p t b = Inr b'"
    and "run_ops fine_step evs (at_start (firmware b')) = Inr f"
  shows "bus_typed (io_log (dev (fw f)))"
proof -
  have "phase (dev (firmware b)) = Some (False, 0)" using assms(1) by (simp add: phase_def)
  from fine_run_bus [OF assms(3)] boot_bus [OF assms(2) this] have "bus_ok (fw f)" by (simp add: at_start_def)
  thus ?thesis by (auto simp: dev_inv_def bus_inv_def dest: typed_phase)
qed

theorem bus_traffic_typed_witness:
  "\<exists>b' f. app_main 64 200 boot_start = Inr b' \<and>
    run_ops fine_step [Touch, Stmt LcdTouchTask, Stmt TimerTask, Stmt MainTask, Stmt LcdTouchTask, Stmt LcdTouchTask]
      (at_start (firmware b')) = Inr f \<and> bus_typed (io_log (dev (fw f)))"
proof -
  obtain b' where b': "app_main 64 200 boot_start = Inr b'" "fine_inv (at_start (firmware b'))"
    using boot_fine [OF boot_start_ok] by blast
  obtain f where f: "run_ops fine_step [Touch, Stmt LcdTouchTask, Stmt TimerTask, Stmt MainTask, Stmt LcdTouchTask, Stmt LcdTouchTask]
      (at_start (firmware b')) = Inr f"
    using fine.run_total [OF b'(2)] by blast
  have "io_log (dev (firmware boot_start)) = []"
    by (simp add: boot_start_def tv_off_def tv_up_def demo_dev_def)
  from bus_traffic_typed [OF this b'(1) f] b'(1) f show ?thesis by blast
qed

end
