(* ===== verification/Draw_Races.thy ===== *)
theory Draw_Races
  imports Tv_Session
begin

text \<open>
  Drawing while another task is at work on what the drawing uses: the address window of the controller,
  which belongs to whoever set it last, and the text buffers of \<open>ScreenData\<close>, which are read while
  they are being written.
\<close>

subsection \<open>The address window\<close>

text \<open>The commands of two draws, with all addresses sent before any pixels.\<close>

definition addresses_first :: "io_ev list \<Rightarrow> io_ev list \<Rightarrow> io_ev list" where
  "addresses_first a b = take 2 a @ take 2 b @ drop 2 a @ drop 2 b"

lemma addresses_first_shuffle:
  "addresses_first (draw_events xs ys xe ye bs) (draw_events xs' ys' xe' ye' bs')
   \<in> shuffles (draw_events xs ys xe ye bs) (draw_events xs' ys' xe' ye' bs')"
  by (simp add: addresses_first_def draw_events_def numeral_2_eq_2)

lemma swap_pixels_shuffle:
  "take 2 (draw_events xs ys xe ye bs) @ draw_events xs' ys' xe' ye' bs' @ drop 2 (draw_events xs ys xe ye bs)
   \<in> shuffles (draw_events xs ys xe ye bs) (draw_events xs' ys' xe' ye' bs')"
  by (simp add: draw_events_def numeral_2_eq_2)

text \<open>The controller once the window is set: where the pixels that come then go.\<close>

definition windowed :: "nat \<Rightarrow> nat \<Rightarrow> nat \<Rightarrow> nat \<Rightarrow> lcd_chip \<Rightarrow> lcd_chip" where
  "windowed xs ys xe ye c = c\<lparr>col_start := xs, col_end := xe - 1, row_start := ys, row_end := ye - 1\<rparr>"

lemma window_set:
  assumes "xs < xe" "ys < ye" "xe \<le> 65536" "ye \<le> 65536"
  shows "fold chip_step (take 2 (draw_events (int xs) (int ys) (int xe) (int ye) bs)) c = windowed xs ys xe ye c"
  using assms by (simp add: draw_events_def chip_caset windowed_def numeral_2_eq_2)

lemma windowed_windowed [simp]: "windowed xs ys xe ye (windowed xs' ys' xe' ye' c) = windowed xs ys xe ye c"
  by (simp add: windowed_def)

lemma fill_windowed: "fill_window bs (windowed xs ys xe ye c) = windowed xs ys xe ye (c\<lparr>pix := pix (fill_window bs (windowed xs ys xe ye c))\<rparr>)"
  by (simp add: fill_window_def windowed_def)

lemma pixels_sent: "fold chip_step (drop 2 (draw_events xs ys xe ye bs)) c = fill_window bs c"
  by (simp add: draw_events_def numeral_2_eq_2)

text \<open>Pixels for another window reach at most this one.\<close>

lemma fill_outside:
  assumes "\<not> (xs \<le> x \<and> x < xe \<and> ys \<le> y \<and> y < ye)" "xs < xe" "ys < ye"
  shows "pix (fill_window bs (windowed xs ys xe ye c)) x y = pix c x y"
  using assms by (auto simp: fill_window_def windowed_def)

lemma fill_twice:
  assumes "xs < xe" "ys < ye" "length bs' = 2 * ((xe - xs) * (ye - ys))"
  shows "pix (fill_window bs' (fill_window bs (windowed xs ys xe ye c))) = blit xs ys xe ye bs' (pix c)"
proof -
  have "pix (fill_window bs' (fill_window bs (windowed xs ys xe ye c))) =
      blit xs ys xe ye bs' (pix (fill_window bs (windowed xs ys xe ye c)))"
    using assms by (subst fill_windowed, subst fill_window_blit [of xs xe ys ye]) (simp_all add: windowed_def)
  also have "\<dots> = blit xs ys xe ye bs' (pix c)"
    using fill_outside [OF _ assms(1,2)] by (intro ext) (auto simp: blit_def)
  finally show ?thesis .
qed

lemma pix_fill_window:
  "pix (fill_window bs c) x y =
     (if col_start c \<le> x \<and> x \<le> col_end c \<and> row_start c \<le> y \<and> y \<le> row_end c \<and>
        2 * ((y - row_start c) * (col_end c - col_start c + 1) + (x - col_start c)) + 1 < length bs
      then pixel_at bs ((y - row_start c) * (col_end c - col_start c + 1) + (x - col_start c)) else pix c x y)"
  by (simp only: fill_window_def pix_upd)

lemma windowed_simps:
  "col_start (windowed xs ys xe ye c) = xs" "col_end (windowed xs ys xe ye c) = xe - 1"
  "row_start (windowed xs ys xe ye c) = ys" "row_end (windowed xs ys xe ye c) = ye - 1"
  by (simp_all add: windowed_def)

lemma fill_at:
  assumes "xs < xe" "ys < ye" "2 * k + 1 < length bs" "k < (xe - xs) * (ye - ys)"
  shows "pix (fill_window bs (windowed xs ys xe ye c)) (xs + k mod (xe - xs)) (ys + k div (xe - xs)) = pixel_at bs k"
proof -
  define x y where "x = xs + k mod (xe - xs)" and "y = ys + k div (xe - xs)"
  have w: "0 < xe - xs" using assms(1) by simp
  have "k mod (xe - xs) < xe - xs" using w by simp
  moreover have "k div (xe - xs) < ye - ys" using assms(4) by (simp add: less_mult_imp_div_less mult.commute)
  ultimately have "xs \<le> x" "x \<le> xe - 1" "ys \<le> y" "y \<le> ye - 1" by (auto simp: x_def y_def)
  moreover have "(y - ys) * (xe - 1 - xs + 1) + (x - xs) = k"
  proof -
    have "xe - 1 - xs + 1 = xe - xs" using assms(1) by simp
    thus ?thesis by (simp only: x_def y_def add_diff_cancel_left' div_mult_mod_eq)
  qed
  ultimately show ?thesis
    using assms(3) unfolding x_def [symmetric] y_def [symmetric] pix_fill_window windowed_simps by presburger
qed

text \<open>The driver's log of a draw.\<close>

definition rect_ok :: "nat \<times> nat \<times> nat \<times> nat \<Rightarrow> byte list \<Rightarrow> bool" where
  "rect_ok r bs = (case r of (xs, ys, xe, ye) \<Rightarrow>
     xs < xe \<and> ys < ye \<and> xe \<le> 65536 \<and> ye \<le> 65536 \<and> length bs = 2 * ((xe - xs) * (ye - ys)) \<and> 8 * length bs < 2 ^ 31)"

definition draw_log :: "nat \<times> nat \<times> nat \<times> nat \<Rightarrow> byte list \<Rightarrow> io_ev list" where
  "draw_log r bs = (case r of (xs, ys, xe, ye) \<Rightarrow> draw_events (int xs) (int ys) (int xe) (int ye) bs)"

abbreviation draw_rect :: "nat \<times> nat \<times> nat \<times> nat \<Rightarrow> byte list \<Rightarrow> 'a ili_dev_scheme \<Rightarrow> (u32 \<times> 'a ili_dev_scheme) run" where
  "draw_rect r bs \<equiv> case r of (xs, ys, xe, ye) \<Rightarrow> panel_ili9341_draw_bitmap (int xs) (int ys) (int xe) (int ye) (Some bs)"

lemma draw_rect_log:
  assumes "ili_ready w" "all_ok w" "rect_ok r bs"
  shows "\<exists>w'. draw_rect r bs w = Inr (ESP_OK, w') \<and> io_log w' = io_log w @ draw_log r bs"
proof -
  obtain xs ys xe ye where r: "r = (xs, ys, xe, ye)" by (cases r)
  obtain p where p: "dev_panel w = Some p" "x_gap p = 0" "y_gap p = 0" "fb_bits_per_pixel p = 16"
    using assms(1) by (auto simp: ili_ready_def split: option.splits)
  have n: "nat (2 * ((int xe - int xs) * (int ye - int ys))) = length bs"
    using assms(3) by (simp add: rect_ok_def r nat_mult_distrib of_nat_diff [symmetric] del: of_nat_diff)
  show ?thesis
    using draw_bitmap_run [OF p(1,4) assms(2), of "int xs" "int xe" "int ys" "int ye" bs] assms(3) p n
      nat_rect_fits [of p 0 0 xs xe ys ye]
    by (simp add: r draw_log_def rect_ok_def)
qed

lemma lost_draw:
  assumes "rect_ok (xs, ys, xe, ye) a" "rect_ok (xs', ys', xe', ye') b"
  shows "pix (fold chip_step (addresses_first (draw_log (xs, ys, xe, ye) a) (draw_log (xs', ys', xe', ye') b)) c) =
    blit xs' ys' xe' ye' b (pix c)"
  using assms fill_twice [of xs' xe' ys' ye' b a c]
  by (simp add: addresses_first_def draw_log_def rect_ok_def window_set pixels_sent)

lemma stray_draw:
  assumes "rect_ok (xs, ys, xe, ye) a" "rect_ok (xs', ys', xe', ye') b" "length a \<le> length b" "k < (xe - xs) * (ye - ys)"
  shows "pix (fold chip_step (take 2 (draw_log (xs, ys, xe, ye) a) @ draw_log (xs', ys', xe', ye') b @ drop 2 (draw_log (xs, ys, xe, ye) a)) c)
    (xs' + k mod (xe' - xs')) (ys' + k div (xe' - xs')) = pixel_at a k"
proof -
  let ?a = "draw_log (xs, ys, xe, ye) a" and ?b = "draw_log (xs', ys', xe', ye') b"
  have "fold chip_step ?b c = fill_window b (windowed xs' ys' xe' ye' c)" for c
    using fold_append [of chip_step "take 2 ?b" "drop 2 ?b"] assms(2)
    by (simp add: draw_log_def rect_ok_def window_set pixels_sent)
  hence run: "fold chip_step (take 2 ?a @ ?b @ drop 2 ?a) c = fill_window a (windowed xs' ys' xe' ye'
      (c\<lparr>pix := pix (fill_window b (windowed xs' ys' xe' ye' c))\<rparr>))"
    using assms(1) fill_windowed [of b xs' ys' xe' ye' c] by (simp add: draw_log_def rect_ok_def window_set pixels_sent)
  have "k < (xe' - xs') * (ye' - ys')" "2 * k + 1 < length a"
    using assms double_less [OF assms(4)] by (simp_all add: rect_ok_def)
  thus ?thesis unfolding run using assms(2) by (intro fill_at) (simp_all add: rect_ok_def)
qed

subsection \<open>Reading a text that is being written\<close>

text \<open>What a reader can see while one buffer is overwritten with another: each byte is the old or the new one.\<close>

definition torn :: "byte list \<Rightarrow> byte list \<Rightarrow> byte list \<Rightarrow> bool" where
  "torn old new b \<longleftrightarrow> length b = length old \<and> length b = length new \<and> (\<forall>i<length b. b ! i = old ! i \<or> b ! i = new ! i)"

text \<open>The characters of a time: digits, the space and the colon.\<close>

definition time_char :: "byte \<Rightarrow> bool" where
  "time_char c \<longleftrightarrow> (\<exists>n\<in>{0x20} \<union> {0x30..0x3A}. c = of_nat n)"

lemma time_text_chars:
  assumes "clock_ok m s"
  shows "list_all time_char (time_text m s)" "length (time_text m s) = 7"
proof -
  have lt: "unat m < 100" "unat s < 100" using assms by (auto simp: clock_ok_def)
  have digit: "time_char (of_nat (0x30 + n))" if "n < 10" for n
    unfolding time_char_def using that by (intro bexI [of _ "0x30 + n"]) auto
  have "time_char 0x20" "time_char 0x3A"
    unfolding time_char_def by (rule bexI [of _ "0x20"], simp_all, rule bexI [of _ "0x3A"], simp_all)
  moreover have "unat m div 10 < 10" "unat m mod 10 < 10" "unat s div 10 < 10" "unat s mod 10 < 10" using lt by auto
  ultimately show "list_all time_char (time_text m s)"
    using digit unfolding time_text_def dec02_two [OF lt(1)] dec02_two [OF lt(2)] by (simp del: of_nat_add)
  show "length (time_text m s) = 7" by (rule time_text_encode(2) [OF lt])
qed

lemma time_chars_encode:
  assumes "list_all time_char bs"
  shows "\<exists>cs. bs = encode cs \<and> list_all drawable cs \<and> length cs = length bs"
  using assms
proof (induction bs)
  case (Cons b bs)
  then obtain cs where cs: "bs = encode cs" "list_all drawable cs" "length cs = length bs" by auto
  obtain n where "n \<in> {0x20} \<union> {0x30..0x3A}" "b = of_nat n"
    using Cons.prems unfolding list.pred_inject time_char_def by blast
  hence "utf8_encode n = [b]" "drawable n" by (auto simp: utf8_encode_def drawable_def supported_def)
  thus ?case using cs by (intro exI [of _ "n # cs"]) simp
qed simp

lemma torn_time:
  assumes "torn (time_text m s @ 0 # r) (time_text m' s' @ 0 # r') b" "clock_ok m s" "clock_ok m' s'"
  shows "\<exists>cs rest. b = encode cs @ 0 # rest \<and> list_all drawable cs \<and> length cs = 7 \<and> length rest = length r"
proof -
  note T = time_text_chars [OF assms(2)] and T' = time_text_chars [OF assms(3)]
  have len: "length b = 8 + length r" using assms(1) T(2) by (simp add: torn_def)
  have at: "b ! i = (time_text m s @ 0 # r) ! i \<or> b ! i = (time_text m' s' @ 0 # r') ! i" if "i < 8" for i
    using assms(1) len that by (simp add: torn_def)
  have "time_char (b ! i)" if "i < 7" for i
    using at [of i] that T T' by (auto simp: nth_append list_all_length)
  hence "list_all time_char (take 7 b)" using len by (simp add: list_all_length)
  then obtain cs where cs: "take 7 b = encode cs" "list_all drawable cs" "length cs = length (take 7 b)"
    using time_chars_encode by blast
  have "b ! 7 = 0" using at [of 7] T(2) T'(2) by (simp add: nth_append)
  moreover have "b = take 7 b @ b ! 7 # drop (Suc 7) b" by (rule id_take_nth_drop) (use len in simp)
  moreover have "length (take 7 b) = 7" "length (drop (Suc 7) b) = length r" using len by simp_all
  ultimately show ?thesis using cs by metis
qed

text \<open>The first byte of a three-byte character, followed by an ASCII character or the end.\<close>

lemma lone_lead_byte:
  assumes "0x800 \<le> c" "c < 0x10000" "b1 < 0x80"
  shows "\<exists>u l. ParserChar_GetUnicode (hd (utf8_encode c) # b1 # rest) = Inr (of_nat u, l) \<and> undrawable u"
    and "hd (utf8_encode c) \<noteq> 0"
proof -
  define u where "u = 0xE0 + c div 4096"
  have u: "0xE0 \<le> u" "u < 0xF0" and lead: "hd (utf8_encode c) = of_nat u" using assms(1,2) by (auto simp: u_def utf8_encode_def)
  have "unat b1 < 128" using assms(3) by (simp add: word_less_nat_alt)
  hence "\<not> bit (unat b1) 7" by (simp add: bit_iff_odd)
  hence "\<not> bit b1 7" by (simp add: bit_unsigned_iff)
  moreover have "bit (push_bit 7 1 :: byte) n \<longleftrightarrow> n = 7" for n by (rule bit_one_byte) simp
  ultimately have "bit (b1 AND push_bit 7 1) n \<longleftrightarrow> bit (0 :: byte) n" for n unfolding bit_and_iff by auto
  hence "b1 AND push_bit 7 1 = 0" by (intro bit_word_eqI) blast
  hence "\<not> is_cont b1" by (simp add: is_cont_def)
  hence "ParserChar_GetUnicode (of_nat u # b1 # rest) = Inr (ucast (of_nat u :: byte), 1)" by (rule GetUnicode_bad_second)
  moreover have "(ucast (of_nat u :: byte) :: u32) = of_nat u" by (rule ucast_of_nat_byte) (use u in simp)
  moreover have "undrawable u" using u by (simp add: undrawable_def font_index_eq FONT_LENGTH_def)
  ultimately show "\<exists>u l. ParserChar_GetUnicode (hd (utf8_encode c) # b1 # rest) = Inr (of_nat u, l) \<and> undrawable u"
    unfolding lead by auto
  have "unat (of_nat u :: byte) = u" using u by (simp add: unsigned_of_nat take_bit_nat_eq_self)
  thus "hd (utf8_encode c) \<noteq> 0" unfolding lead using u by auto
qed

subsection \<open>Properties\<close>

text \<open>
  C24. Two draws that are not kept apart. Two tasks draw, each a rectangle, with as many pixels as it
  has and not more than the driver can count in an \<open>int\<close>, the second at least as large as the first. Among the interleavings of their commands to the
  controller there is one after which the first draw is lost without a trace, the frame being what the
  second alone gives, and one after which every pixel of the first draw stands in the rectangle of the
  second.
\<close>

theorem interleaved_draws_stray:
  assumes "ili_ready w" "all_ok w" "rect_ok (xs, ys, xe, ye) a" "rect_ok (xs', ys', xe', ye') b" "length a \<le> length b"
  shows "\<exists>wa wb la lb. panel_ili9341_draw_bitmap (int xs) (int ys) (int xe) (int ye) (Some a) w = Inr (ESP_OK, wa) \<and>
      io_log wa = io_log w @ la \<and>
      panel_ili9341_draw_bitmap (int xs') (int ys') (int xe') (int ye') (Some b) w = Inr (ESP_OK, wb) \<and>
      io_log wb = io_log w @ lb \<and>
    (\<exists>es\<in>shuffles la lb. frame (w\<lparr>io_log := io_log w @ es\<rparr>) = blit xs' ys' xe' ye' b (frame w)) \<and>
    (\<exists>es\<in>shuffles la lb. \<forall>k<(xe - xs) * (ye - ys). frame (w\<lparr>io_log := io_log w @ es\<rparr>)
       (xs' + k mod (xe' - xs')) (ys' + k div (xe' - xs')) = pixel_at a k)"
proof -
  let ?a = "draw_log (xs, ys, xe, ye) a" and ?b = "draw_log (xs', ys', xe', ye') b"
  have frame: "frame (w\<lparr>io_log := io_log w @ es\<rparr>) = pix (fold chip_step es (chip_of w))" for es
    by (simp add: frame_def chip_of_def)
  have "addresses_first ?a ?b \<in> shuffles ?a ?b" "take 2 ?a @ ?b @ drop 2 ?a \<in> shuffles ?a ?b"
    by (simp_all add: draw_log_def addresses_first_shuffle swap_pixels_shuffle)
  moreover have "frame (w\<lparr>io_log := io_log w @ addresses_first ?a ?b\<rparr>) = blit xs' ys' xe' ye' b (frame w)"
    unfolding frame lost_draw [OF assms(3,4)] by (simp add: frame_def)
  moreover have "\<forall>k<(xe - xs) * (ye - ys). frame (w\<lparr>io_log := io_log w @ take 2 ?a @ ?b @ drop 2 ?a\<rparr>)
       (xs' + k mod (xe' - xs')) (ys' + k div (xe' - xs')) = pixel_at a k"
    unfolding frame using stray_draw [OF assms(3-5)] by blast
  ultimately show ?thesis
    using draw_rect_log [OF assms(1,2,3)] draw_rect_log [OF assms(1,2,4)] by fastforce
qed

text \<open>A row of a character, and a strip of the background.\<close>

theorem interleaved_draws_stray_witness:
  "\<exists>wa wb la lb es. panel_ili9341_draw_bitmap 10 60 30 61 (Some (replicate 40 0xFF)) demo_dev = Inr (ESP_OK, wa) \<and>
      io_log wa = io_log demo_dev @ la \<and>
      panel_ili9341_draw_bitmap 0 15 320 30 (Some (replicate 9600 0)) demo_dev = Inr (ESP_OK, wb) \<and>
      io_log wb = io_log demo_dev @ lb \<and> es \<in> shuffles la lb \<and>
      frame (demo_dev\<lparr>io_log := io_log demo_dev @ es\<rparr>) = blit 0 15 320 30 (replicate 9600 0) (frame demo_dev)"
proof -
  have "rect_ok (10, 60, 30, 61) (replicate 40 0xFF)" "rect_ok (0, 15, 320, 30) (replicate 9600 0)"
    by (simp_all add: rect_ok_def)
  from interleaved_draws_stray [OF demo_dev_ok(2,1) this] show ?thesis by auto
qed

text \<open>
  C26. A time that is drawn while it is being printed. Whatever mixture of the bytes of the old and
  the new time the display task reads, it draws seven drawable characters: it returns, reads no
  array out of bounds, and leaves the display usable; what is shown may be a time that never was.
\<close>

theorem torn_time_drawn:
  assumes "lcd_ok st" "bitmaps_ok (tv_bitmaps st)" "clock_ok m s" "clock_ok m' s'" "length buf = 20"
    and "c_sprintf buf (time_text m s) = Inr old" "c_sprintf old (time_text m' s') = Inr new" "torn old new b"
  shows "\<exists>cs st'. draw_string b 150 200 st = Inr st' \<and> lcd_ok st' \<and> cstr b = encode cs \<and> length cs = 7 \<and> list_all drawable cs \<and>
    frame (dev st') = text_frame (tv_bitmaps st) 0xFFFF (s_backgroud_color st) cs (150, 200) (frame (dev st))"
proof -
  have old: "old = time_text m s @ 0 # drop 8 buf" and len: "length old = 20"
    using assms(5,6) time_text_chars(2) [OF assms(3)] by (auto simp: c_sprintf_def split: if_splits)
  have new: "new = time_text m' s' @ 0 # drop 8 old"
    using assms(7) len time_text_chars(2) [OF assms(4)] by (auto simp: c_sprintf_def split: if_splits)
  obtain cs rest where b: "b = encode cs @ 0 # rest" "list_all drawable cs" "length cs = 7"
    using torn_time [OF assms(8) [unfolded new, unfolded old] assms(3,4)] by blast
  have "length b = 20" using assms(8) len by (simp add: torn_def)
  hence "length (encode cs @ 0 # rest) \<le> 256" using b(1) by simp
  from draw_text_buf [OF assms(1,2) b(2) this, of 150 200] obtain w r where
    "draw_string b 150 200 st = Inr (st\<lparr>dev := w, refresh_finish := r\<rparr>)" "lcd_ok (st\<lparr>dev := w, refresh_finish := r\<rparr>)"
    "frame w = text_frame (tv_bitmaps st) 0xFFFF (s_backgroud_color st) cs (150, 200) (frame (dev st))"
    by (auto simp: b(1) draws_to_def)
  moreover have "cstr b = encode cs"
    unfolding b(1) by (rule cstr_append_nul [OF encode_drawable_no_nul [OF b(2)]])
  ultimately show ?thesis using b(2,3) by (intro exI [of _ cs] exI [of _ "st\<lparr>dev := w, refresh_finish := r\<rparr>"]) simp
qed

text \<open>Between 2:00 and 1:59: the minutes are printed, the seconds not yet.\<close>

theorem torn_time_drawn_witness:
  "\<exists>st'. draw_string ([0x30, 0x31, 0x20, 0x3A, 0x20, 0x30, 0x30] @ replicate 13 0) 150 200 tv_up = Inr st' \<and> lcd_ok st'"
proof -
  let ?b = "[0x30, 0x31, 0x20, 0x3A, 0x20, 0x30, 0x30] @ replicate 13 0 :: byte list"
  have ok: "lcd_ok tv_up" "bitmaps_ok (tv_bitmaps tv_up)" using tv_up_ok(1) by (simp_all add: tv_inv_def)
  have clock: "clock_ok 2 0" "clock_ok 1 59" by (simp_all add: clock_ok_def)
  have shown: "time_text 2 0 = [0x30, 0x32, 0x20, 0x3A, 0x20, 0x30, 0x30]" "time_text 1 59 = [0x30, 0x31, 0x20, 0x3A, 0x20, 0x35, 0x39]"
    by (simp_all add: time_text_def dec02_two)
  have "c_sprintf (replicate 20 0) (time_text 2 0) = Inr (time_text 2 0 @ replicate 13 0)"
    "c_sprintf (time_text 2 0 @ replicate 13 0) (time_text 1 59) = Inr (time_text 1 59 @ replicate 13 0)"
    by (simp_all add: shown c_sprintf_def eval_nat_numeral)
  moreover have "torn (time_text 2 0 @ replicate 13 0) (time_text 1 59 @ replicate 13 0) ?b"
    unfolding torn_def shown by (auto simp: all_less_iff_upt eval_nat_numeral)
  ultimately show ?thesis
    using torn_time_drawn [OF ok clock, of "replicate 20 0"] by fastforce
qed

text \<open>
  C25. A word that is drawn while it is being copied. When a word that starts with a Korean character
  has been received, and the one in the buffer starts with two ASCII characters or is a single one, the
  buffer with the first byte copied is nothing the drawing code can read: \<open>LcdTouch_DrawString\<close> leaves the
  font table.
\<close>

theorem torn_word_faults:
  assumes "lcd_ok st" "bitmaps_ok (tv_bitmaps st)" "req_inv r" "cstr (word r) = encode (c # ws)" "supported c" "0x80 \<le> c"
    and "text_buf 100 old" "old ! 0 \<noteq> 0" "old ! 1 < 0x80" "ReqWord_GetWord old r = Inr new"
  shows "torn old new (take 1 new @ drop 1 old) \<and> draw_string (take 1 new @ drop 1 old) 10 10 st = Inl Undef"
proof -
  let ?b = "take 1 new @ drop 1 old"
  obtain cs rest where old: "old = encode cs @ 0 # rest" "length old = 100" using assms(7) by (auto simp: text_buf_def)
  have new: "new = encode (c # ws) @ 0 # drop (Suc (length (encode (c # ws)))) old" "length (encode (c # ws)) < 100"
    using assms(10) GetWord_copies [OF assms(3), of old] assms(4) old(2) by (auto split: if_splits)
  have range: "0x800 \<le> c" "c < 0x10000" using assms(5,6) by (auto simp: supported_def)
  hence utf8: "utf8_encode c = hd (utf8_encode c) # tl (utf8_encode c)" by (simp add: utf8_encode_def)
  have "new = hd (utf8_encode c) # tl (utf8_encode c) @ encode ws @ 0 # drop (Suc (length (encode (c # ws)))) old"
    by (subst new(1), subst encode_simps, subst utf8) simp
  hence first: "take 1 new = [hd (utf8_encode c)]" by (metis One_nat_def take0 take_Suc_Cons)
  have tail: "drop 1 old = old ! 1 # drop 2 old" using old(2) Cons_nth_drop_Suc [of 1 old] by (simp add: numeral_2_eq_2)
  have b: "?b = hd (utf8_encode c) # old ! 1 # drop 2 old" by (simp only: first tail append_Cons append_Nil)
  from lone_lead_byte(1) [OF range assms(9)] obtain u l where
    u: "ParserChar_GetUnicode ?b = Inr (of_nat u, l)" "undrawable u" unfolding b by blast
  have "encode cs \<noteq> []" using assms(8) old(1) by auto
  hence "0 \<in> set (drop 1 old)" using old(1) by (cases "encode cs") auto
  hence "terminated ?b" "cstr ?b \<noteq> []"
    using b tail lone_lead_byte(2) [OF range assms(9)] by (auto simp: terminated_def)
  with ili.draw_string_undrawable [of "tv_bitmaps st" "[]" st ili9341_base 10 10 ?b u l] u assms(1,2)
  have "draw_string ?b 10 10 st = Inl Undef" by (simp add: lcd_ok_def ili9341_base_draw)
  moreover have "length new = 100" by (subst new(1)) (use new(2) old(2) in simp)
  hence "torn old new ?b" using old(2) by (auto simp: torn_def nth_append gr0_conv_Suc)
  ultimately show ?thesis by simp
qed

theorem torn_word_faults_witness:
  "draw_string ([0xEA, 0x42] @ replicate 98 0) 10 10 tv_up = Inl Undef"
proof -
  let ?r = "req_init\<lparr>word := [0xEA, 0xB0, 0x80] @ replicate 125 0\<rparr>"
  let ?old = "[0x41, 0x42] @ replicate 98 0 :: byte list" and ?new = "[0xEA, 0xB0, 0x80] @ replicate 97 0 :: byte list"
  have r: "req_inv ?r"
    using req_inv_init by (simp add: req_inv_def words_inv_def http_inv_def req_sizes)
  have utf8: "utf8_encode 0xAC00 = [0xEA, 0xB0, 0x80]" "utf8_encode 0x41 = [0x41]" "utf8_encode 0x42 = [0x42]"
    by (simp_all add: utf8_encode_def)
  have word: "cstr (word ?r) = encode [0xAC00]" by (simp add: utf8 cstr_def takeWhile_replicate)
  have "replicate 98 (0::byte) = 0 # replicate 97 0" using replicate_Suc [of 97 "0::byte"] by simp
  hence "?old = encode [0x41, 0x42] @ 0 # replicate 97 0" by (simp add: utf8)
  moreover have "list_all drawable [0x41, 0x42]" by (simp add: drawable_def supported_def)
  moreover have "length ?old = 100" by simp
  ultimately have old: "text_buf 100 ?old" unfolding text_buf_def by blast
  have "drop 4 ?old = replicate 96 0" by simp
  moreover have "replicate 97 (0::byte) = 0 # replicate 96 0" using replicate_Suc [of 96 "0::byte"] by simp
  ultimately have "ReqWord_GetWord ?old ?r = Inr ?new"
    using GetWord_copies [OF r, of ?old] word by (simp add: utf8)
  with torn_word_faults [OF _ _ r word _ _ old _ _ this, of tv_up] tv_up_ok(1) show ?thesis
    by (simp add: tv_inv_def supported_def)
qed

end
