(* ===== verification/Tv_Races.thy ===== *)
theory Tv_Races
  imports Tv_Statements
begin

text \<open>
  What the unprotected flags of \<open>main/task.c\<close> and \<open>lcd_touch.c\<close> allow: interleavings of statements, from states
  the firmware reaches, in which no statement fails but an update of another task is lost.
\<close>

subsection \<open>Single statements\<close>

text \<open>The last second, up to the statement that stops the timer.\<close>

lemma last_second_stops:
  assumes "fine_inv f" "timer_at f = TTick" "s_isStartTimer (fw f)" "timer_min (fw f) = 0" "timer_sec (fw f) = 1"
  shows "\<exists>f'. run_ops fine_step (replicate 6 (Stmt TimerTask)) f = Inr f' \<and> timer_at f' = TTurnOff \<and> lcd_at f' = lcd_at f \<and>
    timer_min (fw f') = TV_TASK_TIME_MIN \<and> timer_sec (fw f') = TV_TASK_TIME_SEC \<and> light_sleeps (fw f') = light_sleeps (fw f)"
proof -
  have "tv_base (fw f)" using assms(1) by (simp add: fine_inv_def)
  hence "length (sd_time (s_wordData (fw f))) = 20" using screen_pos(9) by (auto simp: text_buf_def)
  then obtain t where "c_sprintf (sd_time (s_wordData (fw f))) (time_text 0 1) = Inr t"
    using print_time_ok [of 0 1] by (auto simp: clock_ok_def)
  thus ?thesis using assms(2-5) by (simp add: eval_nat_numeral stmt_defs)
qed

text \<open>The display task serves a touch in four statements.\<close>

lemma touch_served:
  assumes "fine_inv f" "lcd_at f = LTouch"
  shows "run_ops fine_step (Touch # replicate 4 (Stmt LcdTouchTask)) f =
    Inr (f\<lparr>fw := (fw f)\<lparr>isTouchOccurred := False, s_isStartTimer := True,
      dev := io_emit (GpioSetLevel (int LT_PIN_NUM_BK_LIGHT) LT_LCD_BK_LIGHT_ON_LEVEL)
        (io_emit (TxParam LCD_CMD_DISPON []) (dev (fw f)))\<rparr>, lcd_at := LWord\<rparr>)"
proof -
  have cb: "s_touch_callback_f (fw f) = Some TASK_TOUCH_CALLBACK"
    and ok: "lcd_ok ((fw f)\<lparr>isTouchOccurred := True, s_isStartTimer := True\<rparr>)"
    using assms(1) by (simp_all add: fine_inv_def tv_base_def lcd_ok_def)
  show ?thesis
    using assms(2) cb turn_ok(1) [OF ok] by (cases f) (simp add: eval_nat_numeral stmt_defs LcdTouch_TouchISR_def)
qed

text \<open>With the timer running, its iterations leave the display alone until the last one.\<close>

lemma running_ticks_keep_dev:
  assumes "tv_inv st" "s_isStartTimer st" "n < clock st"
  shows "\<exists>st'. timer_ticks n st = Inr st' \<and> tv_inv st' \<and> s_isStartTimer st' \<and> clock st' = clock st - n \<and> dev st' = dev st"
  using assms(3)
proof (induction n)
  case 0
  thus ?case using assms by (simp add: timer_ticks_def)
next
  case (Suc n)
  then obtain st1 where st1: "timer_ticks n st = Inr st1" "tv_inv st1" "s_isStartTimer st1" "clock st1 = clock st - n" "dev st1 = dev st"
    by auto
  with Suc.prems have "clock st1 \<noteq> 1" by simp
  with timer_tick_ok [OF st1(2,3)] obtain st2 where
    "Task_TimerTask st1 = Inr st2" "tv_inv st2" "s_isStartTimer st2" "Suc (clock st2) = clock st1" "dev st2 = dev st1"
    by auto
  thus ?case using st1 by (intro exI [of _ st2]) (simp add: timer_ticks_Suc)
qed

text \<open>How many statements the main task has before it is back at its test.\<close>

primrec main_rank :: "main_pc \<Rightarrow> nat" where
  "main_rank MTest = 0"
| "main_rank MDone = 1"
| "main_rank MPlay = 2"
| "main_rank MSentenceFlag = 3"
| "main_rank MSentence = 4"
| "main_rank MWordFlag = 5"
| "main_rank MWord = 6"
| "main_rank MClear = 7"
| "main_rank MRequest = 8"

lemma main_stmt_rank:
  assumes "fine_inv f" "main_at f \<noteq> MTest" "main_at f \<noteq> MRequest"
  shows "\<exists>f'. main_stmt f = Inr f' \<and> fine_inv f' \<and> Suc (main_rank (main_at f')) = main_rank (main_at f) \<and>
    main_at f' \<noteq> MRequest \<and> requests (fw f') = requests (fw f) \<and> (main_at f' = MTest \<longrightarrow> \<not> s_isWordRequest (fw f'))"
proof -
  obtain f' where f': "main_stmt f = Inr f'" "fine_inv f'" using main_stmt_ok [OF assms(1)] by blast
  have ok: "lcd_ok (fw f)" using assms(1) by (simp add: fine_inv_def tv_base_def)
  have "Suc (main_rank (main_at f')) = main_rank (main_at f) \<and>
    main_at f' \<noteq> MRequest \<and> requests (fw f') = requests (fw f) \<and> (main_at f' = MTest \<longrightarrow> \<not> s_isWordRequest (fw f'))"
    using f'(1) assms(2,3) reset_background_ok [OF ok]
    by (cases "main_at f") (auto simp: main_stmt_def goto_main_def Let_def on_audio_def bindR_eq_Inr_iff)
  thus ?thesis using f' by blast
qed

lemma main_runs_home:
  assumes "fine_inv f" "main_at f \<noteq> MTest" "main_at f \<noteq> MRequest"
  shows "\<exists>f'. run_ops fine_step (replicate (main_rank (main_at f)) (Stmt MainTask)) f = Inr f' \<and> main_at f' = MTest \<and>
    \<not> s_isWordRequest (fw f') \<and> requests (fw f') = requests (fw f)"
  using assms
proof (induction "main_rank (main_at f)" arbitrary: f)
  case 0
  thus ?case by (cases "main_at f") auto
next
  case (Suc n)
  obtain f1 where f1: "main_stmt f = Inr f1" "fine_inv f1" "Suc (main_rank (main_at f1)) = main_rank (main_at f)"
    "main_at f1 \<noteq> MRequest" "requests (fw f1) = requests (fw f)" "main_at f1 = MTest \<longrightarrow> \<not> s_isWordRequest (fw f1)"
    using main_stmt_rank [OF Suc.prems] by blast
  have step: "run_ops fine_step (replicate (main_rank (main_at f)) (Stmt MainTask)) f =
      run_ops fine_step (replicate (main_rank (main_at f1)) (Stmt MainTask)) f1"
    unfolding f1(3) [symmetric] using f1(1) by simp
  show ?case
  proof (cases "main_at f1 = MTest")
    case True
    thus ?thesis using step f1(5,6) by simp
  next
    case False
    have "n = main_rank (main_at f1)" using Suc.hyps(2) f1(3) by simp
    from Suc.hyps(1) [OF this f1(2) False f1(4)] show ?thesis unfolding step f1(5) .
  qed
qed

text \<open>The last two statements of a session.\<close>

lemma turn_off_and_sleep:
  assumes "fine_inv f" "timer_at f = TTurnOff"
  shows "run_ops fine_step (replicate 2 (Stmt TimerTask)) f =
    Inr (f\<lparr>fw := esp_light_sleep_start ((fw f)\<lparr>dev := io_emit (GpioSetLevel (int LT_PIN_NUM_BK_LIGHT) LT_LCD_BK_LIGHT_OFF_LEVEL)
        (io_emit (TxParam LCD_CMD_DISPOFF []) (dev (fw f)))\<rparr>), timer_at := TTick\<rparr>)"
proof -
  have "lcd_ok (fw f)" using assms(1) by (simp add: fine_inv_def tv_base_def)
  from turn_ok(2) [OF this] show ?thesis using assms(2) by (simp add: eval_nat_numeral stmt_defs)
qed

lemma fine_runs_keep: "fine_inv f \<Longrightarrow> run_ops fine_step evs f = Inr f' \<Longrightarrow> fine_inv f'"
  using fine.run_total [of f evs] by auto

subsection \<open>Properties\<close>

text \<open>
  C15. A touch in the last second. If the interrupt comes between the statement of the timer task that
  stops the timer and the one that switches the display off, and the display task serves it there, the
  timer task then goes on to switch the display off and to sleep: the firmware ends up in a running
  session, with its invariant kept and the touch consumed, but on a dark panel, which the timer's next
  119 iterations leave as it is.
\<close>

theorem touch_at_end_leaves_dark:
  assumes "tv_inv st" "s_isStartTimer st" "clock st = 1"
  shows "\<exists>f. run_ops fine_step (replicate 6 (Stmt TimerTask) @ Touch # replicate 4 (Stmt LcdTouchTask) @
      replicate 2 (Stmt TimerTask)) (at_start st) = Inr f \<and> timer_at f = TTick \<and> tv_inv (fw f) \<and>
    light_sleeps (fw f) = light_sleeps st + 1 \<and> \<not> isTouchOccurred (fw f) \<and> clock (fw f) = 120 \<and>
    (\<forall>n<120. \<exists>st'. timer_ticks n (fw f) = Inr st' \<and> s_isStartTimer st' \<and> clock st' = 120 - n \<and> \<not> chip_on (chip_of (dev st')))"
proof -
  have "unat (timer_min st) = 0 \<and> unat (timer_sec st) = 1" using assms(3) unfolding clock_def by arith
  hence m: "timer_min st = 0" and s: "timer_sec st = 1"
    by (auto intro: iffD2 [OF word_unat_eq_iff])
  have inv: "fine_inv (at_start st)" by (rule fine_inv_start [OF assms(1)])
  obtain f1 where f1: "run_ops fine_step (replicate 6 (Stmt TimerTask)) (at_start st) = Inr f1" "timer_at f1 = TTurnOff"
    "lcd_at f1 = LTouch" "timer_min (fw f1) = TV_TASK_TIME_MIN" "timer_sec (fw f1) = TV_TASK_TIME_SEC" "light_sleeps (fw f1) = light_sleeps st"
    using last_second_stops [OF inv] assms(2) m s by (auto simp: at_start_def)
  obtain f2 where f2: "run_ops fine_step (Touch # replicate 4 (Stmt LcdTouchTask)) f1 = Inr f2" "timer_at f2 = TTurnOff"
    "s_isStartTimer (fw f2)" "\<not> isTouchOccurred (fw f2)" "timer_min (fw f2) = TV_TASK_TIME_MIN"
    "timer_sec (fw f2) = TV_TASK_TIME_SEC" "light_sleeps (fw f2) = light_sleeps st"
    using touch_served [OF fine_runs_keep [OF inv f1(1)] f1(3)] f1 by simp
  have inv2: "fine_inv f2" by (rule fine_runs_keep [OF fine_runs_keep [OF inv f1(1)] f2(1)])
  obtain f where f: "run_ops fine_step (replicate 2 (Stmt TimerTask)) f2 = Inr f" "timer_at f = TTick" "s_isStartTimer (fw f)"
    "\<not> isTouchOccurred (fw f)" "light_sleeps (fw f) = light_sleeps st + 1" "clock (fw f) = 120" "\<not> chip_on (chip_of (dev (fw f)))"
    using turn_off_and_sleep [OF inv2 f2(2)] f2 chip_disp_on_off [of False]
    by (simp add: esp_light_sleep_start_def clock_def tv_time_defs)
  have inv3: "tv_inv (fw f)" using fine_runs_keep [OF inv2 f(1)] f(2) by (simp add: fine_inv_def tv_inv_base)
  have "\<exists>st'. timer_ticks n (fw f) = Inr st' \<and> s_isStartTimer st' \<and> clock st' = 120 - n \<and> \<not> chip_on (chip_of (dev st'))"
    if "n < 120" for n
    using running_ticks_keep_dev [OF inv3 f(3), of n] that f(6,7) by auto
  moreover have "run_ops fine_step (replicate 6 (Stmt TimerTask) @ Touch # replicate 4 (Stmt LcdTouchTask) @
      replicate 2 (Stmt TimerTask)) (at_start st) = Inr f"
    using f1(1) f2(1) f(1) run_ops_append [of fine_step "Touch # replicate 4 (Stmt LcdTouchTask)" "replicate 2 (Stmt TimerTask)"]
    by (simp only: run_ops_append append_Cons bindR_simps)
  ultimately show ?thesis using f inv3 by blast
qed

text \<open>The firmware of \<open>tv_up\<close> a second before its session ends.\<close>

definition last_second :: tv_state where
  "last_second = tv_up\<lparr>timer_min := 0, timer_sec := 1\<rparr>"

lemma last_second_ok: "tv_inv last_second" "s_isStartTimer last_second" "clock last_second = 1"
  using tv_up_ok(1,2) by (simp_all add: last_second_def tv_inv_def lcd_ok_def clock_ok_def clock_def)

theorem touch_at_end_leaves_dark_witness:
  "\<exists>f. run_ops fine_step (replicate 6 (Stmt TimerTask) @ Touch # replicate 4 (Stmt LcdTouchTask) @
      replicate 2 (Stmt TimerTask)) (at_start last_second) = Inr f \<and> clock (fw f) = 120"
  using touch_at_end_leaves_dark [OF last_second_ok] by blast

text \<open>
  C23. A request made too early is lost. If a minute begins while the main task is still busy with the
  word of the one before, at any statement after the request, the flag that the timer task sets is
  reset at the end of that work: the main task comes back to its test with no request pending, and the
  server has not been asked again.
\<close>

theorem word_request_lost:
  assumes "fine_inv f" "timer_at f = TRequest" "main_at f \<noteq> MTest" "main_at f \<noteq> MRequest"
  shows "\<exists>f' f''. fine_step (Stmt TimerTask) f = Inr f' \<and> s_isWordRequest (fw f') \<and>
    run_ops fine_step (replicate (main_rank (main_at f)) (Stmt MainTask)) f' = Inr f'' \<and> main_at f'' = MTest \<and>
    \<not> s_isWordRequest (fw f'') \<and> requests (fw f'') = requests (fw f)"
proof -
  obtain f' where f': "fine_step (Stmt TimerTask) f = Inr f'" "s_isWordRequest (fw f')" "main_at f' = main_at f"
    "requests (fw f') = requests (fw f)"
    using assms(2) by (simp add: stmt_defs)
  have "fine_inv f'" using fine_step_ok [OF assms(1), of "Stmt TimerTask"] f'(1) by auto
  from main_runs_home [OF this, unfolded f'(3,4), OF assms(3,4)] f' show ?thesis by blast
qed

text \<open>The main task about to play the audio, the timer task about to set the flag, 1:59 to go.\<close>

definition second_request :: fine_state where
  "second_request = \<lparr>fw = tv_up\<lparr>timer_sec := 255\<rparr>, main_at = MPlay, lcd_at = LTouch, timer_at = TRequest\<rparr>"

theorem word_request_lost_witness:
  "\<exists>f' f''. fine_step (Stmt TimerTask) second_request = Inr f' \<and> s_isWordRequest (fw f') \<and>
    run_ops fine_step (replicate 2 (Stmt MainTask)) f' = Inr f'' \<and> \<not> s_isWordRequest (fw f'') \<and> requests (fw f'') = 0"
proof -
  have "fine_inv second_request"
    using fine_inv_start [OF tv_up_ok(1)] tv_base_upd(7) [of tv_up 255]
    by (simp add: fine_inv_def at_start_def second_request_def tv_up_def tv_time_defs)
  from word_request_lost [OF this] show ?thesis by (auto simp: second_request_def tv_up_def)
qed

text \<open>
  A time text is lost. If the timer task prints the next second while the display task is drawing
  the last one, the display task then clears the flag of the text it has not drawn: the buffer holds
  the new time, the screen shows what drawing the old one gave, and nothing asks for it to be drawn.
\<close>

lemma time_text_lost:
  assumes "fine_inv f" "lcd_at f = LDrawTime" "timer_at f = TTest" "s_isStartTimer (fw f)"
  shows "\<exists>st1 f'. draw_string (sd_time (s_wordData (fw f))) (time_x (s_wordData (fw f))) (time_y (s_wordData (fw f))) (fw f) = Inr st1 \<and>
    run_ops fine_step (Stmt LcdTouchTask # replicate 3 (Stmt TimerTask) @ [Stmt LcdTouchTask]) f = Inr f' \<and>
    frame (dev (fw f')) = frame (dev st1) \<and> cstr (sd_time (s_wordData (fw f'))) = time_text (timer_min (fw f)) (timer_sec (fw f)) \<and>
    \<not> isNewTime (s_wordData (fw f')) \<and> lcd_at f' = LTouch"
proof -
  let ?st = "fw f" and ?sd = "s_wordData (fw f)"
  have base: "tv_base ?st" and ck: "clock_ok (timer_min ?st) (timer_sec ?st)"
    using assms(1,3) by (simp_all add: fine_inv_def)
  note pos = screen_pos [OF base]
  obtain cs rest where b: "list_all drawable cs" "sd_time ?sd = encode cs @ 0 # rest" "length (sd_time ?sd) = 20"
    using pos(9) by (auto simp: text_buf_def)
  obtain w r where draw: "draw_string (sd_time ?sd) (time_x ?sd) (time_y ?sd) ?st = Inr (?st\<lparr>dev := w, refresh_finish := r\<rparr>)"
    using draw_text_buf [of ?st cs rest 150 200] b base pos(5,6) by (auto simp: tv_base_def)
  obtain t where t: "c_sprintf (sd_time ?sd) (time_text (timer_min ?st) (timer_sec ?st)) = Inr t"
    using print_time_ok [OF ck b(3)] by blast
  show ?thesis
    using draw t assms(2-4) print_time_cstr [OF ck t]
    by (simp add: eval_nat_numeral stmt_defs)
qed

end
