(* ===== verification/Tv_Interleave.thy ===== *)
theory Tv_Interleave
  imports Tv_Main
begin

text \<open>
  Two tasks draw: the main task clears the screen, the display task writes text. Both use the one static
  semaphore \<open>refresh_finish\<close> of \<open>lcd_touch.c\<close>. This theory has the two drawing functions as sequences of
  the steps that touch it, interleaved in any way, as an inductive relation: what goes right in the
  runs in which drawings do not overlap, and what goes wrong in the others, which nothing in the code excludes.
\<close>

subsection \<open>Programs\<close>

text \<open>
  \<open>Create\<close>: \<open>refresh_finish = xSemaphoreCreateBinary ()\<close>; \<open>Draw\<close>: a transfer that will raise the completion
  interrupt; \<open>Take\<close>: \<open>xSemaphoreTake (refresh_finish, portMAX_DELAY)\<close>; \<open>Delete\<close>: \<open>vSemaphoreDelete (refresh_finish)\<close>.
\<close>

datatype dinstr = Create | Draw | Take | Delete

primrec transfers :: "nat \<Rightarrow> dinstr list" where
  "transfers 0 = []"
| "transfers (Suc n) = Draw # Take # transfers n"

definition fill_program :: "dinstr list" where
  "fill_program = Create # transfers LT_LCD_BIT_PER_PIXEL @ [Delete]"

definition image_program :: "nat \<Rightarrow> dinstr list" where
  "image_program height = Create # transfers height @ [Delete]"

text \<open>
  The state: what each task has still to do, the semaphore it is blocked on, all semaphores ever created,
  the handle in the static variable, and the number of completion interrupts that are due.
\<close>

record dsys =
  prog :: "task \<Rightarrow> dinstr list"
  blocked :: "task \<Rightarrow> nat option"
  sems :: "sem list"
  sem_handle :: "nat option"
  due :: nat

definition sem_at :: "dsys \<Rightarrow> nat option \<Rightarrow> sem" where
  "sem_at s h = (case h of None \<Rightarrow> SemNull | Some i \<Rightarrow> if i < length (sems s) then sems s ! i else SemNull)"

definition live :: "sem \<Rightarrow> bool" where
  "live x \<longleftrightarrow> (\<exists>g. x = SemLive g)"

text \<open>Between drawings, between two transfers of one, and with a transfer under way.\<close>

datatype phase = Outside | Between | Transferring

definition phase_of :: "dinstr list \<Rightarrow> phase" where
  "phase_of p = (case p of [] \<Rightarrow> Outside
     | x # _ \<Rightarrow> (case x of Create \<Rightarrow> Outside | Draw \<Rightarrow> Between | Take \<Rightarrow> Transferring | Delete \<Rightarrow> Between))"

abbreviation drawing :: "dinstr list \<Rightarrow> bool" where
  "drawing p \<equiv> phase_of p \<noteq> Outside"

subsection \<open>Steps\<close>

text \<open>
  A step of a task is the next instruction of its program; taking the semaphore has two, since the task
  looks up the handle before it blocks. The interrupt comes at any time after its transfer has been started,
  and gives the semaphore that the variable then refers to. A step on a semaphore that is null or deleted is
  an access outside an object.
\<close>

inductive dstep :: "dsys \<Rightarrow> dsys run \<Rightarrow> bool" where
  create: "prog s t = Create # p \<Longrightarrow>
    dstep s (Inr (s\<lparr>prog := (prog s)(t := p), sems := sems s @ [SemLive False], sem_handle := Some (length (sems s))\<rparr>))"
| draw: "prog s t = Draw # p \<Longrightarrow> dstep s (Inr (s\<lparr>prog := (prog s)(t := p), due := Suc (due s)\<rparr>))"
| wait: "prog s t = Take # p \<Longrightarrow> blocked s t = None \<Longrightarrow> live (sem_at s (sem_handle s)) \<Longrightarrow>
    dstep s (Inr (s\<lparr>blocked := (blocked s)(t := sem_handle s)\<rparr>))"
| wait_fault: "prog s t = Take # p \<Longrightarrow> blocked s t = None \<Longrightarrow> \<not> live (sem_at s (sem_handle s)) \<Longrightarrow> dstep s (Inl Undef)"
| take: "prog s t = Take # p \<Longrightarrow> blocked s t = Some i \<Longrightarrow> sem_at s (Some i) = SemLive True \<Longrightarrow>
    dstep s (Inr (s\<lparr>prog := (prog s)(t := p), blocked := (blocked s)(t := None), sems := (sems s)[i := SemLive False]\<rparr>))"
| take_fault: "prog s t = Take # p \<Longrightarrow> blocked s t = Some i \<Longrightarrow> \<not> live (sem_at s (Some i)) \<Longrightarrow> dstep s (Inl Undef)"
| delete: "prog s t = Delete # p \<Longrightarrow> sem_handle s = Some i \<Longrightarrow> live (sem_at s (Some i)) \<Longrightarrow>
    dstep s (Inr (s\<lparr>prog := (prog s)(t := p), sems := (sems s)[i := SemDeleted]\<rparr>))"
| delete_fault: "prog s t = Delete # p \<Longrightarrow> \<not> live (sem_at s (sem_handle s)) \<Longrightarrow> dstep s (Inl Undef)"
| interrupt: "0 < due s \<Longrightarrow> sem_handle s = Some i \<Longrightarrow> live (sem_at s (Some i)) \<Longrightarrow>
    dstep s (Inr (s\<lparr>sems := (sems s)[i := SemLive True], due := due s - 1\<rparr>))"
| interrupt_fault: "0 < due s \<Longrightarrow> \<not> live (sem_at s (sem_handle s)) \<Longrightarrow> dstep s (Inl Undef)"

inductive_cases dstepE: "dstep s r"
inductive_cases dstep_okE: "dstep s (Inr s')"
inductive_cases dstep_faultE: "dstep s (Inl e)"

text \<open>The states reached after some number of steps.\<close>

inductive dreach :: "dsys \<Rightarrow> nat \<Rightarrow> dsys \<Rightarrow> bool" for s0 :: dsys where
  start: "dreach s0 0 s0"
| step: "dreach s0 n s \<Longrightarrow> dstep s (Inr s') \<Longrightarrow> dreach s0 (Suc n) s'"

text \<open>Those of these runs in which never more than one task is inside a drawing: by chance, the code has no lock.\<close>

definition apart :: "dsys \<Rightarrow> bool" where
  "apart s \<longleftrightarrow> (\<forall>t u. drawing (prog s t) \<longrightarrow> drawing (prog s u) \<longrightarrow> t = u)"

inductive serial :: "dsys \<Rightarrow> nat \<Rightarrow> dsys \<Rightarrow> bool" for s0 :: dsys where
  start: "apart s0 \<Longrightarrow> serial s0 0 s0"
| step: "serial s0 n s \<Longrightarrow> dstep s (Inr s') \<Longrightarrow> apart s' \<Longrightarrow> serial s0 (Suc n) s'"

definition finished :: "dsys \<Rightarrow> bool" where
  "finished s \<longleftrightarrow> (\<forall>t. prog s t = []) \<and> due s = 0"

definition stuck :: "dsys \<Rightarrow> bool" where
  "stuck s \<longleftrightarrow> (\<nexists>r. dstep s r)"

subsection \<open>Well-formed programs\<close>

fun in_phase :: "phase \<Rightarrow> dinstr list \<Rightarrow> bool" where
  "in_phase Outside [] = True"
| "in_phase Outside (Create # p) = in_phase Between p"
| "in_phase Between (Draw # p) = in_phase Transferring p"
| "in_phase Between (Delete # p) = in_phase Outside p"
| "in_phase Transferring (Take # p) = in_phase Between p"
| "in_phase _ _ = False"

fun_cases in_phase_OutsideE: "in_phase Outside p"
fun_cases in_phase_BetweenE: "in_phase Between p"
fun_cases in_phase_TransferringE: "in_phase Transferring p"

lemma in_phase_phase_of: "in_phase h p \<Longrightarrow> phase_of p = h"
  by (cases h) (auto simp: phase_of_def elim: in_phase_OutsideE in_phase_BetweenE in_phase_TransferringE)

lemma phase_of_Cons [simp]:
  "phase_of [] = Outside" "phase_of (Create # p) = Outside" "phase_of (Draw # p) = Between"
  "phase_of (Take # p) = Transferring" "phase_of (Delete # p) = Between"
  by (simp_all add: phase_of_def)

definition well :: "dinstr list \<Rightarrow> bool" where
  "well p \<longleftrightarrow> in_phase (phase_of p) p"

lemma well_Cons [simp]:
  "well []" "well (Create # p) = in_phase Between p" "well (Draw # p) = in_phase Transferring p"
  "well (Take # p) = in_phase Between p" "well (Delete # p) = in_phase Outside p"
  by (simp_all add: well_def)

lemma in_phase_well: "in_phase h p \<Longrightarrow> well p"
  by (simp add: well_def in_phase_phase_of)

lemma transfers_in_phase [simp]: "in_phase Between (transfers n @ p) = in_phase Between p"
  by (induction n) simp_all

lemma image_program_in_phase: "in_phase Outside p \<Longrightarrow> in_phase Outside (image_program n @ p)"
  by (simp add: image_program_def)

lemma fill_program_eq: "fill_program = image_program 16"
  by (simp add: fill_program_def image_program_def LT_LCD_BIT_PER_PIXEL_def)

subsection \<open>The invariant under mutual exclusion\<close>

text \<open>The task that draws owns the semaphore: a transfer is under way, or its completion is signalled, or neither.\<close>

definition owns :: "dsys \<Rightarrow> task \<Rightarrow> bool" where
  "owns s t \<longleftrightarrow> (\<exists>i. sem_handle s = Some i \<and> i < length (sems s) \<and>
     (if phase_of (prog s t) = Transferring
      then blocked s t \<in> {None, Some i} \<and> (due s = 1 \<and> sems s ! i = SemLive False \<or> due s = 0 \<and> sems s ! i = SemLive True)
      else blocked s t = None \<and> due s = 0 \<and> sems s ! i = SemLive False))"

definition excl_inv :: "dsys \<Rightarrow> bool" where
  "excl_inv s \<longleftrightarrow> (\<forall>t. well (prog s t)) \<and>
     ((\<forall>t. \<not> drawing (prog s t) \<and> blocked s t = None) \<and> due s = 0 \<or>
      (\<exists>t. drawing (prog s t) \<and> owns s t \<and> (\<forall>u. u \<noteq> t \<longrightarrow> \<not> drawing (prog s u) \<and> blocked s u = None)))"

lemma excl_invE:
  assumes "excl_inv s" "drawing (prog s t)"
  shows "owns s t" "u \<noteq> t \<Longrightarrow> \<not> drawing (prog s u) \<and> blocked s u = None" "well (prog s u)"
  using assms unfolding excl_inv_def by metis+

lemma excl_invI:
  assumes "\<And>u. well (prog s u)" "drawing (prog s t) \<Longrightarrow> owns s t" "\<And>u. u \<noteq> t \<Longrightarrow> \<not> drawing (prog s u) \<and> blocked s u = None"
    and "\<not> drawing (prog s t) \<Longrightarrow> blocked s t = None \<and> due s = 0"
  shows "excl_inv s"
  using assms unfolding excl_inv_def by metis

lemma dstep_keeps:
  assumes "dstep s (Inr s')" "excl_inv s" "apart s'"
  shows "excl_inv s'"
  using assms(1)
proof (cases rule: dstep.cases)
  case (create t p)
  have w: "\<forall>u. well (prog s u)" using assms(2) by (simp add: excl_inv_def)
  hence p: "in_phase Between p" using create(2) by (metis well_Cons(2))
  have "\<not> drawing (prog s u)" for u
  proof (cases "u = t")
    case False
    have "drawing (prog s' t)" using create(1) in_phase_phase_of [OF p] by simp
    moreover have "prog s' u = prog s u" using create(1) False by simp
    ultimately show ?thesis using assms(3) False unfolding apart_def by metis
  qed (simp add: create(2))
  hence "\<forall>u. \<not> drawing (prog s u) \<and> blocked s u = None" "due s = 0" using assms(2) by (auto simp: excl_inv_def)
  note facts = this w p
  thus ?thesis
    using create facts by (intro excl_invI [where t = t]) (auto simp: owns_def in_phase_well in_phase_phase_of)
next
  case (draw t p)
  hence d: "drawing (prog s t)" by simp
  note E = excl_invE [OF assms(2) d]
  have p: "in_phase Transferring p" using E(3) [of t] draw by simp
  note facts = p in_phase_phase_of [OF p] in_phase_well [OF p]
  show ?thesis
    using draw E facts by (intro excl_invI [where t = t]) (auto simp: owns_def)
next
  case (wait t p)
  hence d: "drawing (prog s t)" by simp
  note E = excl_invE [OF assms(2) d]
  have p: "in_phase Between p" using E(3) [of t] wait by simp
  note facts = p in_phase_phase_of [OF p] in_phase_well [OF p]
  show ?thesis
    using wait E facts by (intro excl_invI [where t = t]) (auto simp: owns_def)
next
  case (take t p i)
  hence d: "drawing (prog s t)" by simp
  note E = excl_invE [OF assms(2) d]
  have p: "in_phase Between p" using E(3) [of t] take by simp
  note facts = p in_phase_phase_of [OF p] in_phase_well [OF p]
  show ?thesis
    using take E facts by (intro excl_invI [where t = t]) (auto simp: owns_def sem_at_def)
next
  case (delete t p i)
  hence d: "drawing (prog s t)" by simp
  note E = excl_invE [OF assms(2) d]
  have p: "in_phase Outside p" using E(3) [of t] delete by simp
  note facts = p in_phase_phase_of [OF p] in_phase_well [OF p]
  show ?thesis
    using delete E facts by (intro excl_invI [where t = t]) (auto simp: owns_def)
next
  case (interrupt i)
  then obtain t where t: "drawing (prog s t)" using assms(2) by (auto simp: excl_inv_def)
  note E = excl_invE [OF assms(2) t]
  show ?thesis
    using interrupt E t by (intro excl_invI [where t = t]) (auto simp: owns_def split: if_splits)
qed

lemma no_fault:
  assumes "excl_inv s"
  shows "\<not> dstep s (Inl e)"
proof
  assume "dstep s (Inl e)"
  thus False
  proof (cases rule: dstep.cases)
    case (wait_fault t p)
    hence "drawing (prog s t)" by simp
    from excl_invE(1) [OF assms this] show False using wait_fault by (auto simp: owns_def sem_at_def live_def)
  next
    case (take_fault t p i)
    hence "drawing (prog s t)" by simp
    from excl_invE(1) [OF assms this] show False using take_fault by (auto simp: owns_def sem_at_def live_def)
  next
    case (delete_fault t p)
    hence "drawing (prog s t)" by simp
    from excl_invE(1) [OF assms this] show False using delete_fault by (auto simp: owns_def sem_at_def live_def)
  next
    case interrupt_fault
    then obtain t where "drawing (prog s t)" using assms by (auto simp: excl_inv_def)
    from excl_invE(1) [OF assms this] show False
      using interrupt_fault by (auto simp: owns_def sem_at_def live_def split: if_splits)
  qed
qed

text \<open>While a task draws, it or the interrupt can go on; no other task begins to draw with that.\<close>

lemma apartI: "(\<And>u. u \<noteq> t \<Longrightarrow> \<not> drawing (prog s u)) \<Longrightarrow> apart s"
  by (metis apart_def)

lemma drawing_can_step:
  assumes "excl_inv s" "drawing (prog s t)"
  shows "\<exists>s'. dstep s (Inr s') \<and> apart s'"
proof -
  note E = excl_invE [OF assms]
  obtain i where i: "sem_handle s = Some i" "i < length (sems s)" using E(1) by (auto simp: owns_def)
  have others: "apart s'" if "\<And>u. u \<noteq> t \<Longrightarrow> prog s' u = prog s u" for s'
    using that E(2) by (intro apartI [of t]) simp
  consider p where "prog s t = Draw # p" | p where "prog s t = Take # p" | p where "prog s t = Delete # p"
    using assms(2) by (auto simp: phase_of_def split: list.splits dinstr.splits)
  thus ?thesis
  proof cases
    case 1
    show ?thesis by (rule exI, rule conjI, rule dstep.draw [OF 1], rule others) simp
  next
    case 2
    hence b: "blocked s t \<in> {None, Some i}" "due s = 1 \<and> sems s ! i = SemLive False \<or> due s = 0 \<and> sems s ! i = SemLive True"
      using E(1) i by (auto simp: owns_def)
    have l: "live (sem_at s (sem_handle s))" using b(2) i by (auto simp: sem_at_def live_def)
    consider "due s = 1" | "due s = 0" "blocked s t = None" | "due s = 0" "blocked s t = Some i" using b by auto
    thus ?thesis
    proof cases
      case irq: 1
      have "0 < due s" "live (sem_at s (Some i))" using irq l i(1) by simp_all
      show ?thesis by (rule exI, rule conjI, rule dstep.interrupt [OF \<open>0 < due s\<close> i(1) \<open>live (sem_at s (Some i))\<close>], rule others) simp
    next
      case wait: 2
      show ?thesis by (rule exI, rule conjI, rule dstep.wait [OF 2 wait(2) l], rule others) simp
    next
      case take: 3
      have "sem_at s (Some i) = SemLive True" using b(2) take(1) i by (auto simp: sem_at_def)
      show ?thesis by (rule exI, rule conjI, rule dstep.take [OF 2 take(2) \<open>sem_at s (Some i) = SemLive True\<close>], rule others) simp
    qed
  next
    case 3
    have "live (sem_at s (Some i))" using 3 E(1) i by (auto simp: owns_def sem_at_def live_def)
    show ?thesis by (rule exI, rule conjI, rule dstep.delete [OF 3 i(1) \<open>live (sem_at s (Some i))\<close>], rule others) simp
  qed
qed

lemma progress:
  assumes "excl_inv s" "\<not> finished s"
  shows "\<exists>s'. dstep s (Inr s') \<and> apart s'"
proof (cases "\<exists>t. drawing (prog s t)")
  case True
  thus ?thesis using drawing_can_step [OF assms(1)] by blast
next
  case False
  hence "due s = 0" using assms(1) by (auto simp: excl_inv_def)
  then obtain t where "prog s t \<noteq> []" using assms(2) by (auto simp: finished_def)
  moreover have "\<not> drawing (prog s t)" using False by blast
  ultimately obtain p where t: "prog s t = Create # p" by (cases "prog s t"; cases "hd (prog s t)") auto
  show ?thesis by (rule exI, rule conjI, rule dstep.create [OF t], rule apartI [of t]) (use False in simp)
qed
subsection \<open>Every run ends\<close>

primrec instr_work :: "dinstr \<Rightarrow> nat" where
  "instr_work Create = 1"
| "instr_work Draw = 2"
| "instr_work Take = 2"
| "instr_work Delete = 1"

definition task_work :: "dsys \<Rightarrow> task \<Rightarrow> nat" where
  "task_work s t = 2 * sum_list (map instr_work (prog s t)) - (if blocked s t = None then 0 else 1)"

definition work :: "dsys \<Rightarrow> nat" where
  "work s = (\<Sum>t\<in>UNIV. task_work s t) + due s"

text \<open>A step of one task lowers its own share by more than it adds to what is due.\<close>

lemma work_less:
  assumes "\<And>u. u \<noteq> t \<Longrightarrow> task_work s' u = task_work s u" "task_work s' t + due s' < task_work s t + due s"
  shows "work s' < work s"
proof -
  have "(\<Sum>u\<in>UNIV - {t}. task_work s' u) = (\<Sum>u\<in>UNIV - {t}. task_work s u)"
    by (rule sum.cong) (use assms(1) in auto)
  thus ?thesis
    using assms(2) by (simp add: work_def sum.remove [of UNIV t "task_work s"] sum.remove [of UNIV t "task_work s'"])
qed

lemma dstep_work:
  assumes "dstep s (Inr s')"
  shows "work s' < work s"
  using assms
proof (cases rule: dstep.cases)
  case (create t p)
  thus ?thesis by (intro work_less [where t = t]) (auto simp: task_work_def)
next
  case (draw t p)
  thus ?thesis by (intro work_less [where t = t]) (auto simp: task_work_def)
next
  case (wait t p)
  have "sem_handle s \<noteq> None" using wait(4) by (cases "sem_handle s") (simp_all add: live_def sem_at_def)
  thus ?thesis using wait by (intro work_less [where t = t]) (auto simp: task_work_def)
next
  case (take t p i)
  thus ?thesis by (intro work_less [where t = t]) (auto simp: task_work_def)
next
  case (delete t p i)
  thus ?thesis by (intro work_less [where t = t]) (auto simp: task_work_def)
next
  case (interrupt i)
  thus ?thesis by (simp add: work_def task_work_def)
qed

lemma dreach_work: "dreach s0 n s \<Longrightarrow> n + work s \<le> work s0"
  by (induction rule: dreach.induct) (auto dest!: dstep_work)

lemma serial_keeps: "serial s0 n s \<Longrightarrow> excl_inv s0 \<Longrightarrow> excl_inv s"
  by (induction rule: serial.induct) (auto dest: dstep_keeps)

lemma serial_reach: "serial s0 n s \<Longrightarrow> dreach s0 n s"
  by (induction rule: serial.induct) (auto intro: dreach.intros)

lemma dreach_trans:
  assumes "dreach s1 m s2" "dreach s0 n s1"
  shows "dreach s0 (n + m) s2"
  using assms by (induction rule: dreach.induct) (auto intro: dreach.step)

lemma dreach_one: "dstep s (Inr s') \<Longrightarrow> dreach s 1 s'"
  using dreach.step [OF dreach.start] by simp

subsection \<open>Runs\<close>

lemma sem_at_Some [simp]: "i < length (sems s) \<Longrightarrow> sem_at s (Some i) = sems s ! i"
  by (simp add: sem_at_def)

lemma sem_at_upd [simp]:
  "sem_at (s\<lparr>prog := f\<rparr>) h = sem_at s h" "sem_at (s\<lparr>due := d\<rparr>) h = sem_at s h"
  "sem_at (s\<lparr>blocked := b\<rparr>) h = sem_at s h"
  by (cases h; simp add: sem_at_def)+

lemma live_SemLive [simp]: "live (SemLive g)" "\<not> live SemDeleted" "\<not> live SemNull"
  by (simp_all add: live_def)

lemma interrupts_run:
  assumes "sem_handle s = Some i" "i < length (sems s)" "sems s ! i = SemLive g" "due s = Suc d"
  shows "dreach s (Suc d) (s\<lparr>sems := (sems s)[i := SemLive True], due := 0\<rparr>)"
  using assms
proof (induction d arbitrary: s g)
  case 0
  have "dstep s (Inr (s\<lparr>sems := (sems s)[i := SemLive True], due := due s - 1\<rparr>))"
    by (rule dstep.interrupt) (use 0 in simp_all)
  thus ?case using dreach_one 0 by fastforce
next
  case (Suc d)
  let ?s = "s\<lparr>sems := (sems s)[i := SemLive True], due := due s - 1\<rparr>"
  have "dstep s (Inr ?s)"
    by (rule dstep.interrupt) (use Suc.prems in simp_all)
  moreover have "dreach ?s (Suc d) (?s\<lparr>sems := (sems ?s)[i := SemLive True], due := 0\<rparr>)"
    by (rule Suc.IH [where g = True]) (use Suc.prems in simp_all)
  ultimately show ?case using dreach_trans [OF _ dreach_one] by fastforce
qed

text \<open>A transfer of a task that nobody disturbs, whatever interrupts were due before.\<close>

lemma transfer_run:
  assumes "prog s t = Draw # Take # p" "blocked s t = None" "sem_handle s = Some i" "i < length (sems s)"
    and "sems s ! i = SemLive g"
  shows "dreach s (due s + 4) (s\<lparr>prog := (prog s)(t := p), sems := (sems s)[i := SemLive False], due := 0\<rparr>)"
proof -
  define s1 where "s1 = s\<lparr>prog := (prog s)(t := Take # p), due := Suc (due s)\<rparr>"
  define s2 where "s2 = s1\<lparr>sems := (sems s1)[i := SemLive True], due := 0\<rparr>"
  define s3 where "s3 = s2\<lparr>blocked := (blocked s2)(t := Some i)\<rparr>"
  have 1: "dstep s (Inr s1)" unfolding s1_def by (rule dstep.draw) (rule assms(1))
  have 2: "dreach s1 (Suc (due s)) s2"
    unfolding s2_def by (rule interrupts_run) (use assms in \<open>simp_all add: s1_def\<close>)
  have 3: "dstep s2 (Inr s3)"
    using dstep.wait [of s2 t p] assms by (simp add: s3_def s2_def s1_def)
  have 4: "dstep s3 (Inr (s3\<lparr>prog := (prog s3)(t := p), blocked := (blocked s3)(t := None), sems := (sems s3)[i := SemLive False]\<rparr>))"
    by (rule dstep.take) (use assms in \<open>simp_all add: s3_def s2_def s1_def\<close>)
  have "s3\<lparr>prog := (prog s3)(t := p), blocked := (blocked s3)(t := None), sems := (sems s3)[i := SemLive False]\<rparr> =
      s\<lparr>prog := (prog s)(t := p), sems := (sems s)[i := SemLive False], due := 0\<rparr>"
    using assms(2) by (cases s) (simp add: s3_def s2_def s1_def fun_upd_idem)
  hence "dreach s3 1 (s\<lparr>prog := (prog s)(t := p), sems := (sems s)[i := SemLive False], due := 0\<rparr>)"
    using dreach_one [OF 4] by simp
  from dreach_trans [OF this dreach_trans [OF dreach_one [OF 3] dreach_trans [OF 2 dreach_one [OF 1]]]]
  show ?thesis by (simp add: eval_nat_numeral)
qed

lemma transfers_run:
  assumes "prog s t = transfers n @ p" "blocked s t = None" "sem_handle s = Some i" "i < length (sems s)"
    and "sems s ! i = SemLive False" "due s = 0"
  shows "dreach s (4 * n) (s\<lparr>prog := (prog s)(t := p)\<rparr>)"
  using assms
proof (induction n arbitrary: s)
  case 0
  hence "s\<lparr>prog := (prog s)(t := p)\<rparr> = s" by (cases s) (simp add: fun_upd_idem)
  thus ?case using dreach.start [of s] by (simp only: mult_0_right)
next
  case (Suc n)
  let ?s = "s\<lparr>prog := (prog s)(t := transfers n @ p)\<rparr>"
  have "s\<lparr>prog := (prog s)(t := transfers n @ p), sems := (sems s)[i := SemLive False], due := 0\<rparr> = ?s"
    using Suc.prems(5,6) list_update_id [of "sems s" i] by (cases s) simp
  hence 1: "dreach s 4 ?s"
    using transfer_run [of s t "transfers n @ p" i False] Suc.prems by simp
  have 2: "dreach ?s (4 * n) (?s\<lparr>prog := (prog ?s)(t := p)\<rparr>)"
    by (rule Suc.IH) (use Suc.prems in simp_all)
  have "?s\<lparr>prog := (prog ?s)(t := p)\<rparr> = s\<lparr>prog := (prog s)(t := p)\<rparr>" "4 + 4 * n = 4 * Suc n" by simp_all
  with dreach_trans [OF 2 1] show ?case by (simp only:)
qed

subsection \<open>The sequential functions are such steps\<close>

text \<open>
  The display module and the interleaved system agree: the static handle points to a semaphore in
  the same state, and a completion interrupt is pending in both or in neither.
\<close>

definition sem_sim :: "('d, 'a) lcd_state_scheme \<Rightarrow> dsys \<Rightarrow> bool" where
  "sem_sim st s \<longleftrightarrow> refresh_finish st = sem_at s (sem_handle s) \<and> due s = (if irq_pending (dev st) then 1 else 0)"

text \<open>The module's functions behind the steps; a transfer is one that the bus accepts.\<close>

definition seq_op :: "dinstr \<Rightarrow> ('d, 'a) lcd_state_scheme \<Rightarrow> ('d, 'a) lcd_state_scheme run" where
  "seq_op i st =
     (case i of
        Create \<Rightarrow> (let (ok, st) = create_refresh_finish st in if ok then Inr st else Inl Abort)
      | Draw \<Rightarrow> Inr (st\<lparr>dev := (dev st)\<lparr>irq_pending := True\<rparr>\<rparr>)
      | Take \<Rightarrow> take_refresh_finish st
      | Delete \<Rightarrow> if live (refresh_finish st) then Inr (delete_refresh_finish st) else Inl Undef)"

lemma sem_at_liveD: "sem_at s h = SemLive g \<Longrightarrow> \<exists>i. h = Some i \<and> i < length (sems s) \<and> sems s ! i = SemLive g"
  by (cases h) (auto simp: sem_at_def split: if_splits)

lemma take_run:
  assumes "prog s t = Take # p" "blocked s t = None" "sem_handle s = Some i" "i < length (sems s)" "sems s ! i = SemLive True"
  shows "dreach s 2 (s\<lparr>prog := (prog s)(t := p), sems := (sems s)[i := SemLive False]\<rparr>)"
proof -
  define s1 where "s1 = s\<lparr>blocked := (blocked s)(t := Some i)\<rparr>"
  have 1: "dstep s (Inr s1)" using dstep.wait [of s t p] assms by (simp add: s1_def)
  have 2: "dstep s1 (Inr (s1\<lparr>prog := (prog s1)(t := p), blocked := (blocked s1)(t := None), sems := (sems s1)[i := SemLive False]\<rparr>))"
    by (rule dstep.take) (use assms in \<open>simp_all add: s1_def\<close>)
  have "s1\<lparr>prog := (prog s1)(t := p), blocked := (blocked s1)(t := None), sems := (sems s1)[i := SemLive False]\<rparr> =
      s\<lparr>prog := (prog s)(t := p), sems := (sems s)[i := SemLive False]\<rparr>"
    using assms(2) by (cases s) (simp add: s1_def fun_upd_idem)
  thus ?thesis using dreach_trans [OF dreach_one [OF 2] dreach_one [OF 1]] by (simp add: eval_nat_numeral)
qed

lemma take_simulated:
  assumes "sem_sim st s" "prog s t = Take # p" "blocked s t = None" "take_refresh_finish st = Inr st'"
  shows "\<exists>n s'. dreach s n s' \<and> prog s' = (prog s)(t := p) \<and> blocked s' = blocked s \<and> sem_sim st' s'"
proof -
  obtain g where g: "refresh_finish st = SemLive g" and st': "st' = (if g then st\<lparr>refresh_finish := SemLive False\<rparr>
      else st\<lparr>dev := (dev st)\<lparr>irq_pending := False\<rparr>, refresh_finish := SemLive False\<rparr>)" "\<not> g \<longrightarrow> irq_pending (dev st)"
    using assms(4)
    by (auto simp: take_refresh_finish_def LcdTouch_NotifyRefreshReady_def split: sem.splits if_splits)
  obtain i where i: "sem_handle s = Some i" "i < length (sems s)" "sems s ! i = SemLive g"
    using sem_at_liveD [of s "sem_handle s" g] assms(1) g by (auto simp: sem_sim_def)
  show ?thesis
  proof (cases g)
    case True
    let ?s = "s\<lparr>prog := (prog s)(t := p), sems := (sems s)[i := SemLive False]\<rparr>"
    have "dreach s 2 ?s" by (rule take_run) (use assms(2,3) i True in simp_all)
    moreover have "sem_sim st' ?s" using assms(1) i st'(1) True by (simp add: sem_sim_def)
    ultimately show ?thesis by fastforce
  next
    case False
    define s1 where "s1 = s\<lparr>sems := (sems s)[i := SemLive True], due := 0\<rparr>"
    let ?s = "s1\<lparr>prog := (prog s1)(t := p), sems := (sems s1)[i := SemLive False]\<rparr>"
    have "due s = Suc 0" using assms(1) st'(2) False by (simp add: sem_sim_def)
    hence 1: "dreach s (Suc 0) s1" unfolding s1_def using interrupts_run [OF i] by simp
    have 2: "dreach s1 2 ?s" by (rule take_run) (use assms(2,3) i in \<open>simp_all add: s1_def\<close>)
    have "sem_sim st' ?s" using i st'(1) False by (simp add: sem_sim_def s1_def)
    moreover have "prog ?s = (prog s)(t := p)" "blocked ?s = blocked s" by (simp_all add: s1_def)
    ultimately show ?thesis using dreach_trans [OF 2 1] by blast
  qed
qed

lemma seq_op_simulated:
  assumes "sem_sim st s" "prog s t = i # p" "blocked s t = None" "i = Draw \<longrightarrow> \<not> irq_pending (dev st)" "seq_op i st = Inr st'"
  shows "\<exists>n s'. dreach s n s' \<and> prog s' = (prog s)(t := p) \<and> blocked s' = blocked s \<and> sem_sim st' s'"
proof (cases i)
  case Create
  let ?s = "s\<lparr>prog := (prog s)(t := p), sems := sems s @ [SemLive False], sem_handle := Some (length (sems s))\<rparr>"
  have "dstep s (Inr ?s)" by (rule dstep.create) (use assms(2) Create in simp_all)
  moreover have "sem_sim st' ?s"
    using assms(1,5) Create
    by (auto simp: sem_sim_def seq_op_def create_refresh_finish_def sem_create_def Let_def split: if_splits)
  ultimately show ?thesis using dreach_one by fastforce
next
  case Draw
  let ?s = "s\<lparr>prog := (prog s)(t := p), due := Suc (due s)\<rparr>"
  have "dstep s (Inr ?s)" by (rule dstep.draw) (use assms(2) Draw in simp)
  moreover have "sem_sim st' ?s"
    using assms(1,4,5) Draw by (auto simp: sem_sim_def seq_op_def)
  ultimately show ?thesis using dreach_one by fastforce
next
  case Take
  thus ?thesis using take_simulated [OF assms(1) _ assms(3)] assms(2,5) by (simp add: seq_op_def)
next
  case Delete
  then obtain g where g: "refresh_finish st = SemLive g" "st' = delete_refresh_finish st"
    using assms(5) by (auto simp: seq_op_def live_def split: if_splits)
  obtain k where k: "sem_handle s = Some k" "k < length (sems s)" "sems s ! k = SemLive g"
    using sem_at_liveD [of s "sem_handle s" g] assms(1) g(1) by (auto simp: sem_sim_def)
  let ?s = "s\<lparr>prog := (prog s)(t := p), sems := (sems s)[k := SemDeleted]\<rparr>"
  have "dstep s (Inr ?s)" by (rule dstep.delete) (use assms(2) Delete k in simp_all)
  moreover have "sem_sim st' ?s" using assms(1) g k by (simp add: sem_sim_def delete_refresh_finish_def)
  ultimately show ?thesis using dreach_one by fastforce
qed

lemma seq_op_fault:
  assumes "sem_sim st s" "prog s t = i # p" "blocked s t = None" "seq_op i st = Inl Undef"
  shows "dstep s (Inl Undef)"
proof -
  have nl: "\<not> live (sem_at s (sem_handle s))"
    using assms(1,4)
    by (auto simp: sem_sim_def seq_op_def live_def take_refresh_finish_def LcdTouch_NotifyRefreshReady_def
        create_refresh_finish_def Let_def split: dinstr.splits sem.splits if_splits prod.splits)
  have "i = Take \<or> i = Delete"
    using assms(4) by (cases i) (auto simp: seq_op_def Let_def split: prod.splits if_splits)
  thus ?thesis using nl assms(2,3) dstep.wait_fault dstep.delete_fault by metis
qed

subsection \<open>Properties\<close>

text \<open>
  The drawing functions, run by one task, are runs of the interleaved system: each of the
  module's semaphore operations that returns is a number of steps after which the task's program is
  one instruction shorter and the two states agree again, and each that accesses a semaphore that is
  not there is a step that does.
\<close>

lemma semaphore_operations_are_steps:
  assumes "sem_sim st s" "prog s t = i # p" "blocked s t = None" "i = Draw \<longrightarrow> \<not> irq_pending (dev st)"
  shows "(\<forall>st'. seq_op i st = Inr st' \<longrightarrow>
      (\<exists>n s'. dreach s n s' \<and> prog s' = (prog s)(t := p) \<and> blocked s' = blocked s \<and> sem_sim st' s')) \<and>
    (seq_op i st = Inl Undef \<longrightarrow> dstep s (Inl Undef))"
  using seq_op_simulated [OF assms] seq_op_fault [OF assms(1-3)] by blast

text \<open>The main task is about to clear the screen, the display task to draw a character of \<open>h\<close> rows.\<close>

definition two_drawings :: "nat \<Rightarrow> dsys" where
  "two_drawings h = \<lparr>prog = (\<lambda>_. [])(MainTask := fill_program, LcdTouchTask := image_program h),
     blocked = (\<lambda>_. None), sems = [], sem_handle = None, due = 0\<rparr>"

text \<open>One drawing by one task, nobody else near, of \<open>n\<close> transfers: the semaphore ends up deleted.\<close>

lemma section_run:
  assumes "prog s t = image_program n @ p" "blocked s t = None" "due s = 0"
  shows "dreach s (4 * n + 2) (s\<lparr>prog := (prog s)(t := p), sems := sems s @ [SemDeleted], sem_handle := Some (length (sems s))\<rparr>)"
proof -
  define s1 where "s1 = s\<lparr>prog := (prog s)(t := transfers n @ Delete # p), sems := sems s @ [SemLive False], sem_handle := Some (length (sems s))\<rparr>"
  define s2 where "s2 = s1\<lparr>prog := (prog s1)(t := Delete # p)\<rparr>"
  have 1: "dstep s (Inr s1)"
    unfolding s1_def by (rule dstep.create) (use assms(1) in \<open>simp_all add: image_program_def\<close>)
  have 2: "dreach s1 (4 * n) s2"
    unfolding s2_def by (rule transfers_run [where i = "length (sems s)"]) (use assms in \<open>simp_all add: s1_def\<close>)
  have 3: "dstep s2 (Inr (s2\<lparr>prog := (prog s2)(t := p), sems := (sems s2)[length (sems s) := SemDeleted]\<rparr>))"
    by (rule dstep.delete) (simp_all add: s2_def s1_def)
  have "s2\<lparr>prog := (prog s2)(t := p), sems := (sems s2)[length (sems s) := SemDeleted]\<rparr> =
      s\<lparr>prog := (prog s)(t := p), sems := sems s @ [SemDeleted], sem_handle := Some (length (sems s))\<rparr>"
    by (simp add: s2_def s1_def)
  hence "dreach s2 1 (s\<lparr>prog := (prog s)(t := p), sems := sems s @ [SemDeleted], sem_handle := Some (length (sems s))\<rparr>)"
    using dreach_one [OF 3] by simp
  from dreach_trans [OF this dreach_trans [OF 2 dreach_one [OF 1]]] show ?thesis by simp
qed

text \<open>
  C10. Drawings that do not overlap in time are safe, without any lock. Take any number of tasks, each with a
  sequence of drawings, and any run of the code's steps in which never two tasks are inside a drawing; the
  completion interrupts come whenever they like. The run has at most \<open>work\<close> steps; no step that is possible after
  it touches a semaphore that is not there; and either all drawings are finished and all interrupts
  served, or the run can go on, so that no task waits for ever.
\<close>

theorem serial_drawings_safe:
  assumes "\<And>t. \<exists>ns. prog s0 t = concat (map image_program ns)" "\<And>t. blocked s0 t = None" "due s0 = 0"
    and "serial s0 n s"
  shows "n \<le> work s0 \<and> \<not> dstep s (Inl e) \<and> (finished s \<or> (\<exists>s'. serial s0 (Suc n) s'))"
proof -
  have seq: "in_phase Outside (concat (map image_program ns))" for ns
    by (induction ns) (simp_all add: image_program_in_phase)
  have out: "in_phase Outside (prog s0 t)" for t using assms(1) [of t] seq by auto
  have "excl_inv s0"
    using assms(2,3) in_phase_well [OF out] in_phase_phase_of [OF out] by (simp add: excl_inv_def)
  hence inv: "excl_inv s" using serial_keeps [OF assms(4)] by simp
  have "n \<le> work s0" using dreach_work [OF serial_reach [OF assms(4)]] by simp
  moreover have "finished s \<or> (\<exists>s'. serial s0 (Suc n) s')" using progress [OF inv] assms(4) serial.step by blast
  ultimately show ?thesis using no_fault [OF inv] by blast
qed

text \<open>A task that draws while no other has anything to draw runs alone. Here two characters of 20 rows.\<close>

lemma solo_serial:
  assumes "dreach s0 n s" "\<And>u. u \<noteq> t \<Longrightarrow> prog s0 u = []"
  shows "serial s0 n s \<and> (\<forall>u. u \<noteq> t \<longrightarrow> prog s u = [])"
  using assms(1)
proof (induction rule: dreach.induct)
  case start
  thus ?case using assms(2) by (auto intro!: serial.start apartI [of t])
next
  case (step n s s')
  have "\<forall>u. u \<noteq> t \<longrightarrow> prog s' u = []" using step(2,3) by (auto elim!: dstep_okE)
  thus ?case using step(2,3) by (auto intro!: serial.step apartI [of t])
qed

definition two_characters :: dsys where
  "two_characters = \<lparr>prog = (\<lambda>_. [])(LcdTouchTask := image_program 20 @ image_program 20),
     blocked = (\<lambda>_. None), sems = [], sem_handle = None, due = 0\<rparr>"

theorem serial_drawings_safe_witness:
  "\<exists>s. serial two_characters 164 s \<and> finished s \<and> 164 \<le> work two_characters \<and> \<not> dstep s (Inl Undef)"
proof -
  define s1 where "s1 = two_characters\<lparr>prog := (prog two_characters)(LcdTouchTask := image_program 20),
    sems := [SemDeleted], sem_handle := Some 0\<rparr>"
  define s2 where "s2 = s1\<lparr>prog := (prog s1)(LcdTouchTask := []), sems := [SemDeleted, SemDeleted], sem_handle := Some 1\<rparr>"
  have 1: "dreach two_characters 82 s1"
    using section_run [of two_characters LcdTouchTask 20 "image_program 20"] by (simp add: two_characters_def s1_def)
  have 2: "dreach s1 82 s2"
    using section_run [of s1 LcdTouchTask 20 "[]"] by (simp add: two_characters_def s1_def s2_def)
  have "dreach two_characters 164 s2" using dreach_trans [OF 2 1] by simp
  hence run: "serial two_characters 164 s2" using solo_serial [of two_characters 164 s2 LcdTouchTask] by (simp add: two_characters_def)
  have "\<exists>ns. prog two_characters t = concat (map image_program ns)" for t
  proof -
    have "prog two_characters t = concat (map image_program (if t = LcdTouchTask then [20, 20] else []))"
      by (simp add: two_characters_def)
    thus ?thesis by blast
  qed
  from serial_drawings_safe [OF this _ _ run, of Undef] run show ?thesis
    by (auto simp: two_characters_def s1_def s2_def finished_def)
qed

lemma collision_fault:
  assumes "prog s MainTask = Create # Draw # p" "prog s LcdTouchTask = image_program n @ q" "blocked s LcdTouchTask = None" "due s = 0"
  shows "\<exists>k s'. dreach s k s' \<and> dstep s' (Inl Undef)"
proof -
  define s1 where "s1 = s\<lparr>prog := (prog s)(MainTask := Draw # p), sems := sems s @ [SemLive False], sem_handle := Some (length (sems s))\<rparr>"
  define s2 where "s2 = s1\<lparr>prog := (prog s1)(LcdTouchTask := q), sems := sems s1 @ [SemDeleted], sem_handle := Some (length (sems s1))\<rparr>"
  define s3 where "s3 = s2\<lparr>prog := (prog s2)(MainTask := p), due := Suc (due s2)\<rparr>"
  have 1: "dstep s (Inr s1)" unfolding s1_def by (rule dstep.create) (use assms(1) in simp_all)
  have 2: "dreach s1 (4 * n + 2) s2"
    unfolding s2_def by (rule section_run) (use assms in \<open>simp_all add: s1_def\<close>)
  have 3: "dstep s2 (Inr s3)" unfolding s3_def by (rule dstep.draw) (simp add: s2_def s1_def)
  have "dstep s3 (Inl Undef)" by (rule dstep.interrupt_fault) (simp_all add: s3_def s2_def sem_at_def)
  thus ?thesis using dreach_trans [OF dreach_one [OF 3] dreach_trans [OF 2 dreach_one [OF 1]]] by blast
qed

lemma collision_deadlock:
  assumes "prog s = (\<lambda>_. [])(MainTask := image_program (Suc m), LcdTouchTask := image_program (Suc n))" "blocked s = (\<lambda>_. None)"
    and "sems s = []" "due s = 0"
  shows "\<exists>k s'. dreach s k s' \<and> stuck s' \<and> \<not> finished s'"
proof -
  let ?q = "Take # transfers n @ [Delete]"
  define s1 where "s1 = s\<lparr>prog := (prog s)(LcdTouchTask := Draw # ?q), sems := [SemLive False], sem_handle := Some 0\<rparr>"
  define s2 where "s2 = s1\<lparr>prog := (prog s1)(LcdTouchTask := ?q), due := 1\<rparr>"
  define s3 where "s3 = s2\<lparr>blocked := (blocked s2)(LcdTouchTask := Some 0)\<rparr>"
  define s4 where "s4 = s3\<lparr>prog := (prog s3)(MainTask := transfers (Suc m) @ [Delete]), sems := [SemLive False, SemLive False], sem_handle := Some 1\<rparr>"
  define s5 where "s5 = s4\<lparr>prog := (prog s4)(MainTask := transfers m @ [Delete]), due := 0\<rparr>"
  define s6 where "s6 = s5\<lparr>prog := (prog s5)(MainTask := [Delete])\<rparr>"
  define s7 where "s7 = s6\<lparr>prog := (prog s6)(MainTask := []), sems := [SemLive False, SemDeleted]\<rparr>"
  have 1: "dstep s (Inr s1)"
    using dstep.create [of s LcdTouchTask "Draw # ?q"] assms by (simp add: s1_def image_program_def)
  have 2: "dstep s1 (Inr s2)"
    using dstep.draw [of s1 LcdTouchTask ?q] assms by (simp add: s2_def s1_def)
  have 3: "dstep s2 (Inr s3)"
    using dstep.wait [of s2 LcdTouchTask "transfers n @ [Delete]"] assms by (simp add: s3_def s2_def s1_def)
  have 4: "dstep s3 (Inr s4)"
    using dstep.create [of s3 MainTask "transfers (Suc m) @ [Delete]"] assms
    by (simp add: s4_def s3_def s2_def s1_def image_program_def)
  have 5: "dreach s4 5 s5"
    using transfer_run [of s4 MainTask "transfers m @ [Delete]" 1 False] assms
    by (cases s) (simp add: s5_def s4_def s3_def s2_def s1_def)
  have 6: "dreach s5 (4 * m) s6"
    unfolding s6_def by (rule transfers_run [where i = 1]) (use assms in \<open>simp_all add: s5_def s4_def s3_def s2_def s1_def\<close>)
  have 7: "dstep s6 (Inr s7)"
    using dstep.delete [of s6 MainTask "[]" 1] assms
    by (simp add: s7_def s6_def s5_def s4_def s3_def s2_def s1_def)
  have state: "prog s7 = (\<lambda>_. [])(LcdTouchTask := ?q)" "blocked s7 = (\<lambda>_. None)(LcdTouchTask := Some 0)"
    "sems s7 = [SemLive False, SemDeleted]" "due s7 = 0"
    using assms by (auto simp: s7_def s6_def s5_def s4_def s3_def s2_def s1_def)
  have "stuck s7"
    unfolding stuck_def by (auto simp: state sem_at_def split: if_splits elim!: dstepE)
  moreover have "\<not> finished s7" by (auto simp: finished_def state)
  ultimately show ?thesis
    using dreach_trans [OF dreach_one [OF 7] dreach_trans [OF 6 dreach_trans [OF 5 dreach_trans [OF dreach_one [OF 4]
      dreach_trans [OF dreach_one [OF 3] dreach_trans [OF dreach_one [OF 2] dreach_one [OF 1]]]]]]] by blast
qed

text \<open>
  C9. Nothing in the code makes drawings exclude each other, and then they do not work. When the main
  task clears the screen while the display task draws a character, there is an order of their steps in
  which a completion interrupt gives a deleted semaphore, and another in which the display task waits
  for ever on a semaphore that nobody will give again.
\<close>

theorem concurrent_drawings_collide:
  "(\<exists>k s. dreach (two_drawings (Suc n)) k s \<and> dstep s (Inl Undef)) \<and>
   (\<exists>k s. dreach (two_drawings (Suc n)) k s \<and> stuck s \<and> \<not> finished s)"
proof -
  let ?s = "two_drawings (Suc n)"
  have "prog ?s = (\<lambda>_. [])(MainTask := image_program (Suc 15), LcdTouchTask := image_program (Suc n))"
    by (simp add: two_drawings_def fill_program_eq)
  moreover have "prog ?s MainTask = Create # Draw # Take # transfers 15 @ [Delete]"
    using transfers.simps(2) [of 15] by (simp add: two_drawings_def fill_program_eq image_program_def)
  moreover have "prog ?s LcdTouchTask = image_program (Suc n) @ []" by (simp add: two_drawings_def)
  ultimately show ?thesis
    using collision_fault [of ?s "Take # transfers 15 @ [Delete]" "Suc n" "[]"] collision_deadlock [of ?s 15 n]
    by (simp add: two_drawings_def)
qed

end
