(* ===== verification/Board.thy ===== *)
theory Board
  imports Lcd_Touch
begin

text \<open>
  \<open>components/my_board\<close>: the board object (\<open>board.c\<close>), the pin tables the audio framework asks for
  (\<open>board_pins_config.c\<close>) and the codec driver that does nothing (\<open>new_codec.c\<close>).
\<close>

subsection \<open>The pin tables\<close>

record i2c_pins =
  sda_io_num :: int
  scl_io_num :: int

record i2s_pins =
  mck_io_num :: int
  bck_io_num :: int
  ws_io_num :: int
  data_out_num :: int
  data_in_num :: int

record spi_pins =
  mosi_io_num :: int
  miso_io_num :: int
  sclk_io_num :: int
  quadwp_io_num :: int
  quadhd_io_num :: int

text \<open>\<open>None\<close> is the null pointer; otherwise the structure is written.\<close>

definition get_i2c_pins :: "int \<Rightarrow> i2c_pins option \<Rightarrow> esp_err_t \<times> i2c_pins option" where
  "get_i2c_pins port i2c_config =
     (case i2c_config of
        None \<Rightarrow> (ESP_FAIL, None)
      | Some c \<Rightarrow>
          if port = 0 \<or> port = 1 then (ESP_OK, Some (c\<lparr>sda_io_num := 18, scl_io_num := 23\<rparr>))
          else (ESP_FAIL, Some (c\<lparr>sda_io_num := - 1, scl_io_num := - 1\<rparr>)))"

definition get_i2s_pins :: "int \<Rightarrow> i2s_pins option \<Rightarrow> esp_err_t \<times> i2s_pins option" where
  "get_i2s_pins port i2s_config =
     (case i2s_config of
        None \<Rightarrow> (ESP_FAIL, None)
      | Some c \<Rightarrow>
          if port = 0 then
            (ESP_OK, Some (c\<lparr>mck_io_num := 0, bck_io_num := 4, ws_io_num := 5, data_out_num := 18, data_in_num := 39\<rparr>))
          else if port = 1 then
            (ESP_OK, Some (c\<lparr>bck_io_num := - 1, ws_io_num := - 1, data_out_num := - 1, data_in_num := - 1\<rparr>))
          else
            (ESP_FAIL, Some \<lparr>mck_io_num = - 1, bck_io_num = - 1, ws_io_num = - 1, data_out_num = - 1, data_in_num = - 1\<rparr>))"

definition get_spi_pins :: "spi_pins option \<Rightarrow> int option \<Rightarrow> esp_err_t \<times> spi_pins option \<times> int option" where
  "get_spi_pins spi_config spics_io_num =
     (if spi_config = None \<or> spics_io_num = None then (ESP_FAIL, spi_config, spics_io_num)
      else (ESP_OK, Some \<lparr>mosi_io_num = - 1, miso_io_num = - 1, sclk_io_num = - 1, quadwp_io_num = - 1, quadhd_io_num = - 1\<rparr>,
            Some (- 1)))"

definition get_sdcard_intr_gpio :: int where "get_sdcard_intr_gpio = 9"
definition get_sdcard_open_file_num_max :: int where "get_sdcard_open_file_num_max = 5"
definition get_input_volup_id :: int where "get_input_volup_id = 0"
definition get_input_voldown_id :: int where "get_input_voldown_id = 1"
definition get_pa_enable_gpio :: int where "get_pa_enable_gpio = 6"
definition get_input_mode_id :: int where "get_input_mode_id = 4"
definition get_input_set_id :: int where "get_input_set_id = 3"
definition get_input_play_id :: int where "get_input_play_id = 5"
definition get_input_mute_id :: int where "get_input_mute_id = 2"

subsection \<open>The codec driver\<close>

text \<open>Every function succeeds without doing anything; the flag is never set, the volume never stored.\<close>

definition new_codec_initialized :: "bool \<Rightarrow> bool" where "new_codec_initialized codec_init_flag = codec_init_flag"
definition new_codec_init :: "'c \<Rightarrow> esp_err_t" where "new_codec_init cfg = ESP_OK"
definition new_codec_deinit :: esp_err_t where "new_codec_deinit = ESP_OK"
definition new_codec_ctrl_state :: "'m \<Rightarrow> 's \<Rightarrow> esp_err_t" where "new_codec_ctrl_state mode ctrl_state = ESP_OK"
definition new_codec_config_i2s :: "'m \<Rightarrow> 'i \<Rightarrow> esp_err_t" where "new_codec_config_i2s mode iface = ESP_OK"
definition new_codec_set_voice_mute :: "bool \<Rightarrow> esp_err_t" where "new_codec_set_voice_mute mute = ESP_OK"
definition new_codec_set_voice_volume :: "int \<Rightarrow> esp_err_t" where "new_codec_set_voice_volume volume = ESP_OK"

definition new_codec_get_voice_volume :: "int option \<Rightarrow> esp_err_t \<times> int option" where
  "new_codec_get_voice_volume volume = (ESP_OK, volume)"

subsection \<open>The board object\<close>

text \<open>
  The calls into the audio framework, each with its answer as a parameter: the handle a constructor
  gives (\<open>None\<close> is null), the result of a call, and whether the card is mounted at the \<open>n\<close>th poll.
\<close>

datatype board_call =
    BoardAlloc nat
  | BoardFree nat
  | HalInit
  | HalDeinit "nat option"
  | ButtonInit nat
  | SdcardInit int
  | PeriphStart "nat option"

text \<open>The live board objects map their address to the codec handle stored in them.\<close>

record board_state =
  board_log :: "board_call list"
  board_handle :: "nat option"
  board_objects :: "nat \<Rightarrow> nat option option"
  alloc_ok :: "nat \<Rightarrow> bool"
  handle_ret :: "nat \<Rightarrow> nat option"
  err_ret :: "nat \<Rightarrow> esp_err_t"
  card_mounted :: "nat \<Rightarrow> bool"

definition board_do :: "board_call \<Rightarrow> board_state \<Rightarrow> board_state" where
  "board_do c b = b\<lparr>board_log := board_log b @ [c]\<rparr>"




text \<open>\<open>while (!periph_sdcard_is_mounted (...)) vTaskDelay (...)\<close>: the number of the poll that ends it, if one does.\<close>

partial_function (option) wait_mounted :: "(nat \<Rightarrow> bool) \<Rightarrow> nat \<Rightarrow> nat option" where
  [code]: "wait_mounted mounted n = (if mounted n then Some n else wait_mounted mounted (Suc n))"

definition audio_board_sdcard_init :: "board_state \<Rightarrow> (esp_err_t \<times> board_state) option" where
  "audio_board_sdcard_init b =
     (let sdcard_handle = handle_ret b (length (board_log b));
          b = board_do (SdcardInit get_sdcard_intr_gpio) b;
          ret = err_ret b (length (board_log b));
          b = board_do (PeriphStart sdcard_handle) b in
      case wait_mounted (card_mounted b) 0 of None \<Rightarrow> None | Some _ \<Rightarrow> Some (ret, b))"



subsection \<open>Lemmas\<close>

lemma wait_mounted_returns:
  "mounted (n + k) \<Longrightarrow> (\<And>j. j < k \<Longrightarrow> \<not> mounted (n + j)) \<Longrightarrow> wait_mounted mounted n = Some (n + k)"
proof (induction k arbitrary: n)
  case (Suc k)
  have "\<not> mounted n" using Suc.prems(2) [of 0] by simp
  moreover have "wait_mounted mounted (Suc n) = Some (Suc n + k)"
    by (rule Suc.IH) (use Suc.prems(1) Suc.prems(2) [of "Suc j" for j] in simp_all)
  ultimately show ?case by (simp add: wait_mounted.simps [of mounted n])
qed (simp add: wait_mounted.simps)

lemma wait_mounted_mounted: "wait_mounted mounted n = Some m \<Longrightarrow> mounted m"
  by (erule wait_mounted.raw_induct [rotated, where P = "\<lambda>mounted n m. mounted m"]) (auto split: if_splits)

lemma wait_mounted_first:
  assumes "mounted m"
  shows "wait_mounted mounted 0 = Some (LEAST k. mounted k)"
proof -
  have 1: "mounted (0 + (LEAST k. mounted k))" using LeastI [of mounted m] assms by simp
  have 2: "\<not> mounted (0 + j)" if "j < (LEAST k. mounted k)" for j using not_less_Least [OF that] by simp
  show ?thesis using wait_mounted_returns [of mounted, OF 1 2] by simp
qed






subsection \<open>Properties\<close>




text \<open>
  \<open>audio_board_sdcard_init\<close> returns exactly when the card is mounted at some poll, with the result of
  starting the peripheral; without a card it polls for ever.
\<close>

lemma sdcard_init_returns_iff_mounted:
  "(\<exists>r. audio_board_sdcard_init b = Some r) = (\<exists>n. card_mounted b n) \<and>
   fst (the (audio_board_sdcard_init (b\<lparr>card_mounted := (\<lambda>n. n = k)\<rparr>))) = err_ret b (length (board_log b) + 1)"
proof -
  have "(\<exists>r. audio_board_sdcard_init b = Some r) = (wait_mounted (card_mounted b) 0 \<noteq> None)"
    by (auto simp: audio_board_sdcard_init_def board_do_def Let_def split: option.splits)
  also have "\<dots> = (\<exists>n. card_mounted b n)"
    using wait_mounted_mounted [of "card_mounted b" 0] wait_mounted_first [of "card_mounted b"] by fastforce
  finally show ?thesis
    using wait_mounted_first [of "\<lambda>n. n = k" k] by (simp add: audio_board_sdcard_init_def board_do_def Let_def)
qed

end
