(* ===== verification/Jsmn.thy ===== *)
theory Jsmn
  imports TV_Prelude
begin

text \<open>
  The JSON tokenizer \<open>jsmn.h\<close>, with the options of its \<open>Kconfig\<close> at their defaults: neither
  \<open>JSMN_STRICT\<close> nor \<open>JSMN_PARENT_LINKS\<close>. The text is the list of its bytes, \<open>len\<close> the length the
  caller passes; the token array is a list, or \<open>None\<close> for a null pointer, and \<open>num_tokens\<close> the number
  of tokens the caller offers of it.

  The positions and indices are natural numbers: \<open>pos\<close> is only incremented below \<open>len\<close> and \<open>toknext\<close>
  only below \<open>num_tokens\<close>, so that no increment wraps around, and an array of the ESP32's memory has
  fewer than \<open>2 ^ 31\<close> elements, so that they fit in the \<open>int\<close> fields of a token.
\<close>

subsection \<open>Data\<close>

datatype jsmntype = JSMN_UNDEFINED | JSMN_OBJECT | JSMN_ARRAY | JSMN_STRING | JSMN_PRIMITIVE

definition JSMN_ERROR_NOMEM :: int where "JSMN_ERROR_NOMEM = - 1"
definition JSMN_ERROR_INVAL :: int where "JSMN_ERROR_INVAL = - 2"
definition JSMN_ERROR_PART :: int where "JSMN_ERROR_PART = - 3"

lemmas jsmnerr_defs = JSMN_ERROR_NOMEM_def JSMN_ERROR_INVAL_def JSMN_ERROR_PART_def

record jsmntok =
  tok_type :: jsmntype
  tok_start :: int
  tok_end :: int
  tok_size :: int

record jsmn_parser =
  jp_pos :: nat
  jp_toknext :: nat
  jp_toksuper :: int

text \<open>The parser together with the caller's token array, on which the functions work.\<close>

record jsmn_state = jsmn_parser +
  jp_tokens :: "jsmntok list option"

text \<open>The characters the code names.\<close>

abbreviation "ch_quote \<equiv> 0x22 :: byte"
abbreviation "ch_comma \<equiv> 0x2C :: byte"
abbreviation "ch_colon \<equiv> 0x3A :: byte"
abbreviation "ch_lbracket \<equiv> 0x5B :: byte"
abbreviation "ch_backslash \<equiv> 0x5C :: byte"
abbreviation "ch_rbracket \<equiv> 0x5D :: byte"
abbreviation "ch_u \<equiv> 0x75 :: byte"
abbreviation "ch_lbrace \<equiv> 0x7B :: byte"
abbreviation "ch_rbrace \<equiv> 0x7D :: byte"

text \<open>Tab, carriage return, line feed and space.\<close>

definition blank :: "byte \<Rightarrow> bool" where
  "blank c \<longleftrightarrow> c = 9 \<or> c = 13 \<or> c = 10 \<or> c = 32"

subsection \<open>Tokens\<close>

text \<open>Writing to a token of the array.\<close>

definition with_token :: "int \<Rightarrow> (jsmntok \<Rightarrow> jsmntok) \<Rightarrow> jsmn_state \<Rightarrow> jsmn_state run" where
  "with_token i f st =
     (case jp_tokens st of
        None \<Rightarrow> Inl Undef
      | Some ts \<Rightarrow>
          if 0 \<le> i \<and> nat i < length ts then Inr (st\<lparr>jp_tokens := Some (ts[nat i := f (ts ! nat i)])\<rparr>)
          else Inl Undef)"

definition jsmn_alloc_token :: "nat \<Rightarrow> jsmn_state \<Rightarrow> (int option \<times> jsmn_state) run" where
  "jsmn_alloc_token num_tokens st =
     (if num_tokens \<le> jp_toknext st then Inr (None, st)
      else
        let tok = int (jp_toknext st); st = st\<lparr>jp_toknext := jp_toknext st + 1\<rparr> in
        bindR (with_token tok (\<lambda>t. t\<lparr>tok_start := - 1, tok_end := - 1, tok_size := 0\<rparr>) st) (\<lambda>st.
        Inr (Some tok, st)))"

definition jsmn_fill_token :: "int \<Rightarrow> jsmntype \<Rightarrow> nat \<Rightarrow> nat \<Rightarrow> jsmn_state \<Rightarrow> jsmn_state run" where
  "jsmn_fill_token tok ty s e =
     with_token tok (\<lambda>t. t\<lparr>tok_type := ty, tok_start := int s, tok_end := int e, tok_size := 0\<rparr>)"

subsection \<open>Primitives\<close>

text \<open>The characters that end a primitive.\<close>

definition ends_primitive :: "byte \<Rightarrow> bool" where
  "ends_primitive c \<longleftrightarrow> c = ch_colon \<or> blank c \<or> c = ch_comma \<or> c = ch_rbracket \<or> c = ch_rbrace"

text \<open>The loop over a primitive: \<open>Some\<close> position at \<open>found\<close>, \<open>None\<close> at an invalid character.\<close>

function primitive_loop :: "byte list \<Rightarrow> nat \<Rightarrow> nat \<Rightarrow> nat option run" where
  "primitive_loop js len pos =
     (if pos < len then
        bindR (c_read js pos) (\<lambda>c.
        if c = 0 \<or> ends_primitive c then Inr (Some pos)
        else if c < 32 \<or> 127 \<le> c then Inr None
        else primitive_loop js len (pos + 1))
      else Inr (Some pos))"
  by pat_completeness auto
termination by (relation "measure (\<lambda>(js, len, pos). len - pos)") auto

definition jsmn_parse_primitive :: "byte list \<Rightarrow> nat \<Rightarrow> nat \<Rightarrow> jsmn_state \<Rightarrow> (int \<times> jsmn_state) run" where
  "jsmn_parse_primitive js len num_tokens st =
     (let start = jp_pos st in
      bindR (primitive_loop js len start) (\<lambda>r. case r of
        None \<Rightarrow> Inr (JSMN_ERROR_INVAL, st\<lparr>jp_pos := start\<rparr>)
      | Some p \<Rightarrow>
          let st = st\<lparr>jp_pos := p\<rparr> in
          if jp_tokens st = None then Inr (0, st\<lparr>jp_pos := p - 1\<rparr>)
          else
            bindR (jsmn_alloc_token num_tokens st) (\<lambda>(token, st). case token of
              None \<Rightarrow> Inr (JSMN_ERROR_NOMEM, st\<lparr>jp_pos := start\<rparr>)
            | Some token \<Rightarrow>
                bindR (jsmn_fill_token token JSMN_PRIMITIVE start p st) (\<lambda>st.
                Inr (0, st\<lparr>jp_pos := p - 1\<rparr>)))))"

subsection \<open>Strings\<close>

definition hex_digit :: "byte \<Rightarrow> bool" where
  "hex_digit c \<longleftrightarrow> 48 \<le> c \<and> c \<le> 57 \<or> 65 \<le> c \<and> c \<le> 70 \<or> 97 \<le> c \<and> c \<le> 102"

text \<open>The escapes of one character: quote, slash, backslash, b, f, r, n, t.\<close>

definition simple_escape :: "byte \<Rightarrow> bool" where
  "simple_escape c \<longleftrightarrow> c = ch_quote \<or> c = 0x2F \<or> c = ch_backslash \<or> c = 0x62 \<or> c = 0x66 \<or> c = 0x72 \<or> c = 0x6E \<or> c = 0x74"

text \<open>The loop over at most \<open>n\<close> hexadecimal digits; \<open>None\<close> if a character is not one.\<close>

fun hex_loop :: "byte list \<Rightarrow> nat \<Rightarrow> nat \<Rightarrow> nat \<Rightarrow> nat option run" where
  "hex_loop js len 0 pos = Inr (Some pos)"
| "hex_loop js len (Suc n) pos =
     (if pos < len then
        bindR (c_read js pos) (\<lambda>c.
        if c = 0 then Inr (Some pos)
        else if hex_digit c then hex_loop js len n (pos + 1)
        else Inr None)
      else Inr (Some pos))"

lemma hex_loop_mono: "hex_loop js len n p = Inr (Some q) \<Longrightarrow> p \<le> q"
  by (induction js len n p rule: hex_loop.induct)
    (fastforce simp: bindR_eq_Inr_iff split: if_splits)+

text \<open>How the loop over a string ends: at the closing quote, at a bad escape, or with the text.\<close>

datatype string_end = Quote_At nat | Bad_Escape | Text_Ends

function string_loop :: "byte list \<Rightarrow> nat \<Rightarrow> nat \<Rightarrow> string_end run" where
  "string_loop js len pos =
     (if pos < len then
        bindR (c_read js pos) (\<lambda>c.
        if c = 0 then Inr Text_Ends
        else if c = ch_quote then Inr (Quote_At pos)
        else if c = ch_backslash \<and> pos + 1 < len then
          bindR (c_read js (pos + 1)) (\<lambda>e.
          if simple_escape e then string_loop js len (pos + 1 + 1)
          else if e = ch_u then
            bindR (hex_loop js len 4 (pos + 1 + 1)) (\<lambda>r. case r of
              None \<Rightarrow> Inr Bad_Escape
            | Some p \<Rightarrow> string_loop js len (p - 1 + 1))
          else Inr Bad_Escape)
        else string_loop js len (pos + 1))
      else Inr Text_Ends)"
  by pat_completeness auto
termination
  by (relation "measure (\<lambda>(js, len, pos). len - pos)") (auto dest: hex_loop_mono)

definition jsmn_parse_string :: "byte list \<Rightarrow> nat \<Rightarrow> nat \<Rightarrow> jsmn_state \<Rightarrow> (int \<times> jsmn_state) run" where
  "jsmn_parse_string js len num_tokens st =
     (let start = jp_pos st in
      bindR (string_loop js len (start + 1)) (\<lambda>r. case r of
        Bad_Escape \<Rightarrow> Inr (JSMN_ERROR_INVAL, st\<lparr>jp_pos := start\<rparr>)
      | Text_Ends \<Rightarrow> Inr (JSMN_ERROR_PART, st\<lparr>jp_pos := start\<rparr>)
      | Quote_At p \<Rightarrow>
          let st = st\<lparr>jp_pos := p\<rparr> in
          if jp_tokens st = None then Inr (0, st)
          else
            bindR (jsmn_alloc_token num_tokens st) (\<lambda>(token, st). case token of
              None \<Rightarrow> Inr (JSMN_ERROR_NOMEM, st\<lparr>jp_pos := start\<rparr>)
            | Some token \<Rightarrow>
                bindR (jsmn_fill_token token JSMN_STRING (start + 1) p st) (\<lambda>st.
                Inr (0, st)))))"

subsection \<open>The main loop\<close>

text \<open>
  The searches from token \<open>n - 1\<close> down for one that has been opened and not closed, and the one for
  such an array or object.
\<close>

definition tok_open :: "jsmntok \<Rightarrow> bool" where
  "tok_open t \<longleftrightarrow> tok_start t \<noteq> - 1 \<and> tok_end t = - 1"

definition container :: "jsmntype \<Rightarrow> bool" where
  "container ty \<longleftrightarrow> ty = JSMN_ARRAY \<or> ty = JSMN_OBJECT"

fun last_token :: "(jsmntok \<Rightarrow> bool) \<Rightarrow> jsmntok list \<Rightarrow> nat \<Rightarrow> nat option run" where
  "last_token P ts 0 = Inr None"
| "last_token P ts (Suc i) = bindR (c_read ts i) (\<lambda>t. if P t then Inr (Some i) else last_token P ts i)"

text \<open>What the code does with one character: it returns, or goes on to the next with a new count.\<close>

datatype jsmn_out = Return int jsmn_state | Continue int jsmn_state

definition count_child :: "jsmn_state \<Rightarrow> jsmn_state run" where
  "count_child st = with_token (jp_toksuper st) (\<lambda>t. t\<lparr>tok_size := tok_size t + 1\<rparr>) st"

definition jsmn_open :: "nat \<Rightarrow> byte \<Rightarrow> int \<Rightarrow> jsmn_state \<Rightarrow> jsmn_out run" where
  "jsmn_open num_tokens c count st =
     (if jp_tokens st = None then Inr (Continue (count + 1) st)
      else
        bindR (jsmn_alloc_token num_tokens st) (\<lambda>(token, st). case token of
          None \<Rightarrow> Inr (Return JSMN_ERROR_NOMEM st)
        | Some token \<Rightarrow>
            bindR (if jp_toksuper st \<noteq> - 1 then count_child st else Inr st) (\<lambda>st.
            bindR (with_token token (\<lambda>t. t\<lparr>tok_type := (if c = ch_lbrace then JSMN_OBJECT else JSMN_ARRAY),
                tok_start := int (jp_pos st)\<rparr>) st) (\<lambda>st.
            Inr (Continue (count + 1) (st\<lparr>jp_toksuper := int (jp_toknext st) - 1\<rparr>))))))"

definition jsmn_close :: "byte \<Rightarrow> int \<Rightarrow> jsmn_state \<Rightarrow> jsmn_out run" where
  "jsmn_close c count st =
     (case jp_tokens st of
        None \<Rightarrow> Inr (Continue count st)
      | Some ts \<Rightarrow>
          bindR (last_token tok_open ts (jp_toknext st)) (\<lambda>r. case r of
            None \<Rightarrow> Inr (Return JSMN_ERROR_INVAL st)
          | Some i \<Rightarrow>
              if tok_type (ts ! i) \<noteq> (if c = ch_rbrace then JSMN_OBJECT else JSMN_ARRAY)
              then Inr (Return JSMN_ERROR_INVAL st)
              else
                let ts = ts[i := (ts ! i)\<lparr>tok_end := int (jp_pos st) + 1\<rparr>];
                    st = st\<lparr>jp_toksuper := - 1, jp_tokens := Some ts\<rparr> in
                bindR (last_token tok_open ts (i + 1)) (\<lambda>r. case r of
                  None \<Rightarrow> Inr (Continue count st)
                | Some i \<Rightarrow> Inr (Continue count (st\<lparr>jp_toksuper := int i\<rparr>)))))"

definition jsmn_comma :: "int \<Rightarrow> jsmn_state \<Rightarrow> jsmn_out run" where
  "jsmn_comma count st =
     (case jp_tokens st of
        None \<Rightarrow> Inr (Continue count st)
      | Some ts \<Rightarrow>
          if jp_toksuper st = - 1 then Inr (Continue count st)
          else if jp_toksuper st < 0 then Inl Undef
          else
            bindR (c_read ts (nat (jp_toksuper st))) (\<lambda>t.
            if container (tok_type t) then Inr (Continue count st)
            else
              bindR (last_token (\<lambda>t. container (tok_type t) \<and> tok_open t) ts (jp_toknext st)) (\<lambda>r. case r of
                None \<Rightarrow> Inr (Continue count st)
              | Some i \<Rightarrow> Inr (Continue count (st\<lparr>jp_toksuper := int i\<rparr>)))))"

text \<open>After a string or a primitive.\<close>

definition jsmn_leaf :: "int \<Rightarrow> int \<times> jsmn_state \<Rightarrow> jsmn_out run" where
  "jsmn_leaf count = (\<lambda>(r, st).
     if r < 0 then Inr (Return r st)
     else
       bindR (if jp_toksuper st \<noteq> - 1 \<and> jp_tokens st \<noteq> None then count_child st else Inr st) (\<lambda>st.
       Inr (Continue (count + 1) st)))"

definition jsmn_char :: "byte list \<Rightarrow> nat \<Rightarrow> nat \<Rightarrow> byte \<Rightarrow> int \<Rightarrow> jsmn_state \<Rightarrow> jsmn_out run" where
  "jsmn_char js len num_tokens c count st =
     (if c = ch_lbrace \<or> c = ch_lbracket then jsmn_open num_tokens c count st
      else if c = ch_rbrace \<or> c = ch_rbracket then jsmn_close c count st
      else if c = ch_quote then bindR (jsmn_parse_string js len num_tokens st) (jsmn_leaf count)
      else if blank c then Inr (Continue count st)
      else if c = ch_colon then Inr (Continue count (st\<lparr>jp_toksuper := int (jp_toknext st) - 1\<rparr>))
      else if c = ch_comma then jsmn_comma count st
      else bindR (jsmn_parse_primitive js len num_tokens st) (jsmn_leaf count))"

text \<open>After the loop: an array or object that is still open makes the text incomplete.\<close>

definition jsmn_finish :: "int \<Rightarrow> jsmn_state \<Rightarrow> (int \<times> jsmn_state) run" where
  "jsmn_finish count st =
     (case jp_tokens st of
        None \<Rightarrow> Inr (count, st)
      | Some ts \<Rightarrow>
          bindR (last_token tok_open ts (jp_toknext st)) (\<lambda>r.
          Inr (if r = None then count else JSMN_ERROR_PART, st)))"

text \<open>Each character moves the parser on: the loop ends.\<close>

declare primitive_loop.simps [simp del] string_loop.simps [simp del]

lemma primitive_loop_mono: "primitive_loop js len p = Inr (Some q) \<Longrightarrow> p \<le> q"
proof (induction js len p rule: primitive_loop.induct)
  case (1 js len p)
  thus ?case by (subst (asm) primitive_loop.simps) (fastforce simp: bindR_eq_Inr_iff split: if_splits)
qed

lemma primitive_loop_first:
  assumes "primitive_loop js len p = Inr (Some q)" "p < len" "c_read js p = Inr c" "c \<noteq> 0" "\<not> ends_primitive c"
  shows "p < q"
  using assms primitive_loop_mono [of js len "p + 1" q]
  by (subst (asm) (1) primitive_loop.simps) (auto split: if_splits)

lemma string_loop_mono: "string_loop js len p = Inr (Quote_At q) \<Longrightarrow> p \<le> q"
proof (induction js len p rule: string_loop.induct)
  case (1 js len p)
  have "p \<le> r - 1 + 1" if "hex_loop js len 4 (p + 1 + 1) = Inr (Some r)" for r
    using hex_loop_mono [OF that] by simp
  with 1(4) [unfolded string_loop.simps [of js len p]] 1(1-3) show ?case
    by (auto elim!: bindR_InrE split: if_split_asm option.split_asm) (metis le_trans Suc_leD)+
qed

lemma with_token_pos: "with_token i f st = Inr st' \<Longrightarrow> jp_pos st' = jp_pos st"
  by (auto simp: with_token_def split: option.split_asm if_split_asm)

lemma jsmn_alloc_token_pos: "jsmn_alloc_token n st = Inr (r, st') \<Longrightarrow> jp_pos st' = jp_pos st"
  by (auto simp: jsmn_alloc_token_def Let_def elim!: bindR_InrE dest!: with_token_pos split: if_split_asm)

lemma jsmn_open_pos: "jsmn_open n c count st = Inr (Continue count' st') \<Longrightarrow> jp_pos st' = jp_pos st"
  by (auto simp: jsmn_open_def count_child_def split: if_split_asm option.split_asm
      elim!: bindR_InrE dest!: with_token_pos jsmn_alloc_token_pos)

lemma jsmn_close_pos: "jsmn_close c count st = Inr (Continue count' st') \<Longrightarrow> jp_pos st' = jp_pos st"
  by (auto simp: jsmn_close_def Let_def simp del: last_token.simps split: if_split_asm option.split_asm
      elim!: bindR_InrE)

lemma jsmn_comma_pos: "jsmn_comma count st = Inr (Continue count' st') \<Longrightarrow> jp_pos st' = jp_pos st"
  by (auto simp: jsmn_comma_def split: if_split_asm option.split_asm elim!: bindR_InrE)

lemma jsmn_leaf_pos: "jsmn_leaf count (r, st) = Inr (Continue count' st') \<Longrightarrow> 0 \<le> r \<and> jp_pos st' = jp_pos st"
  by (auto simp: jsmn_leaf_def count_child_def split: if_split_asm elim!: bindR_InrE dest!: with_token_pos)

lemma parse_string_pos:
  "jsmn_parse_string js len n st = Inr (r, st') \<Longrightarrow> 0 \<le> r \<Longrightarrow> jp_pos st \<le> jp_pos st'"
  by (auto simp: jsmn_parse_string_def jsmn_fill_token_def Let_def jsmnerr_defs
      split: string_end.split_asm if_split_asm option.split_asm elim!: bindR_InrE dest!: with_token_pos jsmn_alloc_token_pos string_loop_mono)

lemma parse_primitive_pos:
  assumes "jsmn_parse_primitive js len n st = Inr (r, st')" "0 \<le> r"
    and "jp_pos st < len" "c_read js (jp_pos st) = Inr c" "c \<noteq> 0" "\<not> ends_primitive c"
  shows "jp_pos st \<le> jp_pos st'"
  using assms(1,2) primitive_loop_first [OF _ assms(3-6)]
  by (fastforce simp: jsmn_parse_primitive_def jsmn_fill_token_def Let_def jsmnerr_defs
      split: if_split_asm option.split_asm elim!: bindR_InrE dest!: with_token_pos jsmn_alloc_token_pos)

lemma jsmn_char_progress:
  assumes "jsmn_char js len num_tokens c count st = Inr (Continue count' st')"
    and "jp_pos st < len" "c_read js (jp_pos st) = Inr c" "c \<noteq> 0"
  shows "jp_pos st \<le> jp_pos st'"
  using assms(1) parse_primitive_pos [OF _ _ assms(2-4)]
  by (auto simp: jsmn_char_def ends_primitive_def split: if_split_asm
      elim!: bindR_InrE dest!: jsmn_open_pos jsmn_close_pos jsmn_comma_pos jsmn_leaf_pos dest: parse_string_pos)

function jsmn_loop :: "byte list \<Rightarrow> nat \<Rightarrow> nat \<Rightarrow> int \<Rightarrow> jsmn_state \<Rightarrow> (int \<times> jsmn_state) run" where
  "jsmn_loop js len num_tokens count st =
     (if jp_pos st < len then
        bindR (c_read js (jp_pos st)) (\<lambda>c.
        if c = 0 then jsmn_finish count st
        else
          bindR (jsmn_char js len num_tokens c count st) (\<lambda>out. case out of
            Return r st \<Rightarrow> Inr (r, st)
          | Continue count st \<Rightarrow> jsmn_loop js len num_tokens count (st\<lparr>jp_pos := jp_pos st + 1\<rparr>)))
      else jsmn_finish count st)"
  by pat_completeness auto
termination
  by (relation "measure (\<lambda>(js, len, n, count, st). len - jp_pos st)") (auto dest: jsmn_char_progress)

declare jsmn_loop.simps [simp del]

definition jsmn_parse :: "byte list \<Rightarrow> nat \<Rightarrow> nat \<Rightarrow> jsmn_state \<Rightarrow> (int \<times> jsmn_state) run" where
  "jsmn_parse js len num_tokens st = jsmn_loop js len num_tokens (int (jp_toknext st)) st"

definition jsmn_init :: "jsmn_state \<Rightarrow> jsmn_state" where
  "jsmn_init st = st\<lparr>jp_pos := 0, jp_toknext := 0, jp_toksuper := - 1\<rparr>"

text \<open>A fresh parser over a token array.\<close>

definition jsmn_fresh :: "jsmntok list option \<Rightarrow> jsmn_state" where
  "jsmn_fresh ts = jsmn_init \<lparr>jp_pos = 0, jp_toknext = 0, jp_toksuper = 0, jp_tokens = ts\<rparr>"

end
