(* ===== verification/Jsmn_Machine.thy ===== *)
theory Jsmn_Machine
  imports Jsmn
begin

text \<open>
  What \<open>jsmn_parse\<close> does, seen from outside: it cuts the text into lexemes, and a machine with the
  tokens so far and the index of the parent takes one lexeme after the other. The functions of the
  code, on a token array of which the first \<open>toknext\<close> are used, refine a step of that machine.
\<close>

subsection \<open>Lexemes\<close>

datatype lexeme =
    Lx_Open jsmntype
  | Lx_Close jsmntype
  | Lx_Leaf jsmntype nat nat
  | Lx_Blank
  | Lx_Colon
  | Lx_Comma
  | Lx_Bad int

text \<open>The lexeme at a position, and the position of its last character.\<close>

definition lex_primitive :: "byte list \<Rightarrow> nat \<Rightarrow> nat \<Rightarrow> lexeme \<times> nat" where
  "lex_primitive js len pos = (case primitive_loop js len pos of
     Inr (Some p) \<Rightarrow> (Lx_Leaf JSMN_PRIMITIVE pos p, p - 1) | _ \<Rightarrow> (Lx_Bad JSMN_ERROR_INVAL, pos))"

definition lex_string :: "byte list \<Rightarrow> nat \<Rightarrow> nat \<Rightarrow> lexeme \<times> nat" where
  "lex_string js len pos = (case string_loop js len (pos + 1) of
     Inr (Quote_At p) \<Rightarrow> (Lx_Leaf JSMN_STRING (pos + 1) p, p)
   | Inr Text_Ends \<Rightarrow> (Lx_Bad JSMN_ERROR_PART, pos)
   | _ \<Rightarrow> (Lx_Bad JSMN_ERROR_INVAL, pos))"

definition lexeme_at :: "byte list \<Rightarrow> nat \<Rightarrow> nat \<Rightarrow> lexeme \<times> nat" where
  "lexeme_at js len pos =
     (let c = js ! pos in
      if c = ch_lbrace then (Lx_Open JSMN_OBJECT, pos)
      else if c = ch_lbracket then (Lx_Open JSMN_ARRAY, pos)
      else if c = ch_rbrace then (Lx_Close JSMN_OBJECT, pos)
      else if c = ch_rbracket then (Lx_Close JSMN_ARRAY, pos)
      else if c = ch_quote then lex_string js len pos
      else if blank c then (Lx_Blank, pos)
      else if c = ch_colon then (Lx_Colon, pos)
      else if c = ch_comma then (Lx_Comma, pos)
      else lex_primitive js len pos)"

text \<open>The scanning loops return, at a position within the text.\<close>

lemma primitive_loop_total:
  assumes "len \<le> length js" "p \<le> len"
  shows "\<exists>r. primitive_loop js len p = Inr r \<and> (\<forall>q. r = Some q \<longrightarrow> p \<le> q \<and> q \<le> len)"
  using assms
proof (induction js len p rule: primitive_loop.induct)
  case (1 js len p)
  show ?case
  proof (cases "p < len")
    case True
    with 1 have "\<exists>r. primitive_loop js len (p + 1) = Inr r \<and> (\<forall>q. r = Some q \<longrightarrow> p \<le> q \<and> q \<le> len)"
      if "\<not> (js ! p = 0 \<or> ends_primitive (js ! p))" "\<not> (js ! p < 32 \<or> 127 \<le> js ! p)"
      using that by (fastforce simp: c_read_def)
    with True 1(2) show ?thesis by (subst primitive_loop.simps) (auto simp: c_read_def)
  qed (use 1 in \<open>auto simp: primitive_loop.simps [of js len]\<close>)
qed

lemma hex_loop_total:
  assumes "len \<le> length js" "p \<le> len"
  shows "\<exists>r. hex_loop js len n p = Inr r \<and> (\<forall>q. r = Some q \<longrightarrow> p \<le> q \<and> q \<le> len)"
  using assms(2)
proof (induction n arbitrary: p)
  case (Suc n)
  show ?case
  proof (cases "p < len")
    case True
    with assms(1) Suc.IH [of "p + 1"] show ?thesis by (auto simp: c_read_def)
  qed (use Suc in simp)
qed simp

lemma string_loop_total:
  assumes "len \<le> length js" "p \<le> len"
  shows "\<exists>r. string_loop js len p = Inr r \<and> (\<forall>q. r = Quote_At q \<longrightarrow> p \<le> q \<and> q < len \<and> js ! q = ch_quote)"
  using assms
proof (induction js len p rule: string_loop.induct)
  case (1 js len p)
  note eq = string_loop.simps [of js len p]
  show ?case
  proof (cases "p < len")
    case False
    thus ?thesis by (simp add: eq)
  next
    case True
    hence c: "c_read js p = Inr (js ! p)" using 1(4) by simp
    consider "js ! p = 0 \<or> js ! p = ch_quote" | "js ! p \<noteq> 0" "js ! p \<noteq> ch_quote" "\<not> (js ! p = ch_backslash \<and> p + 1 < len)"
      | "js ! p = ch_backslash" "p + 1 < len" by blast
    thus ?thesis
    proof cases
      case 2
      from 1(3) [OF True c this] 1(4) True show ?thesis using 2 by (auto simp: eq c)
    next
      case 3
      hence e: "c_read js (p + 1) = Inr (js ! (p + 1))" using 1(4) by simp
      note e' = e [simplified]
      from 3 have nq: "js ! p \<noteq> 0" "js ! p \<noteq> ch_quote" "js ! p = ch_backslash \<and> p + 1 < len" by simp_all
      consider "simple_escape (js ! (p + 1))" | "\<not> simple_escape (js ! (p + 1))" "js ! (p + 1) = ch_u"
        | "\<not> simple_escape (js ! (p + 1))" "js ! (p + 1) \<noteq> ch_u" by blast
      thus ?thesis
      proof cases
        case 1
        from "1.IH"(1) [OF True c nq e this] \<open>len \<le> length js\<close> 3 1 True show ?thesis by (auto simp: eq c e')
      next
        case 2
        obtain r where r: "hex_loop js len 4 (p + 1 + 1) = Inr r" "\<And>q. r = Some q \<Longrightarrow> p + 1 + 1 \<le> q \<and> q \<le> len"
          using hex_loop_total [OF \<open>len \<le> length js\<close>, of "p + 1 + 1" 4] 3 by auto
        show ?thesis
        proof (cases r)
          case (Some q)
          with r(2) have q: "p \<le> q - 1 + 1" "q - 1 + 1 \<le> len" by auto
          have "string_loop js len p = string_loop js len (q - 1 + 1)"
            using True 2 3 r(1) Some by (simp add: eq c e')
          with "1.IH"(2) [OF True c nq e 2 r(1) Some \<open>len \<le> length js\<close> q(2)] q(1) show ?thesis by (metis le_trans)
        qed (use True 2 3 r in \<open>auto simp: eq c e'\<close>)
      qed (use True 3 in \<open>auto simp: eq c e'\<close>)
    qed (use True in \<open>auto simp: eq c\<close>)
  qed
qed

subsection \<open>The machine\<close>

text \<open>The index of the last element with a property.\<close>

definition last_idx :: "('a \<Rightarrow> bool) \<Rightarrow> 'a list \<Rightarrow> nat option" where
  "last_idx P xs = List.find (\<lambda>i. P (xs ! i)) (rev [0..<length xs])"

lemma last_idx_Nil [simp]: "last_idx P [] = None"
  by (simp add: last_idx_def)

lemma last_idx_snoc [simp]: "last_idx P (xs @ [x]) = (if P x then Some (length xs) else last_idx P xs)"
  by (auto simp: last_idx_def nth_append intro!: find_cong)

lemma last_idx_Some: "last_idx P xs = Some i \<Longrightarrow> i < length xs \<and> P (xs ! i) \<and> (\<forall>j<length xs. i < j \<longrightarrow> \<not> P (xs ! j))"
  by (induction xs rule: rev_induct) (auto simp: nth_append less_Suc_eq split: if_split_asm)

lemma last_idx_None: "last_idx P xs = None \<longleftrightarrow> (\<forall>x\<in>set xs. \<not> P x)"
  by (induction xs rule: rev_induct) auto

lemma last_idx_append: "\<forall>y\<in>set ys. \<not> P y \<Longrightarrow> last_idx P (xs @ ys) = last_idx P xs"
  by (induction ys rule: rev_induct) (auto simp flip: append_assoc)

lemma last_idx_map: "(\<And>x. P (f x) = P x) \<Longrightarrow> last_idx P (map f xs) = last_idx P xs"
  by (induction xs rule: rev_induct) simp_all

lemma last_token_eq: "n \<le> length ts \<Longrightarrow> last_token P ts n = Inr (last_idx P (take n ts))"
  by (induction n) (auto simp: take_Suc_conv_app_nth c_read_def)

text \<open>A child is counted at the token with index \<open>i\<close>; \<open>-1\<close> stands for none.\<close>

definition bump :: "int \<Rightarrow> jsmntok list \<Rightarrow> jsmntok list" where
  "bump i ts = (if i = - 1 then ts else ts[nat i := (ts ! nat i)\<lparr>tok_size := tok_size (ts ! nat i) + 1\<rparr>])"

lemma length_bump [simp]: "length (bump i ts) = length ts"
  by (simp add: bump_def)

definition idx :: "nat option \<Rightarrow> int" where
  "idx r = (case r of None \<Rightarrow> - 1 | Some i \<Rightarrow> int i)"

lemma idx_simps [simp]: "idx None = - 1" "idx (Some i) = int i"
  by (simp_all add: idx_def)

abbreviation open_container :: "jsmntok \<Rightarrow> bool" where
  "open_container t \<equiv> container (tok_type t) \<and> tok_open t"

fun jstep :: "nat \<Rightarrow> lexeme \<Rightarrow> nat \<Rightarrow> jsmntok list \<Rightarrow> int \<Rightarrow> int + (jsmntok list \<times> int)" where
  "jstep num (Lx_Open ty) pos ts par =
     (if num \<le> length ts then Inl JSMN_ERROR_NOMEM
      else Inr (bump par ts @ [\<lparr>tok_type = ty, tok_start = int pos, tok_end = - 1, tok_size = 0\<rparr>], int (length ts)))"
| "jstep num (Lx_Close ty) pos ts par =
     (case last_idx tok_open ts of
        None \<Rightarrow> Inl JSMN_ERROR_INVAL
      | Some i \<Rightarrow>
          if tok_type (ts ! i) \<noteq> ty then Inl JSMN_ERROR_INVAL
          else Inr (ts[i := (ts ! i)\<lparr>tok_end := int pos + 1\<rparr>], idx (last_idx tok_open (take i ts))))"
| "jstep num (Lx_Leaf ty s e) pos ts par =
     (if num \<le> length ts then Inl JSMN_ERROR_NOMEM
      else Inr (bump par ts @ [\<lparr>tok_type = ty, tok_start = int s, tok_end = int e, tok_size = 0\<rparr>], par))"
| "jstep num Lx_Blank pos ts par = Inr (ts, par)"
| "jstep num Lx_Colon pos ts par = Inr (ts, int (length ts) - 1)"
| "jstep num Lx_Comma pos ts par =
     Inr (ts, if par = - 1 \<or> container (tok_type (ts ! nat par)) then par
              else (case last_idx open_container ts of None \<Rightarrow> par | Some i \<Rightarrow> int i))"
| "jstep num (Lx_Bad e) pos ts par = Inl e"

subsection \<open>The code refines the machine\<close>

text \<open>The state of the code in which \<open>ts\<close> are the tokens used, \<open>rest\<close> the unused part of the array.\<close>

definition holds :: "nat \<Rightarrow> jsmn_state \<Rightarrow> jsmntok list \<Rightarrow> jsmntok list \<Rightarrow> bool" where
  "holds num st ts rest \<longleftrightarrow> jp_tokens st = Some (ts @ rest) \<and> jp_toknext st = length ts \<and>
     length ts \<le> num \<and> num \<le> length ts + length rest \<and> - 1 \<le> jp_toksuper st \<and> jp_toksuper st < int (length ts)"

definition moved :: "nat \<Rightarrow> jsmntok list \<Rightarrow> int \<Rightarrow> jsmntok list \<Rightarrow> jsmn_state \<Rightarrow> jsmn_state" where
  "moved pos ts par rest st = st\<lparr>jp_pos := pos, jp_toknext := length ts, jp_toksuper := par, jp_tokens := Some (ts @ rest)\<rparr>"

lemma with_token_in:
  "jp_tokens st = Some ts \<Longrightarrow> i < length ts \<Longrightarrow> with_token (int i) f st = Inr (st\<lparr>jp_tokens := Some (ts[i := f (ts ! i)])\<rparr>)"
  by (simp add: with_token_def)

lemma alloc_token_eq:
  assumes "holds num st ts rest"
  shows "num \<le> length ts \<Longrightarrow> jsmn_alloc_token num st = Inr (None, st)"
    and "length ts < num \<Longrightarrow> \<exists>t rest'. rest = t # rest' \<and> jsmn_alloc_token num st =
      Inr (Some (int (length ts)), st\<lparr>jp_toknext := Suc (length ts),
        jp_tokens := Some (ts @ t\<lparr>tok_start := - 1, tok_end := - 1, tok_size := 0\<rparr> # rest')\<rparr>)"
  using assms by (cases rest; auto simp: holds_def jsmn_alloc_token_def Let_def with_token_def)+

lemma count_child_eq:
  assumes "jp_tokens st = Some (ts @ rest)" "- 1 \<le> jp_toksuper st" "jp_toksuper st < int (length ts)"
  shows "(if jp_toksuper st \<noteq> - 1 then count_child st else Inr st) = Inr (st\<lparr>jp_tokens := Some (bump (jp_toksuper st) ts @ rest)\<rparr>)"
proof -
  have "nat (jp_toksuper st) < length ts" if "jp_toksuper st \<noteq> - 1" using that assms by auto
  thus ?thesis using assms
    by (cases st) (auto simp: count_child_def with_token_def bump_def list_update_append nth_append)
qed

lemma open_refines:
  assumes "holds num st ts rest" "ty = (if c = ch_lbrace then JSMN_OBJECT else JSMN_ARRAY)"
  shows "jsmn_open num c count st = Inr (case jstep num (Lx_Open ty) (jp_pos st) ts (jp_toksuper st) of
      Inl e \<Rightarrow> Return e st
    | Inr (ts', par') \<Rightarrow> Continue (count + int (length ts') - int (length ts))
        (moved (jp_pos st) ts' par' (drop (length ts' - length ts) rest) st))"
proof (cases "num \<le> length ts")
  case True
  thus ?thesis using alloc_token_eq(1) [OF assms(1)] assms(1) by (simp add: jsmn_open_def holds_def)
next
  case False
  then obtain t rest' where t: "rest = t # rest'" "jsmn_alloc_token num st =
      Inr (Some (int (length ts)), st\<lparr>jp_toknext := Suc (length ts),
        jp_tokens := Some (ts @ t\<lparr>tok_start := - 1, tok_end := - 1, tok_size := 0\<rparr> # rest')\<rparr>)"
    using alloc_token_eq(2) [OF assms(1)] by auto
  let ?st = "st\<lparr>jp_toknext := Suc (length ts),
        jp_tokens := Some (ts @ t\<lparr>tok_start := - 1, tok_end := - 1, tok_size := 0\<rparr> # rest')\<rparr>"
  have "(if jp_toksuper ?st \<noteq> - 1 then count_child ?st else Inr ?st) =
      Inr (?st\<lparr>jp_tokens := Some (bump (jp_toksuper st) ts @ t\<lparr>tok_start := - 1, tok_end := - 1, tok_size := 0\<rparr> # rest')\<rparr>)"
    using count_child_eq [of ?st ts] assms(1) by (simp add: holds_def)
  thus ?thesis
    using assms t False
    by (simp add: jsmn_open_def holds_def with_token_def moved_def list_update_append nth_append cong: if_cong)
qed

lemma close_refines:
  assumes "holds num st ts rest" "ty = (if c = ch_rbrace then JSMN_OBJECT else JSMN_ARRAY)"
  shows "jsmn_close c count st = Inr (case jstep num (Lx_Close ty) (jp_pos st) ts (jp_toksuper st) of
      Inl e \<Rightarrow> Return e st
    | Inr (ts', par') \<Rightarrow> Continue (count + int (length ts') - int (length ts))
        (moved (jp_pos st) ts' par' (drop (length ts' - length ts) rest) st))"
proof (cases "last_idx tok_open ts")
  case None
  thus ?thesis using assms(1) by (simp add: jsmn_close_def holds_def last_token_eq)
next
  case (Some i)
  note i = last_idx_Some [OF Some]
  let ?ts = "ts[i := (ts ! i)\<lparr>tok_end := int (jp_pos st) + 1\<rparr>]"
  have "take (Suc i) (?ts @ rest) = take i ts @ [(ts ! i)\<lparr>tok_end := int (jp_pos st) + 1\<rparr>]"
    using i by (simp add: take_Suc_conv_app_nth)
  hence "last_token tok_open (?ts @ rest) (Suc i) = Inr (last_idx tok_open (take i ts))"
    using i last_token_eq [of "Suc i" "?ts @ rest" tok_open] by (simp add: tok_open_def)
  thus ?thesis
    using assms Some i
    by (cases st; cases "last_idx tok_open (take i ts)")
      (auto simp: jsmn_close_def holds_def last_token_eq moved_def list_update_append nth_append Let_def)
qed

lemma comma_refines:
  assumes "holds num st ts rest"
  shows "jsmn_comma count st = Inr (case jstep num Lx_Comma (jp_pos st) ts (jp_toksuper st) of
      Inl e \<Rightarrow> Return e st
    | Inr (ts', par') \<Rightarrow> Continue (count + int (length ts') - int (length ts))
        (moved (jp_pos st) ts' par' (drop (length ts' - length ts) rest) st))"
proof (cases "jp_toksuper st = - 1")
  case True
  thus ?thesis using assms by (cases st) (simp add: jsmn_comma_def holds_def moved_def)
next
  case False
  hence "nat (jp_toksuper st) < length ts" "0 \<le> jp_toksuper st" using assms by (auto simp: holds_def)
  thus ?thesis using assms False
    by (cases st) (auto simp: jsmn_comma_def holds_def moved_def last_token_eq nth_append split: option.split)
qed

text \<open>The two functions that store a string or a primitive.\<close>

lemma fill_token_eq:
  assumes "holds num st ts rest" "length ts < num"
  shows "\<exists>st'. jsmn_alloc_token num (st\<lparr>jp_pos := p\<rparr>) = Inr (Some (int (length ts)), st') \<and>
    jsmn_fill_token (int (length ts)) ty s e st' = Inr (moved p
      (ts @ [\<lparr>tok_type = ty, tok_start = int s, tok_end = int e, tok_size = 0\<rparr>]) (jp_toksuper st) (drop 1 rest) st)"
proof -
  have "holds num (st\<lparr>jp_pos := p\<rparr>) ts rest" using assms(1) by (simp add: holds_def)
  from alloc_token_eq(2) [OF this assms(2)] show ?thesis
    by (cases st) (auto simp: jsmn_fill_token_def with_token_def moved_def list_update_append nth_append)
qed

lemma leaf_count:
  assumes "holds num st ts rest" "length ts < num"
  shows "jsmn_leaf count (0, moved p (ts @ [t]) (jp_toksuper st) (drop 1 rest) st) =
    Inr (Continue (count + 1) (moved p (bump (jp_toksuper st) ts @ [t]) (jp_toksuper st) (drop 1 rest) st))"
proof -
  let ?st = "moved p (ts @ [t]) (jp_toksuper st) (drop 1 rest) st"
  have "(if jp_toksuper ?st \<noteq> - 1 then count_child ?st else Inr ?st) =
      Inr (?st\<lparr>jp_tokens := Some (bump (jp_toksuper ?st) ts @ t # drop 1 rest)\<rparr>)"
    using assms(1) by (intro count_child_eq) (simp_all add: holds_def moved_def)
  thus ?thesis by (simp add: jsmn_leaf_def moved_def cong: if_cong)
qed

lemma string_refines:
  assumes "holds num st ts rest" "len \<le> length js" "jp_pos st < len" "lex_string js len (jp_pos st) = (lx, nxt)"
  shows "bindR (jsmn_parse_string js len num st) (jsmn_leaf count) = Inr (case jstep num lx (jp_pos st) ts (jp_toksuper st) of
      Inl e \<Rightarrow> Return e st
    | Inr (ts', par') \<Rightarrow> Continue (count + int (length ts') - int (length ts))
        (moved nxt ts' par' (drop (length ts' - length ts) rest) st))"
proof -
  have self: "st\<lparr>jp_pos := jp_pos st\<rparr> = st" by simp
  obtain r where r: "string_loop js len (Suc (jp_pos st)) = Inr r"
    using string_loop_total [of len js "Suc (jp_pos st)"] assms(2,3) by auto
  show ?thesis
  proof (cases r)
    case (Quote_At p)
    hence lx: "lx = Lx_Leaf JSMN_STRING (Suc (jp_pos st)) p" "nxt = p"
      using assms(4) r by (auto simp: lex_string_def)
    show ?thesis
    proof (cases "num \<le> length ts")
      case True
      have "holds num (st\<lparr>jp_pos := p\<rparr>) ts rest" using assms(1) by (simp add: holds_def)
      from alloc_token_eq(1) [OF this True] show ?thesis using True r Quote_At lx assms(1)
        by (simp add: jsmn_parse_string_def Let_def jsmn_leaf_def jsmnerr_defs holds_def self)
    next
      case False
      with fill_token_eq [OF assms(1), of p JSMN_STRING "Suc (jp_pos st)" p] obtain st' where
        "jsmn_alloc_token num (st\<lparr>jp_pos := p\<rparr>) = Inr (Some (int (length ts)), st')"
        "jsmn_fill_token (int (length ts)) JSMN_STRING (Suc (jp_pos st)) p st' = Inr (moved p
          (ts @ [\<lparr>tok_type = JSMN_STRING, tok_start = int (Suc (jp_pos st)), tok_end = int p, tok_size = 0\<rparr>])
          (jp_toksuper st) (drop 1 rest) st)" by auto
      thus ?thesis using r Quote_At lx False assms(1) leaf_count [OF assms(1)]
        by (simp add: jsmn_parse_string_def Let_def holds_def)
    qed
  qed (use assms(1,4) r in \<open>auto simp: lex_string_def jsmn_parse_string_def Let_def jsmn_leaf_def jsmnerr_defs self\<close>)
qed

lemma primitive_refines:
  assumes "holds num st ts rest" "len \<le> length js" "jp_pos st < len" "lex_primitive js len (jp_pos st) = (lx, nxt)"
  shows "bindR (jsmn_parse_primitive js len num st) (jsmn_leaf count) = Inr (case jstep num lx (jp_pos st) ts (jp_toksuper st) of
      Inl e \<Rightarrow> Return e st
    | Inr (ts', par') \<Rightarrow> Continue (count + int (length ts') - int (length ts))
        (moved nxt ts' par' (drop (length ts' - length ts) rest) st))"
proof -
  have self: "st\<lparr>jp_pos := jp_pos st\<rparr> = st" by simp
  obtain r where r: "primitive_loop js len (jp_pos st) = Inr r"
    using primitive_loop_total [of len js "jp_pos st"] assms(2,3) by auto
  show ?thesis
  proof (cases r)
    case (Some p)
    hence lx: "lx = Lx_Leaf JSMN_PRIMITIVE (jp_pos st) p" "nxt = p - 1"
      using assms(4) r by (auto simp: lex_primitive_def)
    show ?thesis
    proof (cases "num \<le> length ts")
      case True
      have "holds num (st\<lparr>jp_pos := p\<rparr>) ts rest" using assms(1) by (simp add: holds_def)
      from alloc_token_eq(1) [OF this True] show ?thesis using True r Some lx assms(1)
        by (simp add: jsmn_parse_primitive_def Let_def jsmn_leaf_def jsmnerr_defs holds_def self)
    next
      case False
      with fill_token_eq [OF assms(1), of p JSMN_PRIMITIVE "jp_pos st" p] obtain st' where
        "jsmn_alloc_token num (st\<lparr>jp_pos := p\<rparr>) = Inr (Some (int (length ts)), st')"
        "jsmn_fill_token (int (length ts)) JSMN_PRIMITIVE (jp_pos st) p st' = Inr (moved p
          (ts @ [\<lparr>tok_type = JSMN_PRIMITIVE, tok_start = int (jp_pos st), tok_end = int p, tok_size = 0\<rparr>])
          (jp_toksuper st) (drop 1 rest) st)" by auto
      moreover have "(moved p a b c st)\<lparr>jp_pos := q\<rparr> = moved q a b c st" for a b c q by (simp add: moved_def)
      ultimately show ?thesis using r Some lx False assms(1) leaf_count [OF assms(1)]
        by (simp add: jsmn_parse_primitive_def Let_def holds_def)
    qed
  qed (use assms(1,4) r in \<open>auto simp: lex_primitive_def jsmn_parse_primitive_def Let_def jsmn_leaf_def jsmnerr_defs self\<close>)
qed

text \<open>One character of the code is one step of the machine.\<close>

lemma char_refines:
  assumes "holds num st ts rest" "len \<le> length js" "jp_pos st < len" "lexeme_at js len (jp_pos st) = (lx, nxt)"
  shows "jsmn_char js len num (js ! jp_pos st) count st = Inr (case jstep num lx (jp_pos st) ts (jp_toksuper st) of
      Inl e \<Rightarrow> Return e st
    | Inr (ts', par') \<Rightarrow> Continue (count + int (length ts') - int (length ts))
        (moved nxt ts' par' (drop (length ts' - length ts) rest) st))"
proof -
  have stay: "moved (jp_pos st) ts (jp_toksuper st) rest st = st"
    "st\<lparr>jp_toksuper := n\<rparr> = moved (jp_pos st) ts n rest st" for n
    using assms(1) by (cases st; simp add: holds_def moved_def)+
  note R = open_refines [OF assms(1)] close_refines [OF assms(1)] comma_refines [OF assms(1)]
    string_refines [OF assms(1-3)] primitive_refines [OF assms(1-3)]
  have len: "jp_toknext st = length ts" using assms(1) by (simp add: holds_def)
  show ?thesis
    using assms(4) R(4) [of lx nxt count] R(5) [of lx nxt count]
    by (auto simp: jsmn_char_def lexeme_at_def Let_def R(1-3) stay len simp del: jstep.simps(1-3,6) split: if_split_asm)
qed

text \<open>With a null pointer for the tokens, the machine only counts.\<close>

definition counts :: "lexeme \<Rightarrow> nat" where
  "counts lx = (case lx of Lx_Open ty \<Rightarrow> 1 | Lx_Leaf ty s e \<Rightarrow> 1 | _ \<Rightarrow> 0)"

lemma null_char:
  assumes "jp_tokens st = None" "len \<le> length js" "jp_pos st < len" "lexeme_at js len (jp_pos st) = (lx, nxt)"
  shows "\<exists>par. jsmn_char js len num (js ! jp_pos st) count st = Inr (case lx of
      Lx_Bad e \<Rightarrow> Return e st
    | _ \<Rightarrow> Continue (count + int (counts lx)) (st\<lparr>jp_pos := nxt, jp_toksuper := par\<rparr>))"
proof -
  have self: "st\<lparr>jp_pos := jp_pos st\<rparr> = st" "st\<lparr>jp_toksuper := jp_toksuper st\<rparr> = st" by simp_all
  obtain r where r: "string_loop js len (Suc (jp_pos st)) = Inr r"
    using string_loop_total [of len js "Suc (jp_pos st)"] assms(2,3) by auto
  obtain r' where r': "primitive_loop js len (jp_pos st) = Inr r'"
    using primitive_loop_total [of len js "jp_pos st"] assms(2,3) by auto
  have string: "bindR (jsmn_parse_string js len num st) (jsmn_leaf count) = Inr (case lx of
      Lx_Bad e \<Rightarrow> Return e st | _ \<Rightarrow> Continue (count + int (counts lx)) (st\<lparr>jp_pos := nxt, jp_toksuper := jp_toksuper st\<rparr>))"
    if "lex_string js len (jp_pos st) = (lx, nxt)"
    using that r assms(1) self
    by (cases r) (auto simp: lex_string_def jsmn_parse_string_def Let_def jsmn_leaf_def jsmnerr_defs counts_def)
  have primitive: "bindR (jsmn_parse_primitive js len num st) (jsmn_leaf count) = Inr (case lx of
      Lx_Bad e \<Rightarrow> Return e st | _ \<Rightarrow> Continue (count + int (counts lx)) (st\<lparr>jp_pos := nxt, jp_toksuper := jp_toksuper st\<rparr>))"
    if "lex_primitive js len (jp_pos st) = (lx, nxt)"
    using that r' assms(1) self
    by (cases r') (auto simp: lex_primitive_def jsmn_parse_primitive_def Let_def jsmn_leaf_def jsmnerr_defs counts_def)
  have other: "lex_string js len p \<noteq> (Lx_Colon, n)" "lex_primitive js len p \<noteq> (Lx_Colon, n)" for p n
    by (auto simp: lex_string_def lex_primitive_def split: sum.split option.split string_end.split)
  have "jsmn_char js len num (js ! jp_pos st) count st = Inr (case lx of
      Lx_Bad e \<Rightarrow> Return e st
    | _ \<Rightarrow> Continue (count + int (counts lx)) (st\<lparr>jp_pos := nxt,
        jp_toksuper := (if lx = Lx_Colon then int (jp_toknext st) - 1 else jp_toksuper st)\<rparr>))"
    using assms(1,4) self string primitive other
    by (auto simp: jsmn_char_def lexeme_at_def Let_def jsmn_open_def jsmn_close_def jsmn_comma_def counts_def
        split: if_split_asm lexeme.split)
  thus ?thesis by blast
qed

text \<open>Lexemes lie within the text, and end where they begin or later.\<close>

lemma lex_primitive_within:
  assumes "len \<le> length js" "pos < len" "js ! pos \<noteq> 0" "\<not> ends_primitive (js ! pos)" "lex_primitive js len pos = (lx, nxt)"
  shows "pos \<le> nxt \<and> nxt < len"
proof -
  obtain r where r: "primitive_loop js len pos = Inr r" "\<And>q. r = Some q \<Longrightarrow> q \<le> len"
    using primitive_loop_total [of len js pos] assms(1,2) by auto
  show ?thesis
    using assms r primitive_loop_first [of js len pos _ "js ! pos"]
    by (fastforce simp: lex_primitive_def split: option.split_asm)
qed

lemma lexeme_within:
  assumes "len \<le> length js" "pos < len" "js ! pos \<noteq> 0" "lexeme_at js len pos = (lx, nxt)"
  shows "pos \<le> nxt \<and> nxt < len"
proof -
  have string: "pos \<le> nxt \<and> nxt < len" if "lex_string js len pos = (lx, nxt)"
    using that string_loop_total [of len js "Suc pos"] assms(1,2)
    by (auto simp: lex_string_def split: string_end.split_asm)
  show ?thesis
    using assms string lex_primitive_within [OF assms(1-3)]
    by (auto simp: lexeme_at_def Let_def ends_primitive_def split: if_split_asm)
qed

text \<open>A step keeps the state of the code in shape.\<close>

lemma jstep_length:
  assumes "jstep num lx pos ts par = Inr (ts', par')" "length ts \<le> num" "- 1 \<le> par" "par < int (length ts)"
  shows "length ts' = length ts + counts lx \<and> length ts' \<le> num \<and> - 1 \<le> par' \<and> par' < int (length ts')"
proof -
  have idx: "idx (last_idx P (take i ts)) < int (length ts)" "- 1 \<le> idx (last_idx P (take i ts))" for P i
    using last_idx_Some [of P "take i ts"] by (cases "last_idx P (take i ts)"; auto)+
  show ?thesis
    using assms idx
    by (cases lx) (auto simp: counts_def split: if_split_asm option.split_asm dest: last_idx_Some)
qed

lemma holds_moved:
  assumes "holds num st ts rest" "jstep num lx pos ts (jp_toksuper st) = Inr (ts', par')"
  shows "holds num ((moved nxt ts' par' (drop (length ts' - length ts) rest) st)\<lparr>jp_pos := q\<rparr>) ts' (drop (length ts' - length ts) rest)"
  using assms(1) jstep_length [OF assms(2)] by (auto simp: holds_def moved_def)

subsection \<open>A whole text\<close>

text \<open>The lexemes from a position on, each with its own, up to a bad one, a NUL or the end; and where they end.\<close>

definition bad :: "lexeme \<Rightarrow> bool" where
  "bad lx = (case lx of Lx_Bad e \<Rightarrow> True | _ \<Rightarrow> False)"

function lexemes :: "byte list \<Rightarrow> nat \<Rightarrow> nat \<Rightarrow> (lexeme \<times> nat) list \<times> nat" where
  "lexemes js len pos =
     (if pos < len \<and> len \<le> length js \<and> js ! pos \<noteq> 0 then
        let lx = fst (lexeme_at js len pos);
            ls = if bad lx then ([], pos) else lexemes js len (snd (lexeme_at js len pos) + 1) in
        ((lx, pos) # fst ls, snd ls)
      else ([], pos))"
  by pat_completeness auto
termination
proof (relation "measure (\<lambda>(js, len, pos). len - pos)", goal_cases)
  case (2 js len pos lx)
  hence "pos \<le> snd (lexeme_at js len pos) \<and> snd (lexeme_at js len pos) < len"
    using lexeme_within [of len js pos "fst (lexeme_at js len pos)" "snd (lexeme_at js len pos)"] by simp
  thus ?case by auto
qed simp

declare lexemes.simps [simp del]

fun jrun :: "nat \<Rightarrow> (lexeme \<times> nat) list \<Rightarrow> jsmntok list \<Rightarrow> int \<Rightarrow> int \<times> jsmntok list \<times> int \<times> nat + jsmntok list \<times> int" where
  "jrun num [] ts par = Inr (ts, par)"
| "jrun num ((lx, pos) # ls) ts par =
     (case jstep num lx pos ts par of
        Inl e \<Rightarrow> Inl (e, ts, par, pos)
      | Inr (ts', par') \<Rightarrow> jrun num ls ts' par')"

text \<open>What a call returns: the result, the state, and the part of the array the state is to have.\<close>

definition outcome :: "nat \<Rightarrow> (lexeme \<times> nat) list \<times> nat \<Rightarrow> jsmntok list \<Rightarrow> int \<Rightarrow> jsmntok list \<Rightarrow> int \<times> jsmn_state" where
  "outcome num ls ts par rest =
     (case jrun num (fst ls) ts par of
        Inl (e, ts', par', p) \<Rightarrow>
          (e, \<lparr>jp_pos = p, jp_toknext = length ts', jp_toksuper = par', jp_tokens = Some (ts' @ drop (length ts' - length ts) rest)\<rparr>)
      | Inr (ts', par') \<Rightarrow>
          (if last_idx tok_open ts' = None then int (length ts') else JSMN_ERROR_PART,
           \<lparr>jp_pos = snd ls, jp_toknext = length ts', jp_toksuper = par', jp_tokens = Some (ts' @ drop (length ts' - length ts) rest)\<rparr>))"

lemma jrun_grows:
  assumes "length ts \<le> num" "- 1 \<le> par" "par < int (length ts)"
  shows "case jrun num ls ts par of
      Inl (e, ts', par', p) \<Rightarrow> length ts \<le> length ts' \<and> length ts' \<le> num
    | Inr (ts', par') \<Rightarrow> length ts' = length ts + (\<Sum>l\<leftarrow>ls. counts (fst l)) \<and> length ts' \<le> num"
  using assms
proof (induction num ls ts par rule: jrun.induct)
  case (2 num lx pos ls ts par)
  show ?case
  proof (cases "jstep num lx pos ts par")
    case (Inl e)
    thus ?thesis using 2 by simp
  next
    case (Inr r)
    obtain ts' par' where r: "r = (ts', par')" by (cases r)
    from jstep_length [OF Inr [unfolded r] 2(2-4)] 2(1) [OF Inr r [symmetric]] show ?thesis
      by (auto simp: Inr r split: sum.splits prod.splits)
  qed
qed simp

lemma finish_outcome:
  assumes "holds num st ts rest"
  shows "jsmn_finish (int (length ts)) st = Inr (outcome num ([], jp_pos st) ts (jp_toksuper st) rest)"
  using assms by (cases st) (simp add: holds_def jsmn_finish_def outcome_def last_token_eq)

lemma loop_refines:
  assumes "holds num st ts rest" "len \<le> length js"
  shows "jsmn_loop js len num (int (length ts)) st = Inr (outcome num (lexemes js len (jp_pos st)) ts (jp_toksuper st) rest)"
  using assms(1)
proof (induction "len - jp_pos st" arbitrary: st ts rest rule: less_induct)
  case less
  note L = jsmn_loop.simps [of js len num "int (length ts)" st] lexemes.simps [of js len "jp_pos st"]
  show ?case
  proof (cases "jp_pos st < len \<and> js ! jp_pos st \<noteq> 0")
    case False
    hence "lexemes js len (jp_pos st) = ([], jp_pos st)"
      "jsmn_loop js len num (int (length ts)) st = jsmn_finish (int (length ts)) st"
      using assms(2) by (auto simp: L)
    thus ?thesis using finish_outcome [OF less.prems] by simp
  next
    case True
    hence pos: "jp_pos st < len" and nz: "js ! jp_pos st \<noteq> 0" by simp_all
    obtain lx nxt where lex: "lexeme_at js len (jp_pos st) = (lx, nxt)" by (cases "lexeme_at js len (jp_pos st)")
    note w = lexeme_within [OF assms(2) pos nz lex]
    note C = char_refines [OF less.prems assms(2) pos lex, of "int (length ts)"]
    show ?thesis
    proof (cases "jstep num lx (jp_pos st) ts (jp_toksuper st)")
      case (Inl e)
      have "jp_toknext st = length ts" "jp_tokens st = Some (ts @ rest)" using less.prems by (simp_all add: holds_def)
      moreover obtain ls q where "lexemes js len (jp_pos st) = ((lx, jp_pos st) # ls, q)"
        using pos nz assms(2) lex by (simp add: L Let_def)
      moreover have "jsmn_loop js len num (int (length ts)) st = Inr (e, st)"
        using pos nz assms(2) C Inl by (simp add: L(1))
      ultimately show ?thesis using Inl by (cases st) (simp add: outcome_def)
    next
      case (Inr r)
      obtain ts' par' where r: "r = (ts', par')" by (cases r)
      let ?rest = "drop (length ts' - length ts) rest"
      let ?st = "(moved nxt ts' par' ?rest st)\<lparr>jp_pos := nxt + 1\<rparr>"
      have g: "length ts \<le> length ts'" "length ts' = length ts + counts lx"
        using jstep_length [OF Inr [unfolded r]] less.prems by (auto simp: holds_def)
      have "\<not> bad lx" using Inr by (auto simp: bad_def split: lexeme.split)
      hence lexs: "lexemes js len (jp_pos st) = ((lx, jp_pos st) # fst (lexemes js len (nxt + 1)), snd (lexemes js len (nxt + 1)))"
        using pos nz assms(2) lex by (simp add: L Let_def)
      have step: "jsmn_loop js len num (int (length ts)) st = jsmn_loop js len num (int (length ts')) ?st"
        using pos nz assms(2) C Inr r by (simp add: L(1) moved_def)
      have "holds num ?st ts' ?rest" using holds_moved [OF less.prems Inr [unfolded r]] .
      moreover have "len - (nxt + 1) < len - jp_pos st" using w by auto
      ultimately have "jsmn_loop js len num (int (length ts')) ?st = Inr (outcome num (lexemes js len (nxt + 1)) ts' par' ?rest)"
        using less.hyps [of ?st ts' ?rest] by (simp add: moved_def)
      moreover have "outcome num (lexemes js len (jp_pos st)) ts (jp_toksuper st) rest =
          outcome num (lexemes js len (nxt + 1)) ts' par' ?rest"
      proof -
        have "- 1 \<le> par'" "par' < int (length ts')" "length ts' \<le> num"
          using jstep_length [OF Inr [unfolded r]] less.prems by (auto simp: holds_def)
        with jrun_grows [of ts' num par' "fst (lexemes js len (nxt + 1))"] g(1) show ?thesis
          by (auto simp: outcome_def lexs Inr r ac_simps split: sum.split prod.split)
      qed
      ultimately show ?thesis using step by simp
    qed
  qed
qed

end
