(* ===== verification/Jsmn_Tokens.thy ===== *)
theory Jsmn_Tokens
  imports Jsmn_Machine
begin

text \<open>
  What a caller of \<open>jsmn_parse\<close> can rely on, for any text: it returns, the tokens lie in the text, are
  nested and have the brackets or quotes they should have; a first call without an array gives the
  number of tokens; and after \<open>JSMN_ERROR_NOMEM\<close> the parse can be taken up with a larger array.
\<close>

subsection \<open>Invariants along a parse\<close>

lemma fresh_holds: "num \<le> length a \<Longrightarrow> holds num (jsmn_fresh (Some a)) [] a"
  by (simp add: holds_def jsmn_fresh_def jsmn_init_def)

lemma parse_outcome:
  assumes "len \<le> length js" "num \<le> length a"
  shows "jsmn_parse js len num (jsmn_fresh (Some a)) = Inr (outcome num (lexemes js len 0) [] (- 1) a)"
  using loop_refines [OF fresh_holds [OF assms(2)] assms(1)] by (simp add: jsmn_parse_def jsmn_fresh_def jsmn_init_def)

lemma lexemes_step:
  assumes "len \<le> length js" "pos < len" "js ! pos \<noteq> 0" "lexeme_at js len pos = (lx, nxt)"
  shows "bad lx \<Longrightarrow> lexemes js len pos = ([(lx, pos)], pos)"
    and "\<not> bad lx \<Longrightarrow> lexemes js len pos = ((lx, pos) # fst (lexemes js len (nxt + 1)), snd (lexemes js len (nxt + 1)))"
  using assms by (simp_all add: lexemes.simps [of js len pos] Let_def)

lemma lexemes_end: "\<not> (pos < len \<and> len \<le> length js \<and> js ! pos \<noteq> 0) \<Longrightarrow> lexemes js len pos = ([], pos)"
  by (subst lexemes.simps) (rule if_not_P)

text \<open>A property that every step keeps holds at the end, wherever the parse ends.\<close>

lemma jrun_induct:
  assumes "len \<le> length js" "I pos ts par" "pos \<le> len"
    and step: "\<And>pos ts par lx nxt ts' par'. I pos ts par \<Longrightarrow> pos < len \<Longrightarrow> js ! pos \<noteq> 0 \<Longrightarrow>
      lexeme_at js len pos = (lx, nxt) \<Longrightarrow> pos \<le> nxt \<Longrightarrow> nxt < len \<Longrightarrow> jstep num lx pos ts par = Inr (ts', par') \<Longrightarrow> I (nxt + 1) ts' par'"
  shows "case jrun num (fst (lexemes js len pos)) ts par of
      Inl (e, ts', par', q) \<Rightarrow> I q ts' par' \<and> q < len \<and> js ! q \<noteq> 0 \<and>
        jstep num (fst (lexeme_at js len q)) q ts' par' = Inl e
    | Inr (ts', par') \<Rightarrow> I (snd (lexemes js len pos)) ts' par' \<and> snd (lexemes js len pos) \<le> len"
  using assms(2,3)
proof (induction "len - pos" arbitrary: pos ts par rule: less_induct)
  case less
  show ?case
  proof (cases "pos < len \<and> js ! pos \<noteq> 0")
    case False
    thus ?thesis using less.prems lexemes_end [of pos len js] by auto
  next
    case True
    hence pos: "pos < len" and nz: "js ! pos \<noteq> 0" by simp_all
    obtain lx nxt where lex: "lexeme_at js len pos = (lx, nxt)" by (cases "lexeme_at js len pos")
    note w = lexeme_within [OF assms(1) pos nz lex] and S = lexemes_step [OF assms(1) pos nz lex]
    show ?thesis
    proof (cases "jstep num lx pos ts par")
      case (Inl e)
      thus ?thesis using S less.prems pos nz lex by (cases "bad lx") auto
    next
      case (Inr r)
      obtain ts' par' where r: "r = (ts', par')" by (cases r)
      have "\<not> bad lx" using Inr by (auto simp: bad_def split: lexeme.split)
      moreover have "I (nxt + 1) ts' par'" using step [OF less.prems(1) pos nz lex] w Inr r by simp
      moreover have "len - (nxt + 1) < len - pos" using w by auto
      ultimately show ?thesis using less.hyps [of "nxt + 1" ts' par'] w S(2) Inr r
        by (auto split: sum.splits prod.splits)
    qed
  qed
qed

subsection \<open>Tokens in the text\<close>

definition bra :: "jsmntype \<Rightarrow> byte" where
  "bra ty = (case ty of JSMN_OBJECT \<Rightarrow> ch_lbrace | JSMN_ARRAY \<Rightarrow> ch_lbracket | _ \<Rightarrow> ch_quote)"

definition ket :: "jsmntype \<Rightarrow> byte" where
  "ket ty = (case ty of JSMN_OBJECT \<Rightarrow> ch_rbrace | JSMN_ARRAY \<Rightarrow> ch_rbracket | _ \<Rightarrow> ch_quote)"

text \<open>The place of a token: brackets are part of an array or object, quotes surround a string.\<close>

definition tok_in_text :: "byte list \<Rightarrow> nat \<Rightarrow> jsmntok \<Rightarrow> bool" where
  "tok_in_text js n t \<longleftrightarrow> (case tok_type t of
     JSMN_STRING \<Rightarrow> 1 \<le> tok_start t \<and> tok_start t \<le> tok_end t \<and> tok_end t < int n \<and>
       js ! nat (tok_start t - 1) = ch_quote \<and> js ! nat (tok_end t) = ch_quote
   | JSMN_PRIMITIVE \<Rightarrow> 0 \<le> tok_start t \<and> tok_start t < tok_end t \<and> tok_end t \<le> int n
   | JSMN_UNDEFINED \<Rightarrow> False
   | ty \<Rightarrow> 0 \<le> tok_start t \<and> tok_start t < int n \<and> js ! nat (tok_start t) = bra ty \<and>
       (tok_end t \<noteq> - 1 \<longrightarrow> tok_start t < tok_end t \<and> tok_end t \<le> int n \<and> js ! nat (tok_end t - 1) = ket ty))"

text \<open>
  Two tokens, the first one earlier in the array: it begins earlier; if it is a string or a primitive
  it ends before the other begins, and an array or object that is closed also may contain the other.
\<close>

definition tok_before :: "jsmntok \<Rightarrow> jsmntok \<Rightarrow> bool" where
  "tok_before t u \<longleftrightarrow> tok_start t < tok_start u \<and>
     (tok_end t = - 1 \<or> tok_end t \<le> tok_start u \<or> container (tok_type t) \<and> tok_end u \<noteq> - 1 \<and> tok_end u \<le> tok_end t)"

definition toks_ok :: "byte list \<Rightarrow> nat \<Rightarrow> jsmntok list \<Rightarrow> bool" where
  "toks_ok js n ts \<longleftrightarrow> list_all (tok_in_text js n) ts \<and> sorted_wrt tok_before ts"

text \<open>The counter of children plays no role.\<close>

definition place :: "jsmntok \<Rightarrow> jsmntype \<times> int \<times> int" where
  "place t = (tok_type t, tok_start t, tok_end t)"

lemma place_bump [simp]: "- 1 \<le> par \<Longrightarrow> par < int (length ts) \<Longrightarrow> map place (bump par ts) = map place ts"
  by (auto simp: bump_def map_update place_def intro!: list_update_same_conv [THEN iffD2])

lemma toks_ok_place: "map place ts = map place us \<Longrightarrow> toks_ok js n ts = toks_ok js n us"
proof -
  have P: "tok_in_text js n t = tok_in_text js n u" "tok_before t t' = tok_before u u'"
    if "place t = place u" "place t' = place u'" for t u t' u'
    using that by (cases "tok_type u"; auto simp: place_def tok_in_text_def tok_before_def)+
  assume eq: "map place ts = map place us"
  hence len: "length ts = length us" by (rule map_eq_imp_length_eq)
  have at: "place (ts ! i) = place (us ! i)" if "i < length us" for i
    using eq len that by (metis nth_map)
  have "tok_in_text js n (ts ! i) = tok_in_text js n (us ! i)" if "i < length us" for i
    using P(1) at [OF that] by blast
  moreover have "tok_before (ts ! i) (ts ! j) = tok_before (us ! i) (us ! j)" if "i < j" "j < length us" for i j
    using P(2) at that by (meson order.strict_trans)
  ultimately show ?thesis
    using len by (auto simp: toks_ok_def list_all_length sorted_wrt_iff_nth_less)
qed

lemma tok_in_text_mono: "tok_in_text js n t \<Longrightarrow> n \<le> m \<Longrightarrow> tok_in_text js m t"
  by (auto simp: tok_in_text_def split: jsmntype.splits)

lemma toks_ok_mono: "toks_ok js n ts \<Longrightarrow> n \<le> m \<Longrightarrow> toks_ok js m ts"
  by (auto simp: toks_ok_def list_all_iff intro: tok_in_text_mono)

text \<open>What a lexeme says of the text.\<close>

lemma lexeme_at_text:
  assumes "len \<le> length js" "pos < len" "js ! pos \<noteq> 0" "lexeme_at js len pos = (lx, nxt)"
  shows "case lx of
      Lx_Open ty \<Rightarrow> container ty \<and> js ! pos = bra ty \<and> nxt = pos
    | Lx_Close ty \<Rightarrow> container ty \<and> js ! pos = ket ty \<and> nxt = pos
    | Lx_Leaf ty s e \<Rightarrow> \<not> container ty \<and> pos \<le> s \<and>
        tok_in_text js (nxt + 1) \<lparr>tok_type = ty, tok_start = int s, tok_end = int e, tok_size = 0\<rparr>
    | Lx_Bad e \<Rightarrow> e = JSMN_ERROR_INVAL \<or> e = JSMN_ERROR_PART
    | _ \<Rightarrow> nxt = pos"
proof -
  obtain r where r: "string_loop js len (pos + 1) = Inr r"
    "\<And>q. r = Quote_At q \<Longrightarrow> pos + 1 \<le> q \<and> q < len \<and> js ! q = ch_quote"
    using string_loop_total [of len js "pos + 1"] assms(1,2) by auto
  obtain r' where r': "primitive_loop js len pos = Inr r'" "\<And>q. r' = Some q \<Longrightarrow> q \<le> len"
    using primitive_loop_total [of len js pos] assms(1,2) by auto
  have first: "pos < q" if "r' = Some q" "\<not> ends_primitive (js ! pos)" for q
    using primitive_loop_first [of js len pos q "js ! pos"] r'(1) that assms(1-3) by simp
  have "\<exists>ty s e. lx = Lx_Leaf ty s e \<and> ty = JSMN_STRING \<and> s = pos + 1 \<and> e = nxt \<and> pos + 1 \<le> nxt \<and> js ! nxt = ch_quote
      \<or> lx = Lx_Bad JSMN_ERROR_INVAL \<or> lx = Lx_Bad JSMN_ERROR_PART" if "lexeme_at js len pos = lex_string js len pos"
    using that r assms(4) by (cases r) (auto simp: lex_string_def)
  moreover have "\<exists>ty s e. lx = Lx_Leaf ty s e \<and> ty = JSMN_PRIMITIVE \<and> s = pos \<and> e = nxt + 1 \<and> pos \<le> nxt
      \<or> lx = Lx_Bad JSMN_ERROR_INVAL" if "lexeme_at js len pos = lex_primitive js len pos" "\<not> ends_primitive (js ! pos)"
    using that r' first assms(4) by (cases r') (fastforce simp: lex_primitive_def)+
  ultimately show ?thesis
    using assms(4)
    by (auto simp: lexeme_at_def Let_def container_def bra_def ket_def tok_in_text_def ends_primitive_def
        split: if_split_asm)
qed

text \<open>A token that begins at the position comes after all others.\<close>

lemma toks_ok_snoc:
  assumes "toks_ok js pos ts" "tok_in_text js (nxt + 1) t" "pos \<le> nxt" "int pos \<le> tok_start t"
  shows "toks_ok js (nxt + 1) (ts @ [t])"
proof -
  have "tok_before u t" if "u \<in> set ts" for u
  proof -
    have "tok_in_text js pos u" using assms(1) that by (auto simp: toks_ok_def list_all_iff)
    thus ?thesis using assms(4) by (auto simp: tok_in_text_def tok_before_def split: jsmntype.splits)
  qed
  thus ?thesis
    using assms toks_ok_mono [OF assms(1), of "nxt + 1"] by (auto simp: toks_ok_def sorted_wrt_append)
qed

text \<open>The last open token can be closed.\<close>

lemma toks_ok_close:
  assumes "toks_ok js pos ts" "last_idx tok_open ts = Some i" "tok_type (ts ! i) = ty" "container ty" "js ! pos = ket ty"
  shows "toks_ok js (pos + 1) (ts[i := (ts ! i)\<lparr>tok_end := int pos + 1\<rparr>])"
proof -
  note i = last_idx_Some [OF assms(2)]
  let ?t = "(ts ! i)\<lparr>tok_end := int pos + 1\<rparr>"
  have all: "tok_in_text js (pos + 1) (ts ! j)" "tok_in_text js pos (ts ! j)" if "j < length ts" for j
    using assms(1) that by (auto simp: toks_ok_def list_all_length intro: tok_in_text_mono)
  have "tok_in_text js (pos + 1) ?t"
    using all(2) [of i] i assms(3-5) by (auto simp: tok_in_text_def container_def)
  moreover have "tok_before (ts ! j) ?t" if "j < i" for j
    using assms(1) i that by (auto simp: toks_ok_def sorted_wrt_iff_nth_less tok_before_def tok_open_def)
  moreover have "tok_before ?t (ts ! j)" if "i < j" "j < length ts" for j
  proof -
    have "tok_end (ts ! j) \<noteq> - 1" using i that all(2) [of j] by (auto simp: tok_open_def tok_in_text_def split: jsmntype.splits)
    moreover have "tok_end (ts ! j) \<le> int pos" using all(2) [of j] that(2) calculation
      by (auto simp: tok_in_text_def split: jsmntype.splits)
    ultimately show ?thesis
      using assms(1,3,4) i that by (auto simp: toks_ok_def sorted_wrt_iff_nth_less tok_before_def)
  qed
  ultimately show ?thesis
    using assms(1) all(1) i by (auto simp: toks_ok_def list_all_length sorted_wrt_iff_nth_less nth_list_update)
qed

definition mach_ok :: "byte list \<Rightarrow> nat \<Rightarrow> nat \<Rightarrow> jsmntok list \<Rightarrow> int \<Rightarrow> bool" where
  "mach_ok js num pos ts par \<longleftrightarrow> toks_ok js pos ts \<and> length ts \<le> num \<and> - 1 \<le> par \<and> par < int (length ts)"

lemma mach_ok_step:
  assumes "len \<le> length js" "mach_ok js num pos ts par" "pos < len" "js ! pos \<noteq> 0" "lexeme_at js len pos = (lx, nxt)"
    "jstep num lx pos ts par = Inr (ts', par')"
  shows "mach_ok js num (nxt + 1) ts' par'"
proof -
  note at = lexeme_at_text [OF assms(1,3-5)] and w = lexeme_within [OF assms(1,3-5)]
  have par: "- 1 \<le> par" "par < int (length ts)" "length ts \<le> num" and ok: "toks_ok js pos ts"
    using assms(2) by (simp_all add: mach_ok_def)
  have bump: "toks_ok js pos (bump par ts)" using toks_ok_place [OF place_bump [OF par(1,2)]] ok by simp
  have "toks_ok js (nxt + 1) ts'"
  proof (cases lx)
    case (Lx_Open ty)
    hence "tok_in_text js (nxt + 1) \<lparr>tok_type = ty, tok_start = int pos, tok_end = - 1, tok_size = 0\<rparr>"
      using at by (auto simp: tok_in_text_def container_def)
    from toks_ok_snoc [OF bump this] show ?thesis using w assms(6) Lx_Open by (auto split: if_split_asm)
  next
    case (Lx_Close ty)
    thus ?thesis using toks_ok_close [OF ok] at assms(6) by (auto split: option.split_asm if_split_asm)
  next
    case (Lx_Leaf ty s e)
    hence "tok_in_text js (nxt + 1) \<lparr>tok_type = ty, tok_start = int s, tok_end = int e, tok_size = 0\<rparr>" using at by simp
    from toks_ok_snoc [OF bump this] show ?thesis using w at assms(6) Lx_Leaf by (auto split: if_split_asm)
  qed (use toks_ok_mono [OF ok, of "nxt + 1"] w assms(6) in auto)
  thus ?thesis using jstep_length [OF assms(6) par(3,1,2)] by (simp add: mach_ok_def)
qed

lemma jrun_fresh:
  assumes "len \<le> length js"
  shows "case jrun num (fst (lexemes js len 0)) [] (- 1) of
      Inl (e, ts, par, q) \<Rightarrow> mach_ok js num q ts par \<and> q < len \<and> e \<in> {JSMN_ERROR_NOMEM, JSMN_ERROR_INVAL, JSMN_ERROR_PART}
    | Inr (ts, par) \<Rightarrow> mach_ok js num (snd (lexemes js len 0)) ts par \<and> snd (lexemes js len 0) \<le> len"
proof -
  have "mach_ok js num 0 [] (- 1)" by (simp add: mach_ok_def toks_ok_def)
  from jrun_induct [of len js "mach_ok js num" 0 "[]" "- 1" num, OF assms this le0] mach_ok_step [OF assms]
  have J: "case jrun num (fst (lexemes js len 0)) [] (- 1) of
      Inl (e, ts, par, q) \<Rightarrow> mach_ok js num q ts par \<and> q < len \<and> js ! q \<noteq> 0 \<and>
        jstep num (fst (lexeme_at js len q)) q ts par = Inl e
    | Inr (ts, par) \<Rightarrow> mach_ok js num (snd (lexemes js len 0)) ts par \<and> snd (lexemes js len 0) \<le> len"
    by blast
  have err: "e \<in> {JSMN_ERROR_NOMEM, JSMN_ERROR_INVAL, JSMN_ERROR_PART}"
    if "jstep num (fst (lexeme_at js len q)) q ts par = Inl e" "q < len" "js ! q \<noteq> 0" for q ts par e
  proof -
    obtain lx nxt where lex: "lexeme_at js len q = (lx, nxt)" by (cases "lexeme_at js len q")
    from lexeme_at_text [OF assms that(2,3) lex] that(1) lex show ?thesis
      by (cases lx) (auto split: if_split_asm option.split_asm)
  qed
  show ?thesis using J err by (auto split: sum.splits prod.splits)
qed

subsection \<open>Counting\<close>

definition lexeme_error :: "lexeme \<Rightarrow> int" where
  "lexeme_error lx = (case lx of Lx_Bad e \<Rightarrow> e | _ \<Rightarrow> 0)"

definition null_result :: "int \<Rightarrow> (lexeme \<times> nat) list \<Rightarrow> int" where
  "null_result count ls = (case List.find (\<lambda>l. bad (fst l)) ls of
     None \<Rightarrow> count + int (\<Sum>l\<leftarrow>ls. counts (fst l))
   | Some l \<Rightarrow> lexeme_error (fst l))"

lemma null_result_Cons:
  "bad (fst l) \<Longrightarrow> null_result count (l # ls) = lexeme_error (fst l)"
  "\<not> bad (fst l) \<Longrightarrow> null_result count (l # ls) = null_result (count + int (counts (fst l))) ls"
  by (simp_all add: null_result_def split: option.split)

lemma null_loop:
  assumes "jp_tokens st = None" "len \<le> length js"
  shows "\<exists>st'. jsmn_loop js len num count st = Inr (null_result count (fst (lexemes js len (jp_pos st))), st')"
  using assms(1)
proof (induction "len - jp_pos st" arbitrary: st count rule: less_induct)
  case less
  note L = jsmn_loop.simps [of js len num count st]
  show ?case
  proof (cases "jp_pos st < len \<and> js ! jp_pos st \<noteq> 0")
    case False
    thus ?thesis using less.prems assms(2) lexemes_end [of "jp_pos st" len js]
      by (auto simp: L jsmn_finish_def null_result_def)
  next
    case True
    hence pos: "jp_pos st < len" and nz: "js ! jp_pos st \<noteq> 0" by simp_all
    obtain lx nxt where lex: "lexeme_at js len (jp_pos st) = (lx, nxt)" by (cases "lexeme_at js len (jp_pos st)")
    note w = lexeme_within [OF assms(2) pos nz lex] and S = lexemes_step [OF assms(2) pos nz lex]
    obtain par where C: "jsmn_char js len num (js ! jp_pos st) count st = Inr (case lx of
        Lx_Bad e \<Rightarrow> Return e st
      | _ \<Rightarrow> Continue (count + int (counts lx)) (st\<lparr>jp_pos := nxt, jp_toksuper := par\<rparr>))"
      using null_char [OF less.prems assms(2) pos lex] by blast
    have read: "c_read js (jp_pos st) = Inr (js ! jp_pos st)" using pos assms(2) by simp
    show ?thesis
    proof (cases "bad lx")
      case True
      thus ?thesis using S(1) C pos nz read by (auto simp: L null_result_Cons lexeme_error_def bad_def split: lexeme.split_asm)
    next
      case False
      let ?st = "st\<lparr>jp_toksuper := par, jp_pos := nxt + 1\<rparr>"
      have "jsmn_loop js len num count st = jsmn_loop js len num (count + int (counts lx)) ?st"
        using False C pos nz read by (cases lx) (simp_all add: L bad_def)
      moreover have "len - jp_pos ?st < len - jp_pos st" using w by auto
      ultimately show ?thesis
        using less.hyps [of ?st "count + int (counts lx)"] less.prems S(2) False by (simp add: null_result_Cons)
    qed
  qed
qed

lemma lexemes_members:
  "l \<in> set (fst (lexemes js len pos)) \<Longrightarrow>
    len \<le> length js \<and> snd l < len \<and> js ! snd l \<noteq> 0 \<and> (\<exists>nxt. lexeme_at js len (snd l) = (fst l, nxt))"
proof (induction js len pos rule: lexemes.induct)
  case (1 js len pos)
  show ?case
  proof (cases "pos < len \<and> len \<le> length js \<and> js ! pos \<noteq> 0")
    case True
    thus ?thesis
      using 1(1) [OF True refl] 1(2) by (subst (asm) lexemes.simps) (auto simp: Let_def prod_eq_iff split: if_split_asm)
  qed (use 1(2) lexemes_end [of pos len js] in auto)
qed

lemma null_result_nonneg:
  assumes "0 \<le> null_result 0 (fst (lexemes js len pos))"
  shows "List.find (\<lambda>l. bad (fst l)) (fst (lexemes js len pos)) = None"
proof (cases "List.find (\<lambda>l. bad (fst l)) (fst (lexemes js len pos))")
  case (Some l)
  hence "l \<in> set (fst (lexemes js len pos))" "bad (fst l)" by (auto simp: find_Some_iff)
  moreover from lexemes_members [OF this(1)] obtain nxt where
    "len \<le> length js" "snd l < len" "js ! snd l \<noteq> 0" "lexeme_at js len (snd l) = (fst l, nxt)" by blast
  from lexeme_at_text [OF this] have "bad (fst l) \<Longrightarrow> lexeme_error (fst l) < 0"
    by (auto simp: bad_def lexeme_error_def jsmnerr_defs split: lexeme.split_asm)
  ultimately show ?thesis using assms Some by (simp add: null_result_def)
qed

text \<open>The machine stops at a bad lexeme, and for want of tokens only if there are too many.\<close>

lemma jrun_Inr_find:
  "jrun num ls ts par = Inr r \<Longrightarrow> List.find (\<lambda>l. bad (fst l)) ls = None"
  by (induction num ls ts par rule: jrun.induct) (auto split: sum.split_asm prod.split_asm simp: bad_def split: lexeme.split_asm)

lemma jstep_nomem:
  assumes "jstep num lx pos ts par = Inl JSMN_ERROR_NOMEM" "\<not> bad lx"
  shows "num \<le> length ts \<and> counts lx = 1"
  using assms by (cases lx) (auto simp: counts_def bad_def jsmnerr_defs split: if_split_asm option.split_asm)

lemma jrun_nomem:
  assumes "jrun num ls ts par = Inl (JSMN_ERROR_NOMEM, ts', par', p)" "List.find (\<lambda>l. bad (fst l)) ls = None"
    and "length ts \<le> num" "- 1 \<le> par" "par < int (length ts)"
  shows "num < length ts + (\<Sum>l\<leftarrow>ls. counts (fst l))"
  using assms
proof (induction num ls ts par rule: jrun.induct)
  case (2 num lx pos ls ts par)
  show ?case
  proof (cases "jstep num lx pos ts par")
    case (Inl e)
    thus ?thesis using 2(2,3) jstep_nomem [of num lx pos ts par] by (auto split: if_split_asm)
  next
    case (Inr r)
    obtain ts1 par1 where r: "r = (ts1, par1)" by (cases r)
    from jstep_length [OF Inr [unfolded r] 2(4-6)] 2(1) [OF Inr r [symmetric]] 2(2,3) show ?thesis
      by (auto simp: Inr r split: if_split_asm)
  qed
qed simp

subsection \<open>Going on after \<open>JSMN_ERROR_NOMEM\<close>\<close>

lemma jstep_more:
  assumes "jstep num lx pos ts par = Inr r" "num \<le> num'"
  shows "jstep num' lx pos ts par = Inr r"
  using assms by (cases lx) (auto split: if_split_asm option.split_asm)

lemma jrun_resume:
  assumes "jrun num (fst (lexemes js len pos)) ts par = Inl (JSMN_ERROR_NOMEM, ts1, par1, p)" "num \<le> num'" "len \<le> length js"
  shows "jrun num' (fst (lexemes js len pos)) ts par = jrun num' (fst (lexemes js len p)) ts1 par1 \<and>
    snd (lexemes js len pos) = snd (lexemes js len p)"
  using assms(1)
proof (induction "len - pos" arbitrary: pos ts par rule: less_induct)
  case less
  show ?case
  proof (cases "pos < len \<and> js ! pos \<noteq> 0")
    case False
    thus ?thesis using less.prems lexemes_end [of pos len js] by auto
  next
    case True
    hence pos: "pos < len" and nz: "js ! pos \<noteq> 0" by simp_all
    obtain lx nxt where lex: "lexeme_at js len pos = (lx, nxt)" by (cases "lexeme_at js len pos")
    note w = lexeme_within [OF assms(3) pos nz lex] and S = lexemes_step [OF assms(3) pos nz lex]
    show ?thesis
    proof (cases "jstep num lx pos ts par")
      case (Inl e)
      thus ?thesis using S less.prems by (cases "bad lx") auto
    next
      case (Inr r)
      obtain ts' par' where r: "r = (ts', par')" by (cases r)
      have "\<not> bad lx" using Inr by (auto simp: bad_def split: lexeme.split)
      moreover have "len - (nxt + 1) < len - pos" using w by auto
      ultimately show ?thesis
        using less.hyps [of "nxt + 1" ts' par'] less.prems S(2) Inr jstep_more [OF Inr assms(2)] r by simp
    qed
  qed
qed

subsection \<open>Properties\<close>

text \<open>
  C19. The tokenizer is safe and its tokens make sense, for any text and any array. It returns, reads
  nothing beyond the given length and writes nothing beyond the given number of tokens; the result is one
  of the three errors, or the number of tokens used, all of which are then closed. Also after an
  error every token used has its type, brackets or quotes at its ends, and no two overlap unless one
  is an array or object that contains the other.
\<close>

theorem jsmn_parse_tokens:
  assumes "len \<le> length js" "num \<le> length a"
  shows "\<exists>r st ts. jsmn_parse js len num (jsmn_fresh (Some a)) = Inr (r, st) \<and>
    jp_tokens st = Some (ts @ drop (length ts) a) \<and> jp_toknext st = length ts \<and> length ts \<le> num \<and> jp_pos st \<le> len \<and>
    list_all (tok_in_text js len) ts \<and> sorted_wrt tok_before ts \<and>
    (r \<in> {JSMN_ERROR_NOMEM, JSMN_ERROR_INVAL, JSMN_ERROR_PART} \<or> r = int (length ts) \<and> (\<forall>t\<in>set ts. tok_end t \<noteq> - 1))"
proof -
  let ?ls = "lexemes js len 0"
  note J = jrun_fresh [OF assms(1), of num]
  show ?thesis
  proof (cases "jrun num (fst ?ls) [] (- 1)")
    case (Inl x)
    obtain e ts par q where x: "x = (e, ts, par, q)" by (cases x)
    have "mach_ok js num q ts par" "q < len" "e \<in> {JSMN_ERROR_NOMEM, JSMN_ERROR_INVAL, JSMN_ERROR_PART}"
      using J Inl x by auto
    thus ?thesis
      using parse_outcome [OF assms] Inl x toks_ok_mono [of js q ts len]
      by (auto simp: outcome_def mach_ok_def toks_ok_def)
  next
    case (Inr x)
    obtain ts par where x: "x = (ts, par)" by (cases x)
    have ok: "mach_ok js num (snd ?ls) ts par" "snd ?ls \<le> len" using J Inr x by auto
    have "tok_start t \<noteq> - 1" if "t \<in> set ts" for t
    proof -
      have "tok_in_text js (snd ?ls) t" using that ok(1) by (auto simp: mach_ok_def toks_ok_def list_all_iff)
      thus ?thesis by (cases "tok_type t") (auto simp: tok_in_text_def)
    qed
    hence "\<forall>t\<in>set ts. tok_end t \<noteq> - 1" if "last_idx tok_open ts = None"
      using that by (auto simp: last_idx_None tok_open_def)
    thus ?thesis
      using parse_outcome [OF assms] Inr x ok toks_ok_mono [of js "snd ?ls" ts len]
      by (auto simp: outcome_def mach_ok_def toks_ok_def)
  qed
qed

text \<open>The text \<open>[1,"a"]\<close>, with room for two of its three tokens.\<close>

definition demo_text :: "byte list" where
  "demo_text = [0x5B, 0x31, 0x2C, 0x22, 0x61, 0x22, 0x5D]"

definition no_tok :: jsmntok where
  "no_tok = \<lparr>tok_type = JSMN_UNDEFINED, tok_start = 0, tok_end = 0, tok_size = 0\<rparr>"

theorem jsmn_parse_tokens_witness:
  "\<exists>r st ts. jsmn_parse demo_text 7 2 (jsmn_fresh (Some [no_tok, no_tok])) = Inr (r, st) \<and>
    length ts \<le> 2 \<and> jp_tokens st = Some (ts @ drop (length ts) [no_tok, no_tok]) \<and> sorted_wrt tok_before ts"
proof -
  have "7 \<le> length demo_text" "2 \<le> length [no_tok, no_tok]" by (simp_all add: demo_text_def)
  from jsmn_parse_tokens [OF this] show ?thesis by blast
qed

text \<open>
  C28. A first call without an array gives the number of tokens. If the parse with an array succeeds,
  the count is its result; and an array with as many tokens as were counted is never too small.
\<close>

theorem jsmn_count_exact:
  assumes "len \<le> length js" "num \<le> length a"
  shows "\<exists>n st0 r st. jsmn_parse js len k (jsmn_fresh None) = Inr (n, st0) \<and>
    jsmn_parse js len num (jsmn_fresh (Some a)) = Inr (r, st) \<and>
    (0 \<le> r \<longrightarrow> n = r) \<and> (0 \<le> n \<and> n \<le> int num \<longrightarrow> r \<noteq> JSMN_ERROR_NOMEM)"
proof -
  let ?ls = "lexemes js len 0"
  obtain st0 where null: "jsmn_parse js len k (jsmn_fresh None) = Inr (null_result 0 (fst ?ls), st0)"
    using null_loop [of "jsmn_fresh None" len js k 0] assms(1) by (auto simp: jsmn_parse_def jsmn_fresh_def jsmn_init_def)
  let ?n = "null_result 0 (fst ?ls)"
  have n: "?n = int (\<Sum>l\<leftarrow>fst ?ls. counts (fst l))" if "List.find (\<lambda>l. bad (fst l)) (fst ?ls) = None"
    using that by (simp add: null_result_def)
  obtain r st where tokens: "jsmn_parse js len num (jsmn_fresh (Some a)) = Inr (r, st)"
    and r: "(r, st) = outcome num ?ls [] (- 1) a"
    using parse_outcome [OF assms] by (cases "outcome num ?ls [] (- 1) a") simp
  have "r = ?n" if nonneg: "0 \<le> r"
  proof -
    obtain ts par where run: "jrun num (fst ?ls) [] (- 1) = Inr (ts, par)" "r = int (length ts)"
      using nonneg r jrun_fresh [OF assms(1), of num]
      by (auto simp: outcome_def jsmnerr_defs split: sum.split_asm prod.split_asm if_split_asm)
    have "length ts = (\<Sum>l\<leftarrow>fst ?ls. counts (fst l))"
      using jrun_grows [of "[]" num "- 1" "fst ?ls"] run(1) by simp
    with run n [OF jrun_Inr_find [OF run(1)]] show ?thesis by simp
  qed
  moreover have "r \<noteq> JSMN_ERROR_NOMEM" if "0 \<le> ?n" "?n \<le> int num"
  proof
    assume "r = JSMN_ERROR_NOMEM"
    then obtain ts par p where "jrun num (fst ?ls) [] (- 1) = Inl (JSMN_ERROR_NOMEM, ts, par, p)"
      using r by (auto simp: outcome_def jsmnerr_defs split: sum.split_asm prod.split_asm if_split_asm)
    from jrun_nomem [OF this null_result_nonneg [OF that(1)]] that n [OF null_result_nonneg [OF that(1)]]
    show False by simp
  qed
  ultimately show ?thesis using null tokens by metis
qed

theorem jsmn_count_exact_witness:
  "\<exists>n st0 r st. jsmn_parse demo_text 7 0 (jsmn_fresh None) = Inr (n, st0) \<and>
    jsmn_parse demo_text 7 3 (jsmn_fresh (Some [no_tok, no_tok, no_tok])) = Inr (r, st) \<and> (0 \<le> r \<longrightarrow> n = r)"
proof -
  have "7 \<le> length demo_text" "3 \<le> length [no_tok, no_tok, no_tok]" by (simp_all add: demo_text_def)
  from jsmn_count_exact [OF this, of 0] show ?thesis by blast
qed

text \<open>
  C27. A parse that has run out of tokens can be taken up. If the array is enlarged, with the tokens
  stored so far at its beginning and anything behind them, calling \<open>jsmn_parse\<close> once more with the same
  parser gives what a parse from the start with the large array gives: result, tokens and parser.
\<close>

theorem jsmn_resume_after_nomem:
  assumes "len \<le> length js" "num \<le> length a"
    and "jsmn_parse js len num (jsmn_fresh (Some a)) = Inr (JSMN_ERROR_NOMEM, st)"
    and "num \<le> num'" "num' \<le> length a + length b"
  shows "jsmn_parse js len num' (st\<lparr>jp_tokens := Some (the (jp_tokens st) @ b)\<rparr>) =
    jsmn_parse js len num' (jsmn_fresh (Some (a @ b)))"
proof -
  let ?ls = "lexemes js len 0"
  have out: "outcome num ?ls [] (- 1) a = (JSMN_ERROR_NOMEM, st)" using assms(3) parse_outcome [OF assms(1,2)] by simp
  obtain ts par p where run: "jrun num (fst ?ls) [] (- 1) = Inl (JSMN_ERROR_NOMEM, ts, par, p)"
    and st: "st = \<lparr>jp_pos = p, jp_toknext = length ts, jp_toksuper = par, jp_tokens = Some (ts @ drop (length ts) a)\<rparr>"
    using out by (auto simp: outcome_def jsmnerr_defs split: sum.split_asm prod.split_asm if_split_asm)
  have ok: "length ts \<le> num" "- 1 \<le> par" "par < int (length ts)"
    using jrun_fresh [OF assms(1), of num] run by (simp_all add: mach_ok_def)
  note R = jrun_resume [OF run assms(4,1)]
  let ?st = "st\<lparr>jp_tokens := Some (the (jp_tokens st) @ b)\<rparr>" and ?rest = "drop (length ts) a @ b"
  have "holds num' ?st ts ?rest" using ok assms(2,4,5) by (simp add: holds_def st)
  from loop_refines [OF this assms(1)]
  have "jsmn_parse js len num' ?st = Inr (outcome num' (lexemes js len p) ts par ?rest)"
    by (simp add: jsmn_parse_def st)
  moreover have "outcome num' (lexemes js len p) ts par ?rest = outcome num' ?ls [] (- 1) (a @ b)"
  proof -
    have rest: "drop (n - length ts) ?rest = drop n (a @ b)" if "length ts \<le> n" for n
      using that ok(1) assms(2) drop_append [of "length ts" a b] drop_drop [of "n - length ts" "length ts" "a @ b"] by simp
    have "case jrun num' (fst (lexemes js len p)) ts par of
        Inl (e, ts', par', p) \<Rightarrow> length ts \<le> length ts' | Inr (ts', par') \<Rightarrow> length ts \<le> length ts'"
      using jrun_grows [of ts num' par "fst (lexemes js len p)"] ok assms(4)
      by (auto split: sum.split_asm sum.split prod.split)
    thus ?thesis using R rest by (auto simp: outcome_def simp del: drop_append split: sum.split prod.split)
  qed
  ultimately show ?thesis using parse_outcome [of len js num' "a @ b"] assms(1,5) by simp
qed

theorem jsmn_resume_after_nomem_witness:
  "\<exists>st. jsmn_parse demo_text 7 2 (jsmn_fresh (Some [no_tok, no_tok])) = Inr (JSMN_ERROR_NOMEM, st) \<and>
    jsmn_parse demo_text 7 3 (st\<lparr>jp_tokens := Some (the (jp_tokens st) @ [no_tok])\<rparr>) =
    jsmn_parse demo_text 7 3 (jsmn_fresh (Some [no_tok, no_tok, no_tok]))"
proof -
  obtain st where st: "jsmn_parse demo_text 7 2 (jsmn_fresh (Some [no_tok, no_tok])) = Inr (JSMN_ERROR_NOMEM, st)"
    by (simp add: jsmn_parse_def jsmn_fresh_def jsmn_init_def demo_text_def jsmn_loop.simps jsmn_char_def jsmn_open_def jsmn_parse_primitive_def jsmn_parse_string_def primitive_loop.simps string_loop.simps jsmn_alloc_token_def with_token_def jsmn_fill_token_def jsmn_leaf_def count_child_def jsmn_comma_def container_def Let_def ends_primitive_def blank_def no_tok_def jsmnerr_defs)
  have "7 \<le> length demo_text" "2 \<le> length [no_tok, no_tok]" by (simp_all add: demo_text_def)
  from jsmn_resume_after_nomem [OF this st, of 3 "[no_tok]"] st show ?thesis by auto
qed

end
