(* ===== verification/Jsmn_Print.thy ===== *)
theory Jsmn_Print
  imports Jsmn_Tokens
begin

text \<open>
  What \<open>jsmn_parse\<close> does with JSON: values as a datatype, their texts, the tokens they should have, and
  the theorem that a text gives exactly these tokens.
\<close>

subsection \<open>JSON values and their texts\<close>

text \<open>
  Strings and primitives are kept as they are written, escapes included. A value also says how it is laid
  out: the white space after an opening bracket, before and after each element of an array, and in each member
  of an object before the key, before the colon, after the colon and after the value.
\<close>

type_synonym gap = "byte list"

datatype json =
    JPrim "byte list"
  | JStr "byte list"
  | JArr gap "(gap \<times> json \<times> gap) list"
  | JObj gap "(gap \<times> byte list \<times> gap \<times> gap \<times> json \<times> gap) list"

text \<open>The text of a value.\<close>

fun jprint :: "json \<Rightarrow> byte list"
  and jprint_arr :: "(gap \<times> json \<times> gap) list \<Rightarrow> byte list"
  and jprint_obj :: "(gap \<times> byte list \<times> gap \<times> gap \<times> json \<times> gap) list \<Rightarrow> byte list" where
  "jprint (JPrim s) = s"
| "jprint (JStr s) = ch_quote # s @ [ch_quote]"
| "jprint (JArr g vs) = ch_lbracket # (g @ jprint_arr vs) @ [ch_rbracket]"
| "jprint (JObj g kvs) = ch_lbrace # (g @ jprint_obj kvs) @ [ch_rbrace]"
| "jprint_arr [] = []"
| "jprint_arr ((g, v, h) # vs) = g @ jprint v @ h @ (if vs = [] then [] else ch_comma # jprint_arr vs)"
| "jprint_obj [] = []"
| "jprint_obj ((g, k, a, b, v, h) # kvs) = g @ ch_quote # k @ ch_quote # a @ ch_colon # b @ jprint v @ h @
     (if kvs = [] then [] else ch_comma # jprint_obj kvs)"

text \<open>Strings with the escapes of JSON, and primitives.\<close>

fun body_ok :: "byte list \<Rightarrow> bool" where
  "body_ok [] = True"
| "body_ok (c # cs) =
     (if c = 0 \<or> c = ch_quote then False
      else if c = ch_backslash then
        (case cs of
           [] \<Rightarrow> False
         | e # ds \<Rightarrow> if simple_escape e then body_ok ds
             else e = ch_u \<and> 4 \<le> length ds \<and> list_all hex_digit (take 4 ds) \<and> body_ok (drop 4 ds))
      else body_ok cs)"

definition prim_char :: "byte \<Rightarrow> bool" where
  "prim_char c \<longleftrightarrow> 32 < c \<and> c < 127 \<and> \<not> ends_primitive c"

definition prim_ok :: "byte list \<Rightarrow> bool" where
  "prim_ok s \<longleftrightarrow> s \<noteq> [] \<and> list_all prim_char s \<and> hd s \<notin> {ch_quote, ch_lbracket, ch_lbrace}"

fun json_ok :: "json \<Rightarrow> bool"
  and arr_ok :: "(gap \<times> json \<times> gap) list \<Rightarrow> bool"
  and obj_ok :: "(gap \<times> byte list \<times> gap \<times> gap \<times> json \<times> gap) list \<Rightarrow> bool" where
  "json_ok (JPrim s) = prim_ok s"
| "json_ok (JStr s) = body_ok s"
| "json_ok (JArr g vs) = (list_all blank g \<and> arr_ok vs)"
| "json_ok (JObj g kvs) = (list_all blank g \<and> obj_ok kvs)"
| "arr_ok [] = True"
| "arr_ok ((g, v, h) # vs) = (list_all blank g \<and> list_all blank h \<and> json_ok v \<and> arr_ok vs)"
| "obj_ok [] = True"
| "obj_ok ((g, k, a, b, v, h) # kvs) =
     (list_all blank g \<and> list_all blank a \<and> list_all blank b \<and> list_all blank h \<and> body_ok k \<and> json_ok v \<and> obj_ok kvs)"

text \<open>
  The tokens of a value whose text begins at \<open>p\<close>: an array with the number of its elements, an object
  with the number of its members, each a key with one child, the value.
\<close>

abbreviation tok :: "jsmntype \<Rightarrow> nat \<Rightarrow> nat \<Rightarrow> nat \<Rightarrow> jsmntok" where
  "tok ty s e n \<equiv> \<lparr>tok_type = ty, tok_start = int s, tok_end = int e, tok_size = int n\<rparr>"

fun jtoks :: "nat \<Rightarrow> json \<Rightarrow> jsmntok list"
  and jtoks_arr :: "nat \<Rightarrow> (gap \<times> json \<times> gap) list \<Rightarrow> jsmntok list"
  and jtoks_obj :: "nat \<Rightarrow> (gap \<times> byte list \<times> gap \<times> gap \<times> json \<times> gap) list \<Rightarrow> jsmntok list" where
  "jtoks p (JPrim s) = [tok JSMN_PRIMITIVE p (p + length s) 0]"
| "jtoks p (JStr s) = [tok JSMN_STRING (p + 1) (p + 1 + length s) 0]"
| "jtoks p (JArr g vs) =
     tok JSMN_ARRAY p (p + length (jprint (JArr g vs))) (length vs) # jtoks_arr (p + 1 + length g) vs"
| "jtoks p (JObj g kvs) =
     tok JSMN_OBJECT p (p + length (jprint (JObj g kvs))) (length kvs) # jtoks_obj (p + 1 + length g) kvs"
| "jtoks_arr p [] = []"
| "jtoks_arr p ((g, v, h) # vs) =
     (let q = p + length g in jtoks q v @ jtoks_arr (q + length (jprint v) + length h + 1) vs)"
| "jtoks_obj p [] = []"
| "jtoks_obj p ((g, k, a, b, v, h) # kvs) =
     (let r = p + length g; q = r + length k + 2 + length a + 1 + length b in
      tok JSMN_STRING (r + 1) (r + 1 + length k) 1 # jtoks q v @
        jtoks_obj (q + length (jprint v) + length h + 1) kvs)"

lemma jtoks_closed:
  "\<forall>t\<in>set (jtoks p v). \<not> tok_open t" "\<forall>t\<in>set (jtoks_arr p vs). \<not> tok_open t" "\<forall>t\<in>set (jtoks_obj p kvs). \<not> tok_open t"
  by (induction p v and p vs and p kvs rule: jtoks_jtoks_arr_jtoks_obj.induct) (simp_all add: tok_open_def Let_def ball_Un)

subsection \<open>Scanning\<close>

lemma drop_ConsD: "drop p xs = c # ys \<Longrightarrow> p < length xs \<and> xs ! p = c \<and> drop (Suc p) xs = ys"
  by (metis Cons_nth_drop_Suc drop_all list.distinct(1) list.sel(1,3) not_le)

lemma drop_appendD: "drop p xs = ys @ zs \<Longrightarrow> drop (p + length ys) xs = zs"
  by (metis add.commute append_eq_conv_conj drop_drop)

lemma hex_loop_digits:
  "list_all hex_digit ds \<Longrightarrow> length ds = n \<Longrightarrow> drop p js = ds @ rest \<Longrightarrow> hex_loop js (length js) n p = Inr (Some (p + n))"
proof (induction n arbitrary: p ds)
  case (Suc n)
  then obtain d ds' where ds: "ds = d # ds'" by (cases ds) auto
  with Suc.prems(3) drop_ConsD [of p js d "ds' @ rest"] have "p < length js" "js ! p = d" "drop (p + 1) js = ds' @ rest" by auto
  moreover have "d \<noteq> 0" "hex_digit d" using Suc.prems(1) ds by (auto simp: hex_digit_def)
  ultimately show ?case using Suc.IH [of ds' "p + 1"] Suc.prems ds by simp
qed simp

lemma string_loop_body:
  "body_ok s \<Longrightarrow> drop p js = s @ ch_quote # rest \<Longrightarrow> string_loop js (length js) p = Inr (Quote_At (p + length s))"
proof (induction s arbitrary: p rule: body_ok.induct)
  case 1
  thus ?case using drop_ConsD [of p js ch_quote rest] by (simp add: string_loop.simps [of js "length js" p])
next
  case (2 c cs)
  have c: "p < length js" "js ! p = c" "drop (Suc p) js = cs @ ch_quote # rest"
    using drop_ConsD [of p js c "cs @ ch_quote # rest"] 2(5) by auto
  note eq = string_loop.simps [of js "length js" p]
  have nq: "c \<noteq> 0" "c \<noteq> ch_quote" using 2(4) by auto
  show ?case
  proof (cases "c = ch_backslash")
    case False
    thus ?thesis using 2(3) [OF _ False] 2(4) c nq by (simp add: eq)
  next
    case True
    then obtain e ds where cs: "cs = e # ds" using 2(4) nq by (auto split: list.split_asm)
    have e: "Suc p < length js" "js ! Suc p = e" "drop (Suc (Suc p)) js = ds @ ch_quote # rest"
      using drop_ConsD [of "Suc p" js e "ds @ ch_quote # rest"] c(3) cs by auto
    show ?thesis
    proof (cases "simple_escape e")
      case simple: True
      thus ?thesis using 2(1) [OF _ True cs simple, of "Suc (Suc p)"] 2(4) c e nq cs True by (simp add: eq)
    next
      case False
      hence u: "e = ch_u" "4 \<le> length ds" "list_all hex_digit (take 4 ds)" "body_ok (drop 4 ds)"
        using 2(4) cs True nq by auto
      have "drop (Suc (Suc p)) js = take 4 ds @ drop 4 ds @ ch_quote # rest" using e(3) by simp
      from hex_loop_digits [OF u(3) _ this] have "hex_loop js (length js) 4 (Suc (Suc p)) = Inr (Some (Suc (Suc p) + 4))"
        using u(2) by simp
      moreover have "drop (Suc (Suc p) + 4) js = drop 4 ds @ ch_quote # rest"
        using e(3) u(2) drop_drop [of 4 "Suc (Suc p)" js] by (simp add: add.commute)
      ultimately show ?thesis
        using 2(2) [OF _ True cs False, of "Suc (Suc p) + 4"] c e nq cs True False u by (simp add: eq)
    qed
  qed
qed

lemma primitive_loop_chars:
  "list_all prim_char s \<Longrightarrow> drop p js = s @ rest \<Longrightarrow> rest = [] \<or> ends_primitive (hd rest) \<Longrightarrow>
    primitive_loop js (length js) p = Inr (Some (p + length s))"
proof (induction s arbitrary: p)
  case Nil
  show ?case
  proof (cases rest)
    case Nil
    thus ?thesis using \<open>drop p js = [] @ rest\<close> by (simp add: primitive_loop.simps [of js "length js" p])
  next
    case (Cons c ys)
    thus ?thesis using Nil.prems(2,3) drop_ConsD [of p js c ys] by (simp add: primitive_loop.simps [of js "length js" p])
  qed
next
  case (Cons c s)
  have "p < length js" "js ! p = c" "drop (Suc p) js = s @ rest"
    using drop_ConsD [of p js c "s @ rest"] Cons.prems(2) by auto
  moreover have "c \<noteq> 0" "\<not> c < 32" "\<not> 127 \<le> c" "\<not> ends_primitive c" using Cons.prems(1) by (auto simp: prim_char_def)
  ultimately show ?case using Cons.IH [of "Suc p"] Cons.prems(1,3) by (simp add: primitive_loop.simps [of js "length js" p])
qed

subsection \<open>Runs of the machine\<close>

text \<open>The machine at one position goes to another: what follows from either is the same.\<close>

definition goes :: "nat \<Rightarrow> byte list \<Rightarrow> nat \<Rightarrow> jsmntok list \<Rightarrow> int \<Rightarrow> nat \<Rightarrow> jsmntok list \<Rightarrow> int \<Rightarrow> bool" where
  "goes num js p ts par p' ts' par' \<longleftrightarrow>
     jrun num (fst (lexemes js (length js) p)) ts par = jrun num (fst (lexemes js (length js) p')) ts' par' \<and>
     snd (lexemes js (length js) p) = snd (lexemes js (length js) p')"

lemma goes_refl [simp]: "goes num js p ts par p ts par"
  by (simp add: goes_def)

lemma goes_trans [trans]:
  "goes num js p ts par p' ts' par' \<Longrightarrow> goes num js p' ts' par' p'' ts'' par'' \<Longrightarrow> goes num js p ts par p'' ts'' par''"
  by (simp add: goes_def)

lemma goes_step:
  assumes "p < length js" "js ! p \<noteq> 0" "lexeme_at js (length js) p = (lx, nxt)" "jstep num lx p ts par = Inr (ts', par')"
  shows "goes num js p ts par (Suc nxt) ts' par'"
proof -
  have "\<not> bad lx" using assms(4) by (auto simp: bad_def split: lexeme.split)
  thus ?thesis using lexemes_step(2) [OF _ assms(1-3)] assms(4) by (simp add: goes_def)
qed

lemma goes_blank:
  assumes "drop p js = c # rest" "blank c"
  shows "goes num js p ts par (Suc p) ts par"
  using drop_ConsD [OF assms(1)] assms(2)
  by (intro goes_step [where lx = Lx_Blank]) (auto simp: lexeme_at_def Let_def blank_def)

lemma goes_gap:
  "list_all blank g \<Longrightarrow> drop p js = g @ rest \<Longrightarrow> goes num js p ts par (p + length g) ts par"
proof (induction g arbitrary: p)
  case (Cons c g)
  hence "goes num js p ts par (Suc p) ts par" using goes_blank by simp
  also have "goes num js (Suc p) ts par (Suc p + length g) ts par"
    using Cons drop_ConsD [of p js c "g @ rest"] by (intro Cons.IH) simp_all
  finally show ?case by simp
qed simp

lemma goes_colon:
  assumes "drop p js = ch_colon # rest"
  shows "goes num js p ts par (Suc p) ts (int (length ts) - 1)"
  using drop_ConsD [OF assms] by (intro goes_step [where lx = Lx_Colon]) (auto simp: lexeme_at_def Let_def blank_def)

text \<open>After a comma the last open array or object is the parent.\<close>

lemma goes_comma:
  assumes "drop p js = ch_comma # rest" "last_idx tok_open ts = Some k" "container (tok_type (ts ! k))"
    and "par = int k \<or> 0 \<le> par \<and> \<not> container (tok_type (ts ! nat par))"
  shows "goes num js p ts par (Suc p) ts (int k)"
proof -
  have "last_idx open_container ts = Some k"
  proof -
    note k = last_idx_Some [OF assms(2)]
    obtain i where i: "last_idx open_container ts = Some i"
      using k assms(3) last_idx_None [of open_container ts] by (cases "last_idx open_container ts") auto
    thus ?thesis using last_idx_Some [OF i] k assms(3) by (metis linorder_neqE_nat)
  qed
  thus ?thesis
    using assms(3,4) drop_ConsD [OF assms(1)]
    by (intro goes_step [where lx = Lx_Comma]) (auto simp: lexeme_at_def Let_def blank_def)
qed

lemma goes_string:
  assumes "drop p js = ch_quote # s @ ch_quote # rest" "body_ok s" "length ts < num"
  shows "goes num js p ts par (p + length s + 2) (bump par ts @ [tok JSMN_STRING (p + 1) (p + 1 + length s) 0]) par"
proof -
  note d = drop_ConsD [OF assms(1)]
  have "string_loop js (length js) (Suc p) = Inr (Quote_At (Suc p + length s))"
    using string_loop_body [OF assms(2), of "Suc p" js rest] d by simp
  hence "lexeme_at js (length js) p = (Lx_Leaf JSMN_STRING (p + 1) (p + 1 + length s), p + 1 + length s)"
    using d by (simp add: lexeme_at_def Let_def lex_string_def)
  from goes_step [OF _ _ this] show ?thesis using d assms(3) by simp
qed

lemma goes_primitive:
  assumes "drop p js = s @ rest" "prim_ok s" "rest = [] \<or> ends_primitive (hd rest)" "length ts < num"
  shows "goes num js p ts par (p + length s) (bump par ts @ [tok JSMN_PRIMITIVE p (p + length s) 0]) par"
proof -
  obtain c s' where s: "s = c # s'" using assms(2) by (cases s) (auto simp: prim_ok_def)
  note d = drop_ConsD [of p js c "s' @ rest"]
  have c: "\<not> ends_primitive c" "c \<noteq> ch_quote" "c \<noteq> ch_lbracket" "c \<noteq> ch_lbrace" "c \<noteq> 0"
    using assms(2) s by (auto simp: prim_ok_def prim_char_def)
  have "primitive_loop js (length js) p = Inr (Some (p + length s))"
    using primitive_loop_chars [OF _ assms(1,3)] assms(2) by (simp add: prim_ok_def)
  hence "lexeme_at js (length js) p = (Lx_Leaf JSMN_PRIMITIVE p (p + length s), p + length s')"
    using d assms(1) s c by (auto simp: lexeme_at_def Let_def lex_primitive_def ends_primitive_def)
  from goes_step [OF _ _ this] show ?thesis using d assms(1,4) s c(5) by simp
qed

lemma goes_open:
  assumes "drop p js = bra ty # rest" "container ty" "length ts < num"
  shows "goes num js p ts par (Suc p)
    (bump par ts @ [\<lparr>tok_type = ty, tok_start = int p, tok_end = - 1, tok_size = 0\<rparr>]) (int (length ts))"
  using drop_ConsD [OF assms(1)] assms(2,3)
  by (intro goes_step [where lx = "Lx_Open ty"]) (auto simp: lexeme_at_def Let_def bra_def container_def)

lemma goes_close:
  assumes "drop p js = ket ty # rest" "container ty" "tok_open t" "tok_type t = ty" "\<forall>u\<in>set us. \<not> tok_open u"
  shows "goes num js p (ts @ t # us) par (Suc p) (ts @ t\<lparr>tok_end := int (Suc p)\<rparr> # us) (idx (last_idx tok_open ts))"
proof -
  have "last_idx tok_open (ts @ t # us) = Some (length ts)"
    using last_idx_append [OF assms(5), of "ts @ [t]"] assms(3) by simp
  thus ?thesis
    using drop_ConsD [OF assms(1)] assms(2,4)
    by (intro goes_step [where lx = "Lx_Close ty"]) (auto simp: lexeme_at_def Let_def ket_def container_def)
qed

subsection \<open>Values\<close>

lemma last_idx_map_comp: "last_idx P (map f xs) = last_idx (P \<circ> f) xs"
  by (induction xs rule: rev_induct) simp_all

lemma last_open_bump: "- 1 \<le> par \<Longrightarrow> par < int (length ts) \<Longrightarrow> last_idx tok_open (bump par ts) = last_idx tok_open ts"
proof -
  assume "- 1 \<le> par" "par < int (length ts)"
  moreover have "tok_open = (\<lambda>(ty, s, e). s \<noteq> - 1 \<and> e = - 1) \<circ> place" by (auto simp: tok_open_def place_def)
  ultimately show ?thesis using last_idx_map_comp [of _ place] place_bump by metis
qed

lemma bump_mid: "bump (int (length ts)) (ts @ t # us) = ts @ t\<lparr>tok_size := tok_size t + 1\<rparr> # us"
  by (simp add: bump_def)

lemma bump_last: "bump (int (length (ts @ [t])) - 1) (ts @ [t]) = ts @ [t\<lparr>tok_size := tok_size t + 1\<rparr>]"
  by (simp add: bump_def)

definition leaf :: "json \<Rightarrow> bool" where
  "leaf v = (case v of JPrim s \<Rightarrow> True | JStr s \<Rightarrow> True | _ \<Rightarrow> False)"

text \<open>What a value does, what the elements of an array do, and the members of an object.\<close>

definition value_goes :: "nat \<Rightarrow> byte list \<Rightarrow> json \<Rightarrow> bool" where
  "value_goes num js v \<longleftrightarrow> (\<forall>p ts par rest.
     drop p js = jprint v @ rest \<longrightarrow> rest = [] \<or> ends_primitive (hd rest) \<longrightarrow>
     length ts + length (jtoks p v) \<le> num \<longrightarrow> - 1 \<le> par \<longrightarrow> par < int (length ts) \<longrightarrow>
     goes num js p ts par (p + length (jprint v)) (bump par ts @ jtoks p v) (if leaf v then par else idx (last_idx tok_open ts)))"

definition arr_goes :: "nat \<Rightarrow> byte list \<Rightarrow> (gap \<times> json \<times> gap) list \<Rightarrow> bool" where
  "arr_goes num js vs \<longleftrightarrow> (\<forall>p ts t us rest.
     drop p js = jprint_arr vs @ rest \<longrightarrow> ends_primitive (hd rest) \<longrightarrow> length ts + 1 + length us + length (jtoks_arr p vs) \<le> num \<longrightarrow>
     tok_open t \<longrightarrow> container (tok_type t) \<longrightarrow> (\<forall>u\<in>set us. \<not> tok_open u) \<longrightarrow>
     goes num js p (ts @ t # us) (int (length ts)) (p + length (jprint_arr vs))
       (ts @ t\<lparr>tok_size := tok_size t + int (length vs)\<rparr> # us @ jtoks_arr p vs) (int (length ts)))"

definition obj_goes :: "nat \<Rightarrow> byte list \<Rightarrow> (gap \<times> byte list \<times> gap \<times> gap \<times> json \<times> gap) list \<Rightarrow> bool" where
  "obj_goes num js kvs \<longleftrightarrow> (\<forall>p ts t us rest.
     drop p js = jprint_obj kvs @ rest \<longrightarrow> ends_primitive (hd rest) \<longrightarrow> length ts + 1 + length us + length (jtoks_obj p kvs) \<le> num \<longrightarrow>
     tok_open t \<longrightarrow> container (tok_type t) \<longrightarrow> (\<forall>u\<in>set us. \<not> tok_open u) \<longrightarrow>
     (\<exists>par'. goes num js p (ts @ t # us) (int (length ts)) (p + length (jprint_obj kvs))
       (ts @ t\<lparr>tok_size := tok_size t + int (length kvs)\<rparr> # us @ jtoks_obj p kvs) par'))"

lemma value_goesD:
  assumes "value_goes num js v" "drop p js = jprint v @ rest" "rest = [] \<or> ends_primitive (hd rest)"
    "length ts + length (jtoks p v) \<le> num" "- 1 \<le> par" "par < int (length ts)"
  shows "goes num js p ts par (p + length (jprint v)) (bump par ts @ jtoks p v) (if leaf v then par else idx (last_idx tok_open ts))"
  using assms(1)[unfolded value_goes_def] assms(2-) by blast

lemma arr_goesD:
  assumes "arr_goes num js vs" "drop p js = jprint_arr vs @ rest" "ends_primitive (hd rest)"
    "tok_open t" "container (tok_type t)" "\<forall>u\<in>set us. \<not> tok_open u" "length ts + 1 + length us + length (jtoks_arr p vs) \<le> num"
  shows "goes num js p (ts @ t # us) (int (length ts)) (p + length (jprint_arr vs))
      (ts @ t\<lparr>tok_size := tok_size t + int (length vs)\<rparr> # us @ jtoks_arr p vs) (int (length ts))"
  using assms(1)[unfolded arr_goes_def] assms(2-) by blast

lemma obj_goesD:
  assumes "obj_goes num js vs" "drop p js = jprint_obj vs @ rest" "ends_primitive (hd rest)"
    "tok_open t" "container (tok_type t)" "\<forall>u\<in>set us. \<not> tok_open u" "length ts + 1 + length us + length (jtoks_obj p vs) \<le> num"
  shows "\<exists>par'. goes num js p (ts @ t # us) (int (length ts)) (p + length (jprint_obj vs))
      (ts @ t\<lparr>tok_size := tok_size t + int (length vs)\<rparr> # us @ jtoks_obj p vs) par'"
  using assms(1)[unfolded obj_goes_def] assms(2-) by blast

text \<open>White space ends a primitive, and so does what follows it.\<close>

lemma gap_ends: "list_all blank g \<Longrightarrow> ends_primitive (hd rest) \<Longrightarrow> ends_primitive (hd (g @ rest))"
  by (cases g) (simp_all add: ends_primitive_def)

lemma comma_ends: "ends_primitive (hd rest) \<Longrightarrow> ends_primitive (hd ((if b then [] else ch_comma # xs) @ rest))"
  by (simp add: ends_primitive_def)

text \<open>A comma between two elements or members, from the gap before it on.\<close>

lemma goes_gap_comma:
  assumes "list_all blank h" "drop q js = h @ ch_comma # rest" "last_idx tok_open ts = Some k" "container (tok_type (ts ! k))"
    and "par = int k \<or> 0 \<le> par \<and> \<not> container (tok_type (ts ! nat par))"
  shows "goes num js q ts par (q + length h + 1) ts (int k)"
proof -
  have "goes num js q ts par (q + length h) ts par" by (rule goes_gap [OF assms(1,2)])
  also have "goes num js (q + length h) ts par (Suc (q + length h)) ts (int k)"
    by (rule goes_comma [OF drop_appendD [OF assms(2)] assms(3-5)])
  finally show ?thesis by simp
qed

lemma arr_goes_Cons:
  assumes "value_goes num js v" "arr_goes num js vs" "list_all blank g" "list_all blank h"
  shows "arr_goes num js ((g, v, h) # vs)"
  unfolding arr_goes_def
proof (intro allI impI)
  fix p and ts us :: "jsmntok list" and t :: jsmntok and rest
  let ?p = "p + length g"
  let ?q = "?p + length (jprint v)" and ?k = "int (length ts)"
  let ?n = "?q + length h + 1"
  let ?t = "t\<lparr>tok_size := tok_size t + 1\<rparr>" and ?us = "us @ jtoks ?p v"
  let ?more = "(if vs = [] then [] else ch_comma # jprint_arr vs)"
  assume A: "drop p js = jprint_arr ((g, v, h) # vs) @ rest" "ends_primitive (hd rest)"
    "length ts + 1 + length us + length (jtoks_arr p ((g, v, h) # vs)) \<le> num"
    "tok_open t" "container (tok_type t)" "\<forall>u\<in>set us. \<not> tok_open u"
  have us: "\<forall>u\<in>set ?us. \<not> tok_open u" using A(6) jtoks_closed(1) by auto
  have t: "tok_open ?t" "container (tok_type ?t)" using A(4,5) by (simp_all add: tok_open_def)
  have last: "last_idx tok_open (ts @ t # us) = Some (length ts)" "last_idx tok_open (ts @ ?t # ?us) = Some (length ts)"
    using last_idx_append [OF A(6), of "ts @ [t]"] last_idx_append [OF us, of "ts @ [?t]"] A(4) t(1) by simp_all
  have d: "drop p js = g @ jprint v @ h @ ?more @ rest" using A(1) by simp
  note d1 = drop_appendD [OF d]
  note d2 = drop_appendD [OF d1]
  note e = gap_ends [OF assms(4) comma_ends [OF A(2), of "vs = []" "jprint_arr vs"]]
  have "goes num js p (ts @ t # us) ?k ?p (ts @ t # us) ?k" by (rule goes_gap [OF assms(3) d])
  also have "goes num js ?p (ts @ t # us) ?k ?q (ts @ ?t # ?us) ?k"
    using value_goesD [OF assms(1) d1 disjI2 [OF e], of "ts @ t # us" ?k] A(3)
    by (simp add: bump_mid last(1) Let_def cong: if_cong)
  finally have v: "goes num js p (ts @ t # us) ?k ?q (ts @ ?t # ?us) ?k" .
  show "goes num js p (ts @ t # us) ?k (p + length (jprint_arr ((g, v, h) # vs)))
      (ts @ t\<lparr>tok_size := tok_size t + int (length ((g, v, h) # vs))\<rparr> # us @ jtoks_arr p ((g, v, h) # vs)) ?k"
  proof (cases "vs = []")
    case True
    have "goes num js ?q (ts @ ?t # ?us) ?k (?q + length h) (ts @ ?t # ?us) ?k" by (rule goes_gap [OF assms(4) d2])
    from goes_trans [OF v this] show ?thesis using True by (simp add: Let_def add.assoc)
  next
    case False
    hence c: "drop ?q js = h @ ch_comma # jprint_arr vs @ rest" using d2 by simp
    have n: "drop ?n js = jprint_arr vs @ rest" using drop_ConsD [OF drop_appendD [OF c]] by simp
    note v
    also have "goes num js ?q (ts @ ?t # ?us) ?k ?n (ts @ ?t # ?us) ?k"
      using goes_gap_comma [OF assms(4) c last(2)] t(2) by simp
    also have "goes num js ?n (ts @ ?t # ?us) ?k (?n + length (jprint_arr vs))
        (ts @ ?t\<lparr>tok_size := tok_size ?t + int (length vs)\<rparr> # ?us @ jtoks_arr ?n vs) ?k"
      by (rule arr_goesD [OF assms(2) n A(2) t us]) (use A(3) in \<open>simp add: Let_def\<close>)
    finally show ?thesis using False by (simp add: Let_def add.assoc)
  qed
qed

text \<open>A member: the key, the colon and the value; afterwards the parent is the key or the object.\<close>

lemma member_goes:
  assumes "value_goes num js v" "body_ok k" "list_all blank a" "list_all blank b"
    and "drop p js = ch_quote # k @ ch_quote # a @ ch_colon # b @ jprint v @ rest" "rest = [] \<or> ends_primitive (hd rest)"
    and "tok_open t" "\<forall>u\<in>set us. \<not> tok_open u"
  defines "q \<equiv> p + length k + 2 + length a + 1 + length b"
  assumes "length ts + 2 + length us + length (jtoks q v) \<le> num"
  shows "goes num js p (ts @ t # us) (int (length ts)) (q + length (jprint v))
    (ts @ t\<lparr>tok_size := tok_size t + 1\<rparr> # us @ tok JSMN_STRING (p + 1) (p + 1 + length k) 1 # jtoks q v)
    (if leaf v then int (length ts + 1 + length us) else int (length ts))"
proof -
  let ?t = "t\<lparr>tok_size := tok_size t + 1\<rparr>" and ?r = "p + length k + 2"
  let ?key = "\<lambda>n. tok JSMN_STRING (p + 1) (p + 1 + length k) n"
  let ?ts = "(ts @ ?t # us) @ [?key 0]"
  note num = assms(10)
  have "drop (p + length (ch_quote # k @ [ch_quote])) js = a @ ch_colon # b @ jprint v @ rest"
    by (rule drop_appendD) (simp add: assms(5))
  hence c: "drop ?r js = a @ ch_colon # b @ jprint v @ rest" by simp
  note e = drop_appendD [OF c]
  have f: "drop (Suc (?r + length a)) js = b @ jprint v @ rest" using drop_ConsD [OF e] by blast
  from drop_appendD [OF this] have v: "drop q js = jprint v @ rest" by (simp add: q_def)
  have last: "last_idx tok_open ?ts = Some (length ts)"
    using last_idx_append [of "us @ [?key 0]" tok_open "ts @ [?t]"] assms(7,8) by (simp add: tok_open_def)
  have "goes num js p (ts @ t # us) (int (length ts)) ?r ?ts (int (length ts))"
    using goes_string [OF assms(5,2), of "ts @ t # us" num "int (length ts)"] num by (simp add: bump_mid)
  also have "goes num js ?r ?ts (int (length ts)) (?r + length a) ?ts (int (length ts))" by (rule goes_gap [OF assms(3) c])
  also have "goes num js (?r + length a) ?ts (int (length ts)) (Suc (?r + length a)) ?ts (int (length ?ts) - 1)"
    by (rule goes_colon [OF e])
  also have "goes num js (Suc (?r + length a)) ?ts (int (length ?ts) - 1) q ?ts (int (length ?ts) - 1)"
    using goes_gap [OF assms(4) f] by (simp add: q_def)
  also have "goes num js q ?ts (int (length ?ts) - 1) (q + length (jprint v))
      ((ts @ ?t # us) @ [?key 1] @ jtoks q v) (if leaf v then int (length ?ts) - 1 else idx (last_idx tok_open ?ts))"
    using value_goesD [OF assms(1) v assms(6), of ?ts "int (length ?ts) - 1"] num bump_last [of "ts @ ?t # us" "?key 0"] by simp
  finally show ?thesis unfolding last by (simp cong: if_cong)
qed

lemma obj_goes_Cons:
  assumes "value_goes num js v" "obj_goes num js kvs" "body_ok k"
    and "list_all blank g" "list_all blank a" "list_all blank b" "list_all blank h"
  shows "obj_goes num js ((g, k, a, b, v, h) # kvs)"
  unfolding obj_goes_def
proof (intro allI impI)
  fix p and ts us :: "jsmntok list" and t :: jsmntok and rest
  let ?p = "p + length g"
  let ?v = "?p + length k + 2 + length a + 1 + length b"
  let ?q = "?v + length (jprint v)"
  let ?n = "?q + length h + 1"
  let ?t = "t\<lparr>tok_size := tok_size t + 1\<rparr>"
  let ?us = "us @ tok JSMN_STRING (?p + 1) (?p + 1 + length k) 1 # jtoks ?v v"
  let ?par = "if leaf v then int (length ts + 1 + length us) else int (length ts)"
  let ?more = "(if kvs = [] then [] else ch_comma # jprint_obj kvs)"
  assume A: "drop p js = jprint_obj ((g, k, a, b, v, h) # kvs) @ rest" "ends_primitive (hd rest)"
    "length ts + 1 + length us + length (jtoks_obj p ((g, k, a, b, v, h) # kvs)) \<le> num"
    "tok_open t" "container (tok_type t)" "\<forall>u\<in>set us. \<not> tok_open u"
  have "\<not> tok_open (tok JSMN_STRING (?p + 1) (?p + 1 + length k) 1)" by (simp add: tok_open_def)
  hence us: "\<forall>u\<in>set ?us. \<not> tok_open u" using A(6) jtoks_closed(1) by auto
  have t: "tok_open ?t" "container (tok_type ?t)" using A(4,5) by (simp_all add: tok_open_def)
  have last: "last_idx tok_open (ts @ ?t # ?us) = Some (length ts)"
    using last_idx_append [OF us, of "ts @ [?t]"] t(1) by simp
  have d: "drop p js = g @ ch_quote # k @ ch_quote # a @ ch_colon # b @ jprint v @ h @ ?more @ rest" using A(1) by simp
  note d1 = drop_appendD [OF d]
  have "drop (?p + length (ch_quote # k @ ch_quote # a @ ch_colon # b @ jprint v)) js = h @ ?more @ rest"
    by (rule drop_appendD) (simp add: d1)
  moreover have "?p + length (ch_quote # k @ ch_quote # a @ ch_colon # b @ jprint v) = ?q" by simp
  ultimately have d2: "drop ?q js = h @ ?more @ rest" by (simp only:)
  note e = gap_ends [OF assms(7) comma_ends [OF A(2), of "kvs = []" "jprint_obj kvs"]]
  have "goes num js p (ts @ t # us) (int (length ts)) ?p (ts @ t # us) (int (length ts))" by (rule goes_gap [OF assms(4) d])
  also have "goes num js ?p (ts @ t # us) (int (length ts)) ?q (ts @ ?t # ?us) ?par"
    by (rule member_goes [OF assms(1,3,5,6) d1 disjI2 [OF e] A(4,6)]) (use A(3) in \<open>simp add: Let_def\<close>)
  finally have m: "goes num js p (ts @ t # us) (int (length ts)) ?q (ts @ ?t # ?us) ?par" .
  show "\<exists>par'. goes num js p (ts @ t # us) (int (length ts)) (p + length (jprint_obj ((g, k, a, b, v, h) # kvs)))
      (ts @ t\<lparr>tok_size := tok_size t + int (length ((g, k, a, b, v, h) # kvs))\<rparr> # us @ jtoks_obj p ((g, k, a, b, v, h) # kvs)) par'"
  proof (cases "kvs = []")
    case True
    have "goes num js ?q (ts @ ?t # ?us) ?par (?q + length h) (ts @ ?t # ?us) ?par" by (rule goes_gap [OF assms(7) d2])
    from goes_trans [OF m this] show ?thesis
      using True by (intro exI [of _ ?par]) (simp add: Let_def ac_simps)
  next
    case False
    hence c: "drop ?q js = h @ ch_comma # jprint_obj kvs @ rest" using d2 by simp
    have n: "drop ?n js = jprint_obj kvs @ rest" using drop_ConsD [OF drop_appendD [OF c]] by simp
    have "goes num js ?q (ts @ ?t # ?us) ?par ?n (ts @ ?t # ?us) (int (length ts))"
      using t(2) by (intro goes_gap_comma [OF assms(7) c last]) (auto simp: nth_append container_def)
    note go = goes_trans [OF m this]
    have "length ts + 1 + length ?us + length (jtoks_obj ?n kvs) \<le> num" using A(3) by (simp add: Let_def ac_simps)
    from obj_goesD [OF assms(2) n A(2) t us this] obtain par' where
      "goes num js ?n (ts @ ?t # ?us) (int (length ts)) (?n + length (jprint_obj kvs))
        (ts @ ?t\<lparr>tok_size := tok_size ?t + int (length kvs)\<rparr> # ?us @ jtoks_obj ?n kvs) par'" by blast
    from goes_trans [OF go this] show ?thesis
      using False by (intro exI [of _ par']) (simp add: Let_def ac_simps)
  qed
qed

lemma string_value_goes: "body_ok s \<Longrightarrow> value_goes num js (JStr s)"
  unfolding value_goes_def using goes_string [of _ js s] by (simp add: leaf_def ac_simps)

lemma primitive_value_goes: "prim_ok s \<Longrightarrow> value_goes num js (JPrim s)"
  unfolding value_goes_def using goes_primitive [of _ js s] by (simp add: leaf_def)

text \<open>Brackets around a gap and a content that adds \<open>n\<close> children and the closed tokens \<open>us\<close>.\<close>

lemma bracketed_goes:
  assumes "drop p js = (bra ty # (g @ body) @ [ket ty]) @ rest" "container ty" "list_all blank g"
    and "length ts < num" "- 1 \<le> par" "par < int (length ts)" "\<forall>u\<in>set us. \<not> tok_open u"
    and content: "\<And>rest' t. drop (p + 1 + length g) js = body @ rest' \<Longrightarrow> ends_primitive (hd rest') \<Longrightarrow> tok_open t \<Longrightarrow>
      container (tok_type t) \<Longrightarrow> tok_size t = 0 \<Longrightarrow> \<exists>par1. goes num js (p + 1 + length g) (bump par ts @ [t]) (int (length ts))
        (p + 1 + length g + length body) (bump par ts @ t\<lparr>tok_size := n\<rparr> # us) par1"
  defines "e \<equiv> p + length (bra ty # (g @ body) @ [ket ty])"
  shows "goes num js p ts par e (bump par ts @ \<lparr>tok_type = ty, tok_start = int p, tok_end = int e, tok_size = n\<rparr> # us)
    (idx (last_idx tok_open ts))"
proof -
  let ?t = "\<lparr>tok_type = ty, tok_start = int p, tok_end = - 1, tok_size = 0\<rparr>"
  let ?g = "p + 1 + length g"
  have d: "drop p js = bra ty # g @ body @ ket ty # rest" using assms(1) by simp
  have d1: "drop (p + 1) js = g @ body @ ket ty # rest" using drop_ConsD [OF d] by simp
  note d2 = drop_appendD [OF d1]
  note d3 = drop_appendD [OF d2]
  have k: "ends_primitive (hd (ket ty # rest))" using assms(2) by (auto simp: ends_primitive_def ket_def container_def)
  have t: "tok_open ?t" "container (tok_type ?t)" "tok_size ?t = 0" using assms(2) by (simp_all add: tok_open_def)
  obtain par1 where b: "goes num js ?g (bump par ts @ [?t]) (int (length ts)) (?g + length body) (bump par ts @ ?t\<lparr>tok_size := n\<rparr> # us) par1"
    using content [OF d2 k t] by blast
  have e: "e = Suc (?g + length body)" by (simp add: e_def)
  have "goes num js p ts par (p + 1) (bump par ts @ [?t]) (int (length ts))" using goes_open [OF d assms(2,4)] by simp
  also have "goes num js (p + 1) (bump par ts @ [?t]) (int (length ts)) ?g (bump par ts @ [?t]) (int (length ts))"
    by (rule goes_gap [OF assms(3) d1])
  also note b
  also have "goes num js (?g + length body) (bump par ts @ ?t\<lparr>tok_size := n\<rparr> # us) par1 e
      (bump par ts @ ?t\<lparr>tok_size := n, tok_end := int e\<rparr> # us) (idx (last_idx tok_open (bump par ts)))"
    unfolding e using goes_close [OF d3 assms(2) _ _ assms(7), of "?t\<lparr>tok_size := n\<rparr>" num "bump par ts" par1] by (simp add: tok_open_def)
  finally show ?thesis by (simp add: last_open_bump [OF assms(5,6)])
qed

lemma array_value_goes:
  assumes "arr_goes num js vs" "list_all blank g"
  shows "value_goes num js (JArr g vs)"
  unfolding value_goes_def
proof (intro allI impI)
  fix p and ts :: "jsmntok list" and par rest
  assume A: "drop p js = jprint (JArr g vs) @ rest" "rest = [] \<or> ends_primitive (hd rest)"
    "length ts + length (jtoks p (JArr g vs)) \<le> num" "- 1 \<le> par" "par < int (length ts)"
  have "goes num js p ts par (p + length (bra JSMN_ARRAY # (g @ jprint_arr vs) @ [ket JSMN_ARRAY]))
    (bump par ts @ \<lparr>tok_type = JSMN_ARRAY, tok_start = int p,
        tok_end = int (p + length (bra JSMN_ARRAY # (g @ jprint_arr vs) @ [ket JSMN_ARRAY])), tok_size = int (length vs)\<rparr>
      # jtoks_arr (p + 1 + length g) vs) (idx (last_idx tok_open ts))"
  proof (rule bracketed_goes [OF _ _ assms(2) _ A(4,5) jtoks_closed(2)], goal_cases)
    case (4 rest' t)
    from arr_goesD [OF assms(1) 4(1-4), of "[]" "bump par ts"] A(3) 4(5) show ?case by auto
  qed (use A(1,3) in \<open>simp_all add: bra_def ket_def container_def\<close>)
  thus "goes num js p ts par (p + length (jprint (JArr g vs))) (bump par ts @ jtoks p (JArr g vs))
      (if leaf (JArr g vs) then par else idx (last_idx tok_open ts))"
    by (simp add: leaf_def bra_def ket_def)
qed

lemma object_value_goes:
  assumes "obj_goes num js kvs" "list_all blank g"
  shows "value_goes num js (JObj g kvs)"
  unfolding value_goes_def
proof (intro allI impI)
  fix p and ts :: "jsmntok list" and par rest
  assume A: "drop p js = jprint (JObj g kvs) @ rest" "rest = [] \<or> ends_primitive (hd rest)"
    "length ts + length (jtoks p (JObj g kvs)) \<le> num" "- 1 \<le> par" "par < int (length ts)"
  have "goes num js p ts par (p + length (bra JSMN_OBJECT # (g @ jprint_obj kvs) @ [ket JSMN_OBJECT]))
    (bump par ts @ \<lparr>tok_type = JSMN_OBJECT, tok_start = int p,
        tok_end = int (p + length (bra JSMN_OBJECT # (g @ jprint_obj kvs) @ [ket JSMN_OBJECT])), tok_size = int (length kvs)\<rparr>
      # jtoks_obj (p + 1 + length g) kvs) (idx (last_idx tok_open ts))"
  proof (rule bracketed_goes [OF _ _ assms(2) _ A(4,5) jtoks_closed(3)], goal_cases)
    case (4 rest' t)
    from obj_goesD [OF assms(1) 4(1-4), of "[]" "bump par ts"] A(3) 4(5) show ?case by auto
  qed (use A(1,3) in \<open>simp_all add: bra_def ket_def container_def\<close>)
  thus "goes num js p ts par (p + length (jprint (JObj g kvs))) (bump par ts @ jtoks p (JObj g kvs))
      (if leaf (JObj g kvs) then par else idx (last_idx tok_open ts))"
    by (simp add: leaf_def bra_def ket_def)
qed

lemma json_goes:
  "json_ok v \<Longrightarrow> value_goes num js v" "arr_ok vs \<Longrightarrow> arr_goes num js vs" "obj_ok kvs \<Longrightarrow> obj_goes num js kvs"
proof (induction v and vs and kvs rule: json_ok_arr_ok_obj_ok.induct)
  case 5
  show ?case by (simp add: arr_goes_def)
next
  case 7
  have "Ex (goes num js p ts par p ts)" for p ts par using goes_refl by (rule exI)
  thus ?case by (simp add: obj_goes_def)
qed (simp_all add: string_value_goes primitive_value_goes array_value_goes object_value_goes arr_goes_Cons obj_goes_Cons)

subsection \<open>Properties\<close>

text \<open>A parse of which the machine's run is known.\<close>

lemma parse_goes:
  assumes "holds num st ts rest" "jp_pos st \<le> length js" "goes num js (jp_pos st) ts (jp_toksuper st) (length js) ts' par'"
  shows "jsmn_parse js (length js) num st = Inr (if last_idx tok_open ts' = None then int (length ts') else JSMN_ERROR_PART,
    \<lparr>jp_pos = length js, jp_toknext = length ts', jp_toksuper = par', jp_tokens = Some (ts' @ drop (length ts' - length ts) rest)\<rparr>)"
proof -
  have "jrun num (fst (lexemes js (length js) (jp_pos st))) ts (jp_toksuper st) = Inr (ts', par')"
    "snd (lexemes js (length js) (jp_pos st)) = length js"
    using assms(3) by (simp_all add: goes_def lexemes_end)
  moreover have "jp_toknext st = length ts" using assms(1) by (simp add: holds_def)
  ultimately show ?thesis using loop_refines [OF assms(1) order.refl] by (simp add: jsmn_parse_def outcome_def)
qed

lemma parse_printed:
  assumes "json_ok v" "list_all blank g" "list_all blank h" "length (jtoks (length g) v) \<le> num" "num \<le> length a"
  shows "jsmn_parse (g @ jprint v @ h) (length (g @ jprint v @ h)) num (jsmn_fresh (Some a)) =
    Inr (int (length (jtoks (length g) v)),
      \<lparr>jp_pos = length (g @ jprint v @ h), jp_toknext = length (jtoks (length g) v), jp_toksuper = - 1,
       jp_tokens = Some (jtoks (length g) v @ drop (length (jtoks (length g) v)) a)\<rparr>)"
proof -
  let ?js = "g @ jprint v @ h" and ?ts = "jtoks (length g) v"
  have d: "drop (0 + length g) ?js = jprint v @ h" "drop (length g + length (jprint v)) ?js = h" by simp_all
  have e: "h = [] \<or> ends_primitive (hd h)" using assms(3) by (cases h) (auto simp: ends_primitive_def)
  have "goes num ?js 0 [] (- 1) (0 + length g) [] (- 1)" by (rule goes_gap [OF assms(2)]) simp
  also have "goes num ?js (0 + length g) [] (- 1) (length g + length (jprint v)) ?ts (- 1)"
    using value_goesD [OF json_goes(1) [OF assms(1)] d(1) e, of "[]" num "- 1"] assms(4) by (simp add: bump_def cong: if_cong)
  also have "goes num ?js (length g + length (jprint v)) ?ts (- 1) (length g + length (jprint v) + length h) ?ts (- 1)"
    by (rule goes_gap [OF assms(3), of _ _ "[]"]) simp
  finally have "goes num ?js 0 [] (- 1) (length ?js) ?ts (- 1)" by (simp add: add.assoc)
  with parse_goes [of num "jsmn_fresh (Some a)" "[]" a ?js ?ts "- 1"] fresh_holds [OF assms(5)]
  show ?thesis using jtoks_closed(1) [of "length g" v] last_idx_None [of tok_open ?ts]
    by (simp add: jsmn_fresh_def jsmn_init_def)
qed

text \<open>
  C18. JSON is tokenized right. The text of any value, with any white space wherever JSON allows it (around the
  value, after and before brackets, before and after each comma and colon, not the same everywhere), is parsed
  to the end; the result is the number of its tokens, and they are those of the value in order: for a
  primitive and a string its place in the text, for an array its place and the number of its elements,
  for an object its place and the number of its members, each a key with one child. The rest of the array
  is untouched.
\<close>

theorem jsmn_parse_printed:
  assumes "json_ok v" "list_all blank g" "list_all blank h" "length (jtoks (length g) v) \<le> num" "num \<le> length a"
  shows "jsmn_parse (g @ jprint v @ h) (length (g @ jprint v @ h)) num (jsmn_fresh (Some a)) =
    Inr (int (length (jtoks (length g) v)),
      \<lparr>jp_pos = length (g @ jprint v @ h), jp_toknext = length (jtoks (length g) v), jp_toksuper = - 1,
       jp_tokens = Some (jtoks (length g) v @ drop (length (jtoks (length g) v)) a)\<rparr>)"
  using assms by (rule parse_printed)

text \<open>The text \<open>{"a" :[1 ,2] }\<close> and a line feed.\<close>

theorem jsmn_parse_printed_witness:
  "jsmn_parse [0x7B, 0x22, 0x61, 0x22, 0x20, 0x3A, 0x5B, 0x31, 0x20, 0x2C, 0x32, 0x5D, 0x20, 0x7D, 0x0A] 15 5
      (jsmn_fresh (Some (replicate 5 no_tok))) =
    Inr (5, \<lparr>jp_pos = 15, jp_toknext = 5, jp_toksuper = - 1, jp_tokens = Some
      [tok JSMN_OBJECT 0 14 1, tok JSMN_STRING 2 3 1, tok JSMN_ARRAY 6 12 2, tok JSMN_PRIMITIVE 7 8 0, tok JSMN_PRIMITIVE 10 11 0]\<rparr>)"
proof -
  let ?v = "JObj [] [([], [0x61], [0x20], [], JArr [] [([], JPrim [0x31], [0x20]), ([], JPrim [0x32], [])], [0x20])]"
  have "json_ok ?v" "list_all blank ([] :: gap)" "list_all blank ([0x0A] :: gap)"
    by (simp_all add: prim_ok_def prim_char_def ends_primitive_def blank_def)
  from jsmn_parse_printed [OF this, of 5 "replicate 5 no_tok"] show ?thesis by (simp add: Let_def eval_nat_numeral)
qed

text \<open>The two calls on an array whose only element is cut: the array is open, and has one element.\<close>

lemma cut_element:
  assumes "prim_ok w1" "prim_ok w2" "3 \<le> num" "num \<le> length a"
  defines "part \<equiv> ch_lbracket # w1" and "full \<equiv> ch_lbracket # (w1 @ w2) @ [ch_rbracket]"
  defines "ts \<equiv> [\<lparr>tok_type = JSMN_ARRAY, tok_start = 0, tok_end = - 1, tok_size = 1\<rparr>, tok JSMN_PRIMITIVE 1 (length part) 0]"
  shows "goes num part 0 [] (- 1) (length part) ts 0"
    and "goes num full (length part) ts 0 (length full) [tok JSMN_ARRAY 0 (length full) 2, tok JSMN_PRIMITIVE 1 (length part) 0,
      tok JSMN_PRIMITIVE (length part) (length full - 1) 0] (- 1)"
proof -
  let ?t = "\<lparr>tok_type = JSMN_ARRAY, tok_start = 0, tok_end = - 1, tok_size = 0\<rparr>"
  have "goes num part 0 [] (- 1) 1 [?t] 0"
    using goes_open [of 0 part JSMN_ARRAY w1 "[]" num "- 1"] assms(3) by (simp add: part_def bra_def container_def bump_def)
  also have "goes num part 1 [?t] 0 (length part) ts 0"
    using goes_primitive [of 1 part w1 "[]" "[?t]" num 0] assms(1,3) by (simp add: part_def ts_def bump_def)
  finally show "goes num part 0 [] (- 1) (length part) ts 0" .
  let ?p = "tok JSMN_PRIMITIVE (length part) (length part + length w2) 0"
  have d: "drop (length part) full = w2 @ [ch_rbracket]" by (simp add: part_def full_def)
  have "goes num full (length part) ts 0 (length part + length w2) (bump 0 ts @ [?p]) 0"
    using goes_primitive [OF d assms(2), of ts num 0] assms(3) by (simp add: ts_def ends_primitive_def)
  also have "goes num full (length part + length w2) (bump 0 ts @ [?p]) 0 (Suc (length part + length w2))
      ([] @ (?t\<lparr>tok_size := 2\<rparr>)\<lparr>tok_end := int (Suc (length part + length w2))\<rparr> # [tok JSMN_PRIMITIVE 1 (length part) 0, ?p]) (- 1)"
    using goes_close [of "length part + length w2" full JSMN_ARRAY "[]" "?t\<lparr>tok_size := 2\<rparr>" "[tok JSMN_PRIMITIVE 1 (length part) 0, ?p]" num "[]" 0]
      drop_appendD [OF d] by (simp add: ts_def bump_def ket_def container_def tok_open_def)
  finally show "goes num full (length part) ts 0 (length full) [tok JSMN_ARRAY 0 (length full) 2, tok JSMN_PRIMITIVE 1 (length part) 0,
      tok JSMN_PRIMITIVE (length part) (length full - 1) 0] (- 1)"
    by (simp add: part_def full_def)
qed

lemma array_cut:
  assumes "prim_ok w1" "prim_ok w2" "3 \<le> num" "num \<le> length a"
  defines "part \<equiv> ch_lbracket # w1" and "full \<equiv> ch_lbracket # (w1 @ w2) @ [ch_rbracket]"
  shows "\<exists>st st' st''. jsmn_parse part (length part) num (jsmn_fresh (Some a)) = Inr (JSMN_ERROR_PART, st) \<and>
    jsmn_parse full (length full) num st = Inr (3, st') \<and>
    take 3 (the (jp_tokens st')) = [tok JSMN_ARRAY 0 (length full) 2, tok JSMN_PRIMITIVE 1 (length part) 0,
      tok JSMN_PRIMITIVE (length part) (length full - 1) 0] \<and>
    jsmn_parse full (length full) num (jsmn_fresh (Some a)) = Inr (2, st'') \<and>
    take 2 (the (jp_tokens st'')) = [tok JSMN_ARRAY 0 (length full) 1, tok JSMN_PRIMITIVE 1 (length full - 1) 0]"
proof -
  let ?ts = "[\<lparr>tok_type = JSMN_ARRAY, tok_start = 0, tok_end = - 1, tok_size = 1\<rparr>, tok JSMN_PRIMITIVE 1 (length part) 0]"
  let ?st = "\<lparr>jp_pos = length part, jp_toknext = 2, jp_toksuper = 0, jp_tokens = Some (?ts @ drop 2 a)\<rparr>"
  note C = cut_element [OF assms(1-4), folded part_def full_def]
  have "jsmn_parse part (length part) num (jsmn_fresh (Some a)) = Inr (JSMN_ERROR_PART, ?st)"
    using parse_goes [OF fresh_holds [OF assms(4)], of part ?ts 0] C(1)
    by (simp add: jsmn_fresh_def jsmn_init_def last_idx_def tok_open_def eval_nat_numeral)
  moreover have "\<exists>st'. jsmn_parse full (length full) num ?st = Inr (3, st') \<and>
    take 3 (the (jp_tokens st')) = [tok JSMN_ARRAY 0 (length full) 2, tok JSMN_PRIMITIVE 1 (length part) 0,
      tok JSMN_PRIMITIVE (length part) (length full - 1) 0]"
  proof -
    have "holds num ?st ?ts (drop 2 a)" using assms(3,4) by (simp add: holds_def)
    moreover have "jp_pos ?st \<le> length full" by (simp add: part_def full_def)
    ultimately show ?thesis
      using parse_goes [of num ?st ?ts "drop 2 a" full] C(2) by (simp add: last_idx_None tok_open_def)
  qed
  moreover have "\<exists>st''. jsmn_parse full (length full) num (jsmn_fresh (Some a)) = Inr (2, st'') \<and>
    take 2 (the (jp_tokens st'')) = [tok JSMN_ARRAY 0 (length full) 1, tok JSMN_PRIMITIVE 1 (length full - 1) 0]"
  proof -
    have "json_ok (JArr [] [([], JPrim (w1 @ w2), [])])" using assms(1,2) by (auto simp: prim_ok_def)
    from parse_printed [OF this, of "[]" "[]" num a] show ?thesis using assms(3,4) by (simp add: full_def Let_def)
  qed
  ultimately show ?thesis by blast
qed

text \<open>Outside of brackets the first call does not even report that the text is incomplete.\<close>

lemma bare_cut:
  assumes "prim_ok w1" "prim_ok w2" "2 \<le> num" "num \<le> length a"
  shows "\<exists>st st' st''. jsmn_parse w1 (length w1) num (jsmn_fresh (Some a)) = Inr (1, st) \<and>
    jsmn_parse (w1 @ w2) (length (w1 @ w2)) num st = Inr (2, st') \<and>
    take 2 (the (jp_tokens st')) = [tok JSMN_PRIMITIVE 0 (length w1) 0, tok JSMN_PRIMITIVE (length w1) (length (w1 @ w2)) 0] \<and>
    jsmn_parse (w1 @ w2) (length (w1 @ w2)) num (jsmn_fresh (Some a)) = Inr (1, st'') \<and>
    take 1 (the (jp_tokens st'')) = [tok JSMN_PRIMITIVE 0 (length (w1 @ w2)) 0]"
proof -
  let ?t = "tok JSMN_PRIMITIVE 0 (length w1) 0" and ?u = "tok JSMN_PRIMITIVE (length w1) (length w1 + length w2) 0"
  let ?st = "\<lparr>jp_pos = length w1, jp_toknext = 1, jp_toksuper = - 1, jp_tokens = Some (?t # drop 1 a)\<rparr>"
  have json: "json_ok (JPrim w1)" "json_ok (JPrim (w1 @ w2))" using assms(1,2) by (auto simp: prim_ok_def)
  have "goes num (w1 @ w2) (length w1) [?t] (- 1) (length w1 + length w2) (bump (- 1) [?t] @ [?u]) (- 1)"
    by (rule goes_primitive [of _ _ _ "[]"]) (use assms(2,3) in simp_all)
  hence "goes num (w1 @ w2) (length w1) [?t] (- 1) (length (w1 @ w2)) [?t, ?u] (- 1)" by (simp add: bump_def)
  moreover have "holds num ?st [?t] (drop 1 a)" using assms(3,4) by (simp add: holds_def)
  ultimately have "\<exists>st'. jsmn_parse (w1 @ w2) (length (w1 @ w2)) num ?st = Inr (2, st') \<and> take 2 (the (jp_tokens st')) = [?t, ?u]"
    using parse_goes [of num ?st "[?t]" "drop 1 a" "w1 @ w2" "[?t, ?u]" "- 1"] by (simp add: last_idx_None tok_open_def)
  thus ?thesis
    using parse_printed [OF json(1), of "[]" "[]" num a] parse_printed [OF json(2), of "[]" "[]" num a] assms(3,4) by simp
qed

text \<open>
  C40. A text that arrives in parts, the first of which ends inside a number or a word. The parser stores what there
  is of it as a token and stands behind it; called again on the longer text it makes a second token of the
  rest. In an array of one element the first call gives \<open>JSMN_ERROR_PART\<close>, as announced for texts that are
  not complete, and in the end the array has two elements, where a parse from the start finds one. Outside
  of brackets the first call gives 1, as if the text were complete, the second 2, and a parse from the start 1.
\<close>

theorem jsmn_resume_splits_primitive:
  assumes "prim_ok w1" "prim_ok w2" "3 \<le> num" "num \<le> length a"
  defines "part \<equiv> ch_lbracket # w1" and "full \<equiv> ch_lbracket # (w1 @ w2) @ [ch_rbracket]"
  shows "(\<exists>st st' st''. jsmn_parse part (length part) num (jsmn_fresh (Some a)) = Inr (JSMN_ERROR_PART, st) \<and>
      jsmn_parse full (length full) num st = Inr (3, st') \<and>
      take 3 (the (jp_tokens st')) = [tok JSMN_ARRAY 0 (length full) 2, tok JSMN_PRIMITIVE 1 (length part) 0,
        tok JSMN_PRIMITIVE (length part) (length full - 1) 0] \<and>
      jsmn_parse full (length full) num (jsmn_fresh (Some a)) = Inr (2, st'') \<and>
      take 2 (the (jp_tokens st'')) = [tok JSMN_ARRAY 0 (length full) 1, tok JSMN_PRIMITIVE 1 (length full - 1) 0]) \<and>
    (\<exists>st st' st''. jsmn_parse w1 (length w1) num (jsmn_fresh (Some a)) = Inr (1, st) \<and>
      jsmn_parse (w1 @ w2) (length (w1 @ w2)) num st = Inr (2, st') \<and>
      take 2 (the (jp_tokens st')) = [tok JSMN_PRIMITIVE 0 (length w1) 0, tok JSMN_PRIMITIVE (length w1) (length (w1 @ w2)) 0] \<and>
      jsmn_parse (w1 @ w2) (length (w1 @ w2)) num (jsmn_fresh (Some a)) = Inr (1, st'') \<and>
      take 1 (the (jp_tokens st'')) = [tok JSMN_PRIMITIVE 0 (length (w1 @ w2)) 0])"
  using array_cut [OF assms(1-4)] bare_cut [OF assms(1,2) _ assms(4)] assms(3) unfolding part_def full_def by auto

text \<open>The number 12 in two parts.\<close>

theorem jsmn_resume_splits_primitive_witness:
  "\<exists>st st'. jsmn_parse [0x5B, 0x31] 2 3 (jsmn_fresh (Some (replicate 3 no_tok))) = Inr (JSMN_ERROR_PART, st) \<and>
    jsmn_parse [0x5B, 0x31, 0x32, 0x5D] 4 3 st = Inr (3, st')"
proof -
  have "prim_ok [0x31]" "prim_ok [0x32]" by (simp_all add: prim_ok_def prim_char_def ends_primitive_def blank_def)
  from jsmn_resume_splits_primitive [OF this, of 3 "replicate 3 no_tok"] show ?thesis
    by (auto simp: eval_nat_numeral)
qed

end
