(* ===== verification/Adler32.thy ===== *)
theory Adler32
  imports TV_Prelude
begin

text \<open>
  The Adler-32 checksum of zlib (\<open>adler32.c\<close>), without \<open>NO_DIVIDE\<close>. \<open>unsigned long\<close> has 32 bits on the
  ESP32. A buffer is the list of its bytes from the pointer on, \<open>None\<close> for \<open>Z_NULL\<close>.
\<close>

subsection \<open>The code\<close>

definition BASE :: u32 where "BASE = 65521"
definition NMAX :: nat where "NMAX = 5552"

type_synonym sums = "u32 \<times> u32"     \<comment> \<open>adler and sum2\<close>

definition DO1 :: "byte list \<Rightarrow> nat \<Rightarrow> sums \<Rightarrow> sums run" where
  "DO1 buf i = (\<lambda>(adler, sum2). bindR (c_read buf i) (\<lambda>c.
     let adler = adler + ucast c in Inr (adler, sum2 + adler)))"

definition DO2 :: "byte list \<Rightarrow> nat \<Rightarrow> sums \<Rightarrow> sums run" where
  "DO2 buf i s = bindR (DO1 buf i s) (DO1 buf (i + 1))"

definition DO4 :: "byte list \<Rightarrow> nat \<Rightarrow> sums \<Rightarrow> sums run" where
  "DO4 buf i s = bindR (DO2 buf i s) (DO2 buf (i + 2))"

definition DO8 :: "byte list \<Rightarrow> nat \<Rightarrow> sums \<Rightarrow> sums run" where
  "DO8 buf i s = bindR (DO4 buf i s) (DO4 buf (i + 4))"

definition DO16 :: "byte list \<Rightarrow> sums \<Rightarrow> sums run" where
  "DO16 buf s = bindR (DO8 buf 0 s) (DO8 buf 8)"

definition MOD :: "u32 \<Rightarrow> u32" where "MOD a = a mod BASE"

definition sub_base :: "u32 \<Rightarrow> u32" where
  "sub_base a = (if BASE \<le> a then a - BASE else a)"

text \<open>The loop over single bytes, and the loop that takes \<open>n\<close> times 16 bytes; both move the pointer.\<close>

fun byte_loop :: "nat \<Rightarrow> byte list \<Rightarrow> sums \<Rightarrow> sums run" where
  "byte_loop 0 buf s = Inr s"
| "byte_loop (Suc n) buf s = bindR (DO1 buf 0 s) (byte_loop n (drop 1 buf))"

fun do16_loop :: "nat \<Rightarrow> byte list \<Rightarrow> sums \<Rightarrow> (byte list \<times> sums) run" where
  "do16_loop 0 buf s = Inr (buf, s)"
| "do16_loop (Suc n) buf s = bindR (DO16 buf s) (do16_loop n (drop 16 buf))"

function nmax_loop :: "nat \<Rightarrow> byte list \<Rightarrow> sums \<Rightarrow> (nat \<times> byte list \<times> sums) run" where
  "nmax_loop len buf s =
     (if NMAX \<le> len then
        bindR (do16_loop (NMAX div 16) buf s) (\<lambda>(buf, adler, sum2).
        nmax_loop (len - NMAX) buf (MOD adler, MOD sum2))
      else Inr (len, buf, s))"
  by pat_completeness auto
termination by (relation "measure fst") (auto simp: NMAX_def)

function tail_loop :: "nat \<Rightarrow> byte list \<Rightarrow> sums \<Rightarrow> (nat \<times> byte list \<times> sums) run" where
  "tail_loop len buf s =
     (if 16 \<le> len then bindR (DO16 buf s) (tail_loop (len - 16) (drop 16 buf)) else Inr (len, buf, s))"
  by pat_completeness auto
termination by (relation "measure fst") auto

declare nmax_loop.simps [simp del] tail_loop.simps [simp del]

definition recombine :: "sums \<Rightarrow> u32" where
  "recombine = (\<lambda>(adler, sum2). adler OR push_bit 16 sum2)"

definition adler32_z :: "u32 \<Rightarrow> byte list option \<Rightarrow> nat \<Rightarrow> u32 run" where
  "adler32_z adler buf len =
     (let sum2 = drop_bit 16 adler AND 0xFFFF; adler = adler AND 0xFFFF in
      if len = 1 then
        (case buf of None \<Rightarrow> Inl Undef | Some buf \<Rightarrow>
           bindR (c_read buf 0) (\<lambda>c.
           let adler = sub_base (adler + ucast c); sum2 = sub_base (sum2 + adler) in
           Inr (recombine (adler, sum2))))
      else (case buf of None \<Rightarrow> Inr 1 | Some buf \<Rightarrow>
        if len < 16 then
          bindR (byte_loop len buf (adler, sum2)) (\<lambda>(adler, sum2).
          Inr (recombine (sub_base adler, MOD sum2)))
        else
          bindR (nmax_loop len buf (adler, sum2)) (\<lambda>(len, buf, s).
          if len \<noteq> 0 then
            bindR (tail_loop len buf s) (\<lambda>(len, buf, s).
            bindR (byte_loop len buf s) (\<lambda>(adler, sum2).
            Inr (recombine (MOD adler, MOD sum2))))
          else Inr (recombine s))))"

definition adler32 :: "u32 \<Rightarrow> byte list option \<Rightarrow> nat \<Rightarrow> u32 run" where
  "adler32 adler buf len = adler32_z adler buf len"

text \<open>
  The length of the second part is signed, of 32 or, in \<open>adler32_combine64\<close>, 64 bits; it is only compared with
  zero and reduced, which is exact, so an integer stands for both.
\<close>

definition adler32_combine_impl :: "u32 \<Rightarrow> u32 \<Rightarrow> int \<Rightarrow> u32" where
  "adler32_combine_impl adler1 adler2 len2 =
     (if len2 < 0 then 0xFFFFFFFF
      else
        let rem = (word_of_int (len2 mod uint BASE) :: u32);
            sum1 = adler1 AND 0xFFFF;
            sum2 = MOD (rem * sum1);
            sum1 = sum1 + ((adler2 AND 0xFFFF) + BASE - 1);
            sum2 = sum2 + ((drop_bit 16 adler1 AND 0xFFFF) + (drop_bit 16 adler2 AND 0xFFFF) + BASE - rem);
            sum1 = sub_base sum1;
            sum1 = sub_base sum1;
            sum2 = (if push_bit 1 BASE \<le> sum2 then sum2 - push_bit 1 BASE else sum2);
            sum2 = sub_base sum2 in
        recombine (sum1, sum2))"

definition adler32_combine :: "u32 \<Rightarrow> u32 \<Rightarrow> int \<Rightarrow> u32" where
  "adler32_combine adler1 adler2 len2 = adler32_combine_impl adler1 adler2 len2"

definition adler32_combine64 :: "u32 \<Rightarrow> u32 \<Rightarrow> int \<Rightarrow> u32" where
  "adler32_combine64 adler1 adler2 len2 = adler32_combine_impl adler1 adler2 len2"

subsection \<open>The checksum by its definition\<close>

text \<open>One plus the sum of the bytes, and the sum of these sums, each modulo 65521.\<close>

definition adler_step :: "byte \<Rightarrow> nat \<times> nat \<Rightarrow> nat \<times> nat" where
  "adler_step c = (\<lambda>(a, b). ((a + unat c) mod 65521, (b + a + unat c) mod 65521))"

definition adler_sums :: "byte list \<Rightarrow> nat \<times> nat \<Rightarrow> nat \<times> nat" where
  "adler_sums bs s = fold adler_step bs s"

definition pack :: "nat \<times> nat \<Rightarrow> u32" where
  "pack = (\<lambda>(a, b). of_nat (b * 65536 + a))"

subsection \<open>Sums of 32-bit words\<close>

text \<open>The sums without reducing, and their words: adding never looks at the size.\<close>

definition raw_step :: "byte \<Rightarrow> nat \<times> nat \<Rightarrow> nat \<times> nat" where
  "raw_step c = (\<lambda>(a, b). (a + unat c, b + a + unat c))"

definition words :: "nat \<times> nat \<Rightarrow> sums" where
  "words = (\<lambda>(a, b). (of_nat a, of_nat b))"

lemma DO1_words: "i < length buf \<Longrightarrow> DO1 buf i (words s) = Inr (words (raw_step (buf ! i) s))"
  by (simp add: DO1_def words_def raw_step_def Let_def split: prod.split)

lemma take_two: "take (m + n) (drop i buf) = take m (drop i buf) @ take n (drop (i + m) buf)"
  by (simp add: take_add add.commute)

lemma DO2_words: "i + 2 \<le> length buf \<Longrightarrow> DO2 buf i (words s) = Inr (words (fold raw_step (take 2 (drop i buf)) s))"
  using take_two [of 1 1 i buf] by (simp add: DO2_def DO1_words numeral_2_eq_2 take_Suc_conv_app_nth)

lemma DO4_words: "i + 4 \<le> length buf \<Longrightarrow> DO4 buf i (words s) = Inr (words (fold raw_step (take 4 (drop i buf)) s))"
  using take_two [of 2 2 i buf] by (simp add: DO4_def DO2_words)

lemma DO8_words: "i + 8 \<le> length buf \<Longrightarrow> DO8 buf i (words s) = Inr (words (fold raw_step (take 8 (drop i buf)) s))"
  using take_two [of 4 4 i buf] by (simp add: DO8_def DO4_words)

lemma DO16_words: "16 \<le> length buf \<Longrightarrow> DO16 buf (words s) = Inr (words (fold raw_step (take 16 buf) s))"
  using take_two [of 8 8 0 buf] by (simp add: DO16_def DO8_words)

lemma byte_loop_words: "n \<le> length buf \<Longrightarrow> byte_loop n buf (words s) = Inr (words (fold raw_step (take n buf) s))"
proof (induction n arbitrary: buf s)
  case (Suc n)
  then obtain c cs where "buf = c # cs" by (cases buf) auto
  with Suc show ?case using DO1_words [of 0 buf s] by simp
qed simp

lemma do16_loop_words:
  "16 * n \<le> length buf \<Longrightarrow> do16_loop n buf (words s) = Inr (drop (16 * n) buf, words (fold raw_step (take (16 * n) buf) s))"
proof (induction n arbitrary: buf s)
  case (Suc n)
  have "take (16 * Suc n) buf = take 16 buf @ take (16 * n) (drop 16 buf)"
    using take_two [of 16 "16 * n" 0 buf] by simp
  with Suc show ?case using DO16_words [of buf s] by (simp add: add.commute)
qed simp

lemma tail_loop_words:
  "len \<le> length buf \<Longrightarrow> tail_loop len buf (words s) =
    Inr (len mod 16, drop (16 * (len div 16)) buf, words (fold raw_step (take (16 * (len div 16)) buf) s))"
proof (induction len arbitrary: buf s rule: less_induct)
  case (less len)
  show ?case
  proof (cases "16 \<le> len")
    case True
    let ?n = "16 * ((len - 16) div 16)"
    have n: "16 * (len div 16) = 16 + ?n" "len mod 16 = (len - 16) mod 16" using True by (simp_all add: le_div_geq le_mod_geq)
    have "take (16 + ?n) buf = take 16 buf @ take ?n (drop 16 buf)" using take_two [of 16 ?n 0 buf] by simp
    with less True n show ?thesis
      using DO16_words [of buf s] by (subst tail_loop.simps) (simp add: add.commute)
  qed (simp add: tail_loop.simps [of len])
qed

subsection \<open>When to reduce\<close>

text \<open>The largest values the sums can have after \<open>n\<close> bytes; up to \<open>NMAX\<close> bytes they fit in a word.\<close>

definition reduced :: "nat \<times> nat \<Rightarrow> bool" where
  "reduced = (\<lambda>(a, b). a < 65521 \<and> b < 65521)"

definition reduce :: "nat \<times> nat \<Rightarrow> nat \<times> nat" where
  "reduce = (\<lambda>(a, b). (a mod 65521, b mod 65521))"

definition bounded :: "nat \<Rightarrow> nat \<times> nat \<Rightarrow> bool" where
  "bounded n = (\<lambda>(a, b). a \<le> 65520 + 255 * n \<and> 2 * b \<le> 131040 * (n + 1) + 255 * n * (n + 1))"

lemma raw_step_bounded: "bounded n s \<Longrightarrow> bounded (Suc n) (raw_step c s)"
proof -
  have "unat c < 256" using unsigned_less [of c, where 'a = nat] by simp
  moreover assume "bounded n s"
  ultimately show ?thesis by (auto simp: bounded_def raw_step_def algebra_simps split: prod.splits)
qed

lemma raw_bounded: "bounded n s \<Longrightarrow> bounded (n + length bs) (fold raw_step bs s)"
proof (induction bs arbitrary: n s)
  case (Cons c bs)
  from Cons.IH [OF raw_step_bounded [OF Cons.prems]] show ?case by simp
qed simp

lemma bounded_fits:
  assumes "bounded n (a, b)" "n \<le> NMAX"
  shows "a < 2 ^ 32 \<and> b < 2 ^ 32"
proof -
  have "n * (n + 1) \<le> 5552 * 5553" using assms(2) by (intro mult_le_mono) (simp_all add: NMAX_def)
  thus ?thesis using assms by (auto simp: bounded_def NMAX_def mult.assoc)
qed

lemma reduced_bounded: "reduced s \<Longrightarrow> bounded 0 s"
  by (auto simp: reduced_def bounded_def)

lemma MOD_of_nat: "a < 2 ^ 32 \<Longrightarrow> MOD (of_nat a) = of_nat (a mod 65521)"
  by (intro iffD2 [OF word_unat_eq_iff])
    (simp add: MOD_def BASE_def unat_mod unsigned_of_nat take_bit_nat_eq_self)

lemma sub_base_of_nat: "a < 2 * 65521 \<Longrightarrow> sub_base (of_nat a) = of_nat (a mod 65521)"
  by (cases "a < 65521") (auto simp: sub_base_def BASE_def word_le_nat_alt unsigned_of_nat take_bit_nat_eq_self mod_if [of a] of_nat_diff)

lemma reduce_step: "reduce (raw_step c s) = adler_step c (reduce s)"
  by (simp add: reduce_def raw_step_def adler_step_def mod_simps split: prod.split) (metis mod_add_eq mod_add_left_eq)

lemma reduce_fold: "reduce (fold raw_step bs s) = adler_sums bs (reduce s)"
  by (induction bs arbitrary: s) (simp_all add: adler_sums_def reduce_step)

lemma reduce_reduced [simp]: "reduced s \<Longrightarrow> reduce s = s"
  by (auto simp: reduced_def reduce_def)

lemma reduced_sums: "reduced s \<Longrightarrow> reduced (adler_sums bs s)"
  using reduce_fold [of bs s] by (auto simp: reduced_def reduce_def split: prod.splits)

text \<open>Reducing after at most \<open>NMAX\<close> bytes gives the checksum.\<close>

lemma mod_words:
  assumes "reduced s" "length bs \<le> NMAX" "words (fold raw_step bs s) = (adler, sum2)"
  shows "(MOD adler, MOD sum2) = words (adler_sums bs s)"
proof -
  obtain a b where ab: "fold raw_step bs s = (a, b)" by (cases "fold raw_step bs s")
  have "bounded (length bs) (a, b)" using raw_bounded [OF reduced_bounded [OF assms(1)], of bs] ab by simp
  from bounded_fits [OF this assms(2)] have "MOD adler = of_nat (a mod 65521)" "MOD sum2 = of_nat (b mod 65521)"
    using assms(3) MOD_of_nat by (auto simp: ab words_def)
  moreover have "reduce (a, b) = adler_sums bs s" using reduce_fold [of bs s] assms(1) ab by simp
  hence "adler_sums bs s = (a mod 65521, b mod 65521)" by (simp add: reduce_def)
  ultimately show ?thesis by (simp add: words_def)
qed

lemma adler_sums_append: "adler_sums (xs @ ys) s = adler_sums ys (adler_sums xs s)"
  by (simp add: adler_sums_def)

lemma nmax_loop_words:
  assumes "len \<le> length buf" "reduced s"
  shows "nmax_loop len buf (words s) =
    Inr (len mod NMAX, drop (NMAX * (len div NMAX)) buf, words (adler_sums (take (NMAX * (len div NMAX)) buf) s))"
  using assms
proof (induction len arbitrary: buf s rule: less_induct)
  case (less len)
  show ?case
  proof (cases "NMAX \<le> len")
    case True
    have pos: "0 < NMAX" by (simp add: NMAX_def)
    let ?n = "NMAX * ((len - NMAX) div NMAX)"
    have n: "NMAX * (len div NMAX) = NMAX + ?n" "len mod NMAX = (len - NMAX) mod NMAX"
      using True pos by (simp_all add: le_div_geq le_mod_geq)
    obtain adler sum2 where raw: "words (fold raw_step (take NMAX buf) s) = (adler, sum2)"
      by (cases "words (fold raw_step (take NMAX buf) s)")
    have "do16_loop (NMAX div 16) buf (words s) = Inr (drop NMAX buf, adler, sum2)"
      using do16_loop_words [of "NMAX div 16" buf s] less.prems(1) True raw by (simp add: NMAX_def)
    moreover have "(MOD adler, MOD sum2) = words (adler_sums (take NMAX buf) s)"
      using mod_words [OF less.prems(2) _ raw] by simp
    ultimately have "nmax_loop len buf (words s) = nmax_loop (len - NMAX) (drop NMAX buf) (words (adler_sums (take NMAX buf) s))"
      using True by (subst nmax_loop.simps) simp
    also have "\<dots> = Inr ((len - NMAX) mod NMAX, drop ?n (drop NMAX buf), words (adler_sums (take ?n (drop NMAX buf)) (adler_sums (take NMAX buf) s)))"
      by (rule less.IH) (use True pos less.prems reduced_sums in auto)
    also have "\<dots> = Inr (len mod NMAX, drop (NMAX * (len div NMAX)) buf, words (adler_sums (take (NMAX * (len div NMAX)) buf) s))"
      unfolding n using take_two [of NMAX ?n 0 buf] by (simp add: adler_sums_append add.commute)
    finally show ?thesis .
  qed (simp add: nmax_loop.simps [of len] adler_sums_def)
qed

subsection \<open>Packed sums\<close>

lemma pack_eq_recombine: "reduced s \<Longrightarrow> recombine (words s) = pack s"
proof -
  assume "reduced s"
  then obtain a b where s: "s = (a, b)" "a < 65536" "b < 65536" by (cases s) (auto simp: reduced_def)
  have "take_bit 16 (of_nat a :: u32) = of_nat a"
    using s(2) by (intro iffD2 [OF word_unat_eq_iff]) (simp add: unsigned_of_nat take_bit_nat_eq_self unsigned_take_bit_eq)
  hence "\<not> bit (of_nat a :: u32) n" if "16 \<le> n" for n using that by (metis bit_take_bit_iff leD)
  hence "of_nat a OR push_bit 16 (of_nat b :: u32) = of_nat a + push_bit 16 (of_nat b)"
    by (intro disjunctive_add [symmetric]) (auto simp: bit_simps)
  thus ?thesis by (simp add: s(1) recombine_def words_def pack_def push_bit_eq_mult)
qed

lemma unpack:
  assumes "reduced (a, b)"
  shows "pack (a, b) AND 0xFFFF = of_nat a" "drop_bit 16 (pack (a, b)) AND 0xFFFF = of_nat b"
proof -
  have mask: "(0xFFFF :: u32) = mask 16" by (simp add: mask_eq_exp_minus_1)
  have u: "unat (pack (a, b)) = b * 65536 + a" using assms
    by (simp add: pack_def reduced_def unsigned_of_nat take_bit_nat_eq_self del: of_nat_add of_nat_mult)
  have ab: "unat (of_nat a :: u32) = a" "unat (of_nat b :: u32) = b"
    using assms by (simp_all add: reduced_def unsigned_of_nat take_bit_nat_eq_self)
  have "unat (take_bit 16 (pack (a, b))) = a" "unat (take_bit 16 (drop_bit 16 (pack (a, b)))) = b"
    unfolding unsigned_take_bit_eq unsigned_drop_bit_eq u
    using assms by (simp_all add: reduced_def take_bit_eq_mod drop_bit_eq_div)
  thus "pack (a, b) AND 0xFFFF = of_nat a" "drop_bit 16 (pack (a, b)) AND 0xFFFF = of_nat b"
    unfolding mask take_bit_eq_mask [symmetric] using ab by (auto intro: iffD2 [OF word_unat_eq_iff])
qed

subsection \<open>The code computes the checksum\<close>

lemma bounded_end:
  assumes "reduced s" "length bs < 16"
  shows "fst (fold raw_step bs s) < 2 * 65521 \<and> snd (fold raw_step bs s) < 2 ^ 32"
proof -
  obtain a b where ab: "fold raw_step bs s = (a, b)" by (cases "fold raw_step bs s")
  have bd: "bounded (length bs) (a, b)" using raw_bounded [OF reduced_bounded [OF assms(1)], of bs] ab by simp
  hence "a < 2 * 65521" using assms(2) by (simp add: bounded_def)
  moreover have "b < 2 ^ 32" using bounded_fits [OF bd] assms(2) by (simp add: NMAX_def)
  ultimately show ?thesis by (simp add: ab)
qed

lemma reduce_words:
  assumes "reduced s" "length bs < 16" "words (fold raw_step bs s) = (adler, sum2)"
  shows "(sub_base adler, MOD sum2) = words (adler_sums bs s)"
  using assms mod_words [OF assms(1) _ assms(3)] bounded_end [OF assms(1,2)]
  by (auto simp: words_def NMAX_def sub_base_of_nat MOD_of_nat split: prod.splits)

lemma adler32_len_one:
  assumes "reduced s" "buf \<noteq> []"
  shows "adler32_z (pack s) (Some buf) 1 = Inr (pack (adler_sums (take 1 buf) s))"
proof -
  obtain a b where s: "s = (a, b)" by (cases s)
  obtain c cs where buf: "buf = c # cs" using assms(2) by (cases buf) auto
  have lt: "a < 65521" "b < 65521" "unat c < 256" using assms(1) unsigned_less [of c, where 'a = nat] by (auto simp: s reduced_def)
  have "sub_base (of_nat a + ucast c) = of_nat ((a + unat c) mod 65521)"
    using sub_base_of_nat [of "a + unat c"] lt by simp
  moreover have "sub_base (of_nat b + of_nat ((a + unat c) mod 65521)) = of_nat ((b + a + unat c) mod 65521)"
    using sub_base_of_nat [of "b + (a + unat c) mod 65521"] lt by (simp add: mod_simps add.assoc)
  ultimately show ?thesis
    using pack_eq_recombine [OF reduced_sums [OF assms(1), of "[c]"]] unpack [OF assms(1) [unfolded s]]
    by (simp add: adler32_z_def buf s Let_def adler_sums_def adler_step_def words_def)
qed

text \<open>
  C20. The checksum is right for every buffer. The code reduces the sums only every 5552 bytes, unrolls the
  loop by 16 and has shortcuts for short buffers; the result is that of the definition, which reduces
  after each byte, for any length and any running checksum to start from. In particular no sum
  overflows its 32 bits, and nothing beyond the length is read.
\<close>

theorem adler32_is_checksum:
  assumes "reduced s" "len \<le> length buf"
  shows "adler32 (pack s) (Some buf) len = Inr (pack (adler_sums (take len buf) s))"
proof -
  obtain a b where s: "s = (a, b)" by (cases s)
  have start: "(pack s AND 0xFFFF, drop_bit 16 (pack s) AND 0xFFFF) = words s"
    using unpack [OF assms(1) [unfolded s]] by (simp add: s words_def)
  note packed = pack_eq_recombine [OF reduced_sums [OF assms(1)]]
  consider "len = 1" | "len \<noteq> 1" "len < 16" | "16 \<le> len" by linarith
  thus ?thesis
  proof cases
    case 1
    hence "buf \<noteq> []" using assms(2) by auto
    from adler32_len_one [OF assms(1) this] show ?thesis by (simp add: adler32_def 1)
  next
    case 2
    obtain adler sum2 where w: "words (fold raw_step (take len buf) s) = (adler, sum2)"
      by (cases "words (fold raw_step (take len buf) s)")
    have "(sub_base adler, MOD sum2) = words (adler_sums (take len buf) s)"
      using reduce_words [OF assms(1) _ w] 2 by simp
    thus ?thesis
      using 2 byte_loop_words [OF assms(2), of s] w packed start by (simp add: adler32_def adler32_z_def Let_def)
  next
    case 3
    let ?n = "NMAX * (len div NMAX)" and ?r = "len mod NMAX"
    let ?s = "adler_sums (take ?n buf) s" and ?buf = "drop ?n buf" and ?m = "16 * (?r div 16)"
    have r: "?r < NMAX" by (simp add: NMAX_def)
    have buf: "?r \<le> length ?buf" and whole: "take len buf = take ?n buf @ take ?r ?buf"
      using assms(2) take_two [of ?n ?r 0 buf] minus_mult_div_eq_mod [of len NMAX] by simp_all
    obtain adler sum2 where w: "words (fold raw_step (take ?r ?buf) ?s) = (adler, sum2)"
      by (cases "words (fold raw_step (take ?r ?buf) ?s)")
    have fin: "(MOD adler, MOD sum2) = words (adler_sums (take len buf) s)"
      using mod_words [OF reduced_sums [OF assms(1)] _ w] r by (simp add: whole adler_sums_append)
    have "take ?r ?buf = take ?m ?buf @ take (?r mod 16) (drop ?m ?buf)" using take_two [of ?m "?r mod 16" 0 ?buf] by simp
    note split = this
    have tail: "byte_loop (?r mod 16) (drop ?m ?buf) (words (fold raw_step (take ?m ?buf) ?s)) = Inr (adler, sum2)"
    proof -
      have "?r mod 16 \<le> length (drop ?m ?buf)" using buf minus_mult_div_eq_mod [of ?r 16] by simp
      from byte_loop_words [OF this] split w show ?thesis by (metis fold_append comp_apply)
    qed
    show ?thesis
    proof (cases "?r = 0")
      case True
      thus ?thesis using 3 nmax_loop_words [OF assms(2,1)] packed start whole by (simp add: adler32_def adler32_z_def Let_def)
    next
      case False
      thus ?thesis
        using 3 nmax_loop_words [OF assms(2,1)] tail_loop_words [OF buf, of ?s] tail fin packed start
        by (simp add: adler32_def adler32_z_def Let_def)
    qed
  qed
qed

theorem adler32_is_checksum_witness:
  "adler32 1 (Some (replicate 6000 0xFF)) 6000 = Inr (pack (adler_sums (replicate 6000 0xFF) (1, 0)))"
proof -
  have "reduced (1, 0)" "6000 \<le> length (replicate 6000 (0xFF :: byte))" by (simp_all add: reduced_def)
  from adler32_is_checksum [OF this] show ?thesis by (simp add: pack_def)
qed

text \<open>The null pointer: the initial value, but for the length 1, which is looked at first.\<close>

lemma adler32_null: "adler32 adler None len = (if len = 1 then Inl Undef else Inr 1)"
  by (simp add: adler32_def adler32_z_def Let_def)

subsection \<open>Combining two checksums\<close>

lemma raw_shift: "fold raw_step bs (a, b) = (a + fst (fold raw_step bs (0, 0)), b + length bs * a + snd (fold raw_step bs (0, 0)))"
proof (induction bs arbitrary: a b)
  case (Cons c bs)
  show ?case
    using Cons.IH [of "a + unat c" "b + a + unat c"] Cons.IH [of "unat c" "unat c"]
    by (simp add: raw_step_def algebra_simps)
qed simp

lemma sub_base_eq: "x < 2 ^ 32 \<Longrightarrow> sub_base (of_nat x) = of_nat (if 65521 \<le> x then x - 65521 else x)"
  by (auto simp: sub_base_def BASE_def word_le_nat_alt unsigned_of_nat take_bit_nat_eq_self of_nat_diff)

lemma sub_base_twice: "x < 3 * 65521 \<Longrightarrow> sub_base (sub_base (of_nat x)) = of_nat (x mod 65521)"
proof (cases "65521 \<le> x")
  case True
  assume "x < 3 * 65521"
  hence "sub_base (of_nat x) = of_nat (x - 65521)" "sub_base (of_nat (x - 65521)) = of_nat ((x - 65521) mod 65521)"
    using sub_base_eq [of x] sub_base_of_nat [of "x - 65521"] True by (simp_all del: of_nat_diff)
  thus ?thesis using True by (simp add: le_mod_geq del: of_nat_diff)
next
  case False
  thus ?thesis using sub_base_of_nat [of x] by simp
qed

lemma sub_two_bases:
  assumes "x < 4 * 65521"
  shows "sub_base (if push_bit 1 BASE \<le> of_nat x then of_nat x - push_bit 1 BASE else of_nat x) = of_nat (x mod 65521)"
proof -
  have two: "push_bit 1 BASE = of_nat (2 * 65521)" by (simp add: BASE_def)
  have le: "push_bit 1 BASE \<le> (of_nat x :: u32) \<longleftrightarrow> 2 * 65521 \<le> x"
    unfolding two word_le_nat_alt using assms by (simp add: unsigned_of_nat take_bit_nat_eq_self)
  show ?thesis
  proof (cases "2 * 65521 \<le> x")
    case True
    hence "of_nat x - push_bit 1 BASE = (of_nat (x - 2 * 65521) :: u32)" unfolding two by (rule of_nat_diff [symmetric])
    moreover have "(x - 2 * 65521) mod 65521 = x mod 65521" using True by (simp add: le_mod_geq)
    ultimately show ?thesis using sub_base_of_nat [of "x - 2 * 65521"] assms True le by simp
  qed (use le sub_base_of_nat [of x] in simp)
qed

text \<open>The sums of a concatenation, from those of its parts.\<close>

lemma combined_sums:
  assumes "adler_sums xs (1, 0) = (a1, b1)" "adler_sums ys (1, 0) = (a2, b2)"
  defines "n \<equiv> length ys mod 65521"
  shows "adler_sums (xs @ ys) (1, 0) = ((a1 + (a2 + 65521 - 1)) mod 65521, (n * a1 mod 65521 + (b1 + b2 + 65521 - n)) mod 65521)"
proof -
  obtain S T where ST: "fold raw_step ys (0, 0) = (S, T)" by (cases "fold raw_step ys (0, 0)")
  have one: "reduced (1, 0)" by (simp add: reduced_def)
  have red: "reduced (a1, b1)" "reduced (a2, b2)"
    using reduced_sums [OF one, of xs] reduced_sums [OF one, of ys] assms(1,2) by simp_all
  have "reduce (fold raw_step ys (1, 0)) = (a2, b2)" using reduce_fold [of ys "(1, 0)"] one assms(2) by simp
  hence ab2: "a2 = (1 + S) mod 65521" "b2 = (length ys + T) mod 65521"
    using raw_shift [of ys 1 0] ST by (simp_all add: reduce_def)
  have "adler_sums (xs @ ys) (1, 0) = reduce (fold raw_step ys (a1, b1))"
    using reduce_fold [of ys "(a1, b1)"] red(1) assms(1) by (simp add: adler_sums_append)
  also have "\<dots> = ((a1 + S) mod 65521, (b1 + length ys * a1 + T) mod 65521)"
    using raw_shift [of ys a1 b1] ST by (simp add: reduce_def)
  also have "(a1 + S) mod 65521 = (a1 + (a2 + 65521 - 1)) mod 65521"
  proof -
    have "(a1 + (a2 + 65521 - 1)) mod 65521 = ((a1 + 65520) + (1 + S) mod 65521) mod 65521" by (simp add: ab2 add.assoc)
    also have "\<dots> = (a1 + S + 65521) mod 65521" by (simp only: mod_add_right_eq) simp
    finally show ?thesis by simp
  qed
  also have "(b1 + length ys * a1 + T) mod 65521 = (n * a1 mod 65521 + (b1 + b2 + 65521 - n)) mod 65521"
  proof -
    let ?t = "T mod 65521"
    have b2: "b2 = (n + ?t) mod 65521" unfolding ab2 n_def by (simp only: mod_add_eq)
    have lt: "n < 65521" "?t < 65521" by (simp_all add: n_def)
    have "(b1 + b2 + 65521 - n) mod 65521 = (b1 + ?t) mod 65521"
    proof (cases "n + ?t < 65521")
      case True
      hence "b1 + b2 + 65521 - n = b1 + ?t + 65521" by (simp add: b2)
      thus ?thesis by (simp only: mod_add_self2)
    next
      case False
      hence "b2 = n + ?t - 65521" using lt by (simp add: b2 mod_if [of "n + ?t"])
      hence "b1 + b2 + 65521 - n = b1 + ?t" using False by linarith
      thus ?thesis by (simp only:)
    qed
    hence "(n * a1 mod 65521 + (b1 + b2 + 65521 - n)) mod 65521 = (n * a1 mod 65521 + (b1 + ?t) mod 65521) mod 65521"
      by (metis mod_add_right_eq)
    also have "\<dots> = (n * a1 + (b1 + T)) mod 65521" by (metis mod_add_left_eq mod_add_right_eq)
    also have "\<dots> = (length ys * a1 + (b1 + T)) mod 65521" unfolding n_def by (metis mod_add_left_eq mod_mult_left_eq)
    finally show ?thesis by (simp add: algebra_simps)
  qed
  finally show ?thesis .
qed

text \<open>
  C29. The checksum of a concatenation from the checksums of its parts and the length of the second:
  \<open>adler32_combine\<close> gives what the checksum of the whole buffer is, for any two parts, and its 32-bit
  subtractions never go below zero.
\<close>

theorem adler32_combine_append:
  "adler32_combine (pack (adler_sums xs (1, 0))) (pack (adler_sums ys (1, 0))) (int (length ys)) =
    pack (adler_sums (xs @ ys) (1, 0))"
proof -
  obtain a1 b1 a2 b2 where s: "adler_sums xs (1, 0) = (a1, b1)" "adler_sums ys (1, 0) = (a2, b2)" by fastforce
  define n where "n = length ys mod 65521"
  have one: "reduced (1, 0)" by (simp add: reduced_def)
  have red: "reduced (a1, b1)" "reduced (a2, b2)" "reduced (adler_sums (xs @ ys) (1, 0))"
    using reduced_sums [OF one] s by (metis, metis, blast)
  have lt: "a1 < 65521" "b1 < 65521" "a2 < 65521" "b2 < 65521" "n < 65521" using red by (auto simp: reduced_def n_def)
  let ?A = "a1 + (a2 + 65521 - 1)" and ?B = "n * a1 mod 65521 + (b1 + b2 + 65521 - n)"
  have "int (length ys) mod uint BASE = int n" by (simp add: n_def BASE_def zmod_int)
  hence rem: "word_of_int (int (length ys) mod uint BASE) = (of_nat n :: u32)" by (simp only: of_int_of_nat_eq)
  have "n * a1 \<le> 65520 * 65520" using lt by (intro mult_le_mono) auto
  hence prod: "MOD (of_nat n * of_nat a1) = of_nat (n * a1 mod 65521)" using MOD_of_nat [of "n * a1"] by simp
  have A: "of_nat a1 + (of_nat a2 + BASE - 1) = (of_nat ?A :: u32)" using lt by (simp add: BASE_def)
  have B: "of_nat (n * a1 mod 65521) + (of_nat b1 + of_nat b2 + BASE - of_nat n) = (of_nat ?B :: u32)"
    using lt of_nat_diff [of n "b1 + b2 + 65521", where 'a = u32] unfolding of_nat_add [of "n * a1 mod 65521"] by (simp add: BASE_def)
  have small: "?A < 3 * 65521" "?B < 4 * 65521" using lt mod_less_divisor [of 65521 "n * a1"] by linarith+
  have "adler32_combine (pack (a1, b1)) (pack (a2, b2)) (int (length ys)) = recombine (words (?A mod 65521, ?B mod 65521))"
    unfolding adler32_combine_def adler32_combine_impl_def Let_def rem unpack [OF red(1)] unpack [OF red(2)] prod A B
      sub_base_twice [OF small(1)] sub_two_bases [OF small(2)] by (simp add: words_def)
  also have "(?A mod 65521, ?B mod 65521) = adler_sums (xs @ ys) (1, 0)" using combined_sums [OF s] by (simp add: n_def)
  also have "recombine (words (adler_sums (xs @ ys) (1, 0))) = pack (adler_sums (xs @ ys) (1, 0))"
    by (rule pack_eq_recombine [OF red(3)])
  finally show ?thesis unfolding s .
qed

end
