(* ===== verification/Spec2Isabelle.thy ===== *)
theory Spec2Isabelle
  imports Esp_Touch Bus_Types Draw_Races Tv_Races Tv_Interleave Board Jsmn_Print Adler32
begin

text \<open>
  \<^bold>\<open>TD-ToothVoca: a verification of the firmware\<close>

  The firmware runs on an ESP32-S3 with a 320 by 240 display. A touch wakes it; for two minutes it counts down on
  the screen, at the start of each minute asks a server on the network for a word and a sentence,
  draws them, and plays an MP3 stream; then it switches the display off and sleeps again. Its code is in
  \<open>src/main\<close> and \<open>src/components\<close>, with two display drivers under \<open>src/managed_components\<close>.

  \<^bold>\<open>Conventions\<close> (\<open>TV_Prelude\<close>). C integers are words of their width where they can wrap around, an array is
  a list accessed with checks, and a function that can fail at run time gives \<open>Inr\<close> of its result or
  \<open>Inl\<close> of a fault: \<open>Undef\<close> (an access outside an object or through a null pointer), \<open>Abort\<close> (an assertion or
  \<open>ESP_ERROR_CHECK\<close>), \<open>Blocked\<close> (a wait for something that never comes). Static variables are fields of a record,
  passed and returned. Calls to ESP-IDF, ESP-ADF, FreeRTOS and the sockets are not in the repository: each
  is written to a log, and its answer is a parameter, a function of the position in the log, so that no
  theorem depends on which calls succeed unless it says so.

  \<^bold>\<open>Theories\<close>, each named after what it models, in the order of the imports:

  \<^item> \<open>C_String\<close>: the functions of \<open>string.h\<close> the firmware uses, on arrays with and without a terminating NUL.
  \<^item> \<open>Parser_Char\<close> (\<open>lcd_touch/parser_char.c\<close>): the UTF-8 reader; it inverts UTF-8 on one- and three-byte
    characters, never reads past the NUL, and returns the lead byte of a two- or four-byte character.
  \<^item> \<open>Http_Req\<close> (\<open>http_request/http_req.c\<close>): one exchange over a socket and its receive loop; what ends up in
    the buffer, and that address list and socket are released once on every path.
  \<^item> \<open>Req_Word\<close> (\<open>req_word/req_word.c\<close>): request, parser and getters; a round trip for \<open>word : sentence\<close>, safety on
    any response, and the end-to-end property of a request.
  \<^item> \<open>Panel_Io\<close>: the bus below the drivers as a log of events, the controller's documented reaction to it
    (window, frame memory, mode registers), the resources held, and the interface \<open>panel_device\<close>: what drawing
    code may assume of a driver. Instances of all theorems about pixels are stated on this frame memory.
  \<^item> \<open>Ili9341\<close> (\<open>esp_lcd_ili9341.c\<close>): every function of the driver; \<open>ili\<close> interprets \<open>panel_device\<close> on it.
  \<^item> \<open>Esp_Touch\<close> (\<open>esp_lcd_touch.c\<close>): the touch driver's common part, over the function table of a chip driver.
  \<^item> \<open>Font_Glyphs\<close>, \<open>Font_Letters\<close>, \<open>Font_Table\<close> (\<open>lcd_touch/Font.h\<close>, \<open>LcdTouch_GetFontIndexOfUnicode\<close>): the
    bitmaps of ASCII and of the Hangul letters as they are in the file, the keys of the 11361 entries, and
    which code points find their own entry.
  \<^item> \<open>Lcd_Draw\<close>, \<open>Lcd_Text\<close>, \<open>Lcd_Touch\<close> (\<open>lcd_touch/lcd_touch.c\<close>): the semaphore and the two functions that send
    pixels; glyphs, characters and strings; initialisation and the interface. The lemmas about drawing are
    proved in the locale \<open>panel_device\<close> and used through \<open>ili\<close>. \<open>layout\<close> and \<open>text_frame\<close> are the reference: where the
    characters of a text go, and the frame memory with them painted.
  \<^item> \<open>Lcd_Keeps\<close>: what every function of the display module leaves as it was, whatever the hardware answers: the
    interface \<open>panel_keeps\<close>, over any invariant of the device.
  \<^item> \<open>Audio_Stream\<close> (\<open>audioStream/audio_stream.c\<close>): the life cycle of the ADF objects; \<open>audio\<close> interprets \<open>safe_ops\<close>.
  \<^item> \<open>Board\<close> (\<open>my_board\<close>): board object, pin tables, codec stub; \<open>board\<close> interprets \<open>total_ops\<close>.
  \<^item> \<open>Tv_Task\<close> (\<open>main/task.c\<close>): the four tasks, one iteration each, on the state \<open>tv_state\<close> of the whole firmware;
    the invariant \<open>tv_inv\<close>, kept by every event (\<open>tv_step\<close>); \<open>tv\<close> interprets \<open>total_ops\<close>.
  \<^item> \<open>Tv_Session\<close>: the count-down as a refinement of a clock in seconds, a whole session, a word from the
    network to the screen, a touch.
  \<^item> \<open>Tv_Main\<close> (\<open>main/main.c\<close>): the boot, which establishes \<open>tv_inv\<close>, and the firmware from then on.
  \<^item> \<open>Tv_Statements\<close>: the tasks with a program counter each and a step per statement; run alone the statements
    of a task are its iteration, and interleaved in any way, a call or a copy being one step, they never fault on a polite network.
  \<^item> \<open>Bus_Types\<close>: a type system for the commands to the display controller, and that the booted firmware, on
    any hardware, as long as no two drawings overlap and up to a fault, sends only well-typed traffic; \<open>bus\<close> interprets \<open>panel_keeps\<close>.
  \<^item> \<open>Tv_Races\<close>: the interleavings in which an update of an unprotected flag is lost: a touch in the last second
    that starts a session on a dark panel, a word request, a time text.
  \<^item> \<open>Tv_Interleave\<close>: the two drawing tasks step by step, as an inductive relation: safe in the runs in which drawings do not
    overlap, and the reachable states in which they fail, since in the code they do not.
  \<^item> \<open>Draw_Races\<close>: drawing while another task draws or prints: the address window of the controller, of which
    there is one for both, and the texts that are read while they are being written.
  \<^item> \<open>Jsmn\<close> (\<open>espressif__jsmn/include/jsmn.h\<close>): the JSON tokenizer that ESP-ADF brings, every function, on a text and a token
    array given by the caller. \<open>Jsmn_Machine\<close>: the same parse in two phases, a lexer and a machine on the tokens
    alone, and that the code refines it. From it \<open>Jsmn_Tokens\<close> proves safety for any text, the counting pass and
    the resumption after too few tokens, and \<open>Jsmn_Print\<close> that every JSON value printed with any white space gives
    exactly its tokens; each gap of the text may be different.
  \<^item> \<open>Adler32\<close> (\<open>espressif__zlib/zlib/adler32.c\<close>): the checksum of zlib with its unrolled loops and delayed reductions,
    against the definition that reduces after every byte; the checksum of a concatenation.

  \<^bold>\<open>Interfaces.\<close> \<open>safe_ops\<close> and its extension \<open>total_ops\<close> (\<open>TV_Prelude\<close>) state what a module promises that is called in
  any order: an operation keeps the invariant and never faults, and always returns. \<open>panel_device\<close> states
  what a display driver promises when its calls succeed, \<open>panel_keeps\<close> what it keeps when they may not. Each is interpreted on the code's model.

  \<^bold>\<open>Granularity.\<close> In \<open>Tv_Task\<close> an iteration of a task is one step: tasks are interleaved between iterations, in
  any order, and a touch can come between any two. In \<open>Tv_Statements\<close> a statement is one step, so that the flags
  and buffers the tasks share can change between any two statements; a call of a module is one step, and so
  is the copying of a text. \<open>Tv_Interleave\<close> opens the drawing calls, for the semaphore that two tasks use in the
  middle of them; \<open>Draw_Races\<close> interleaves the commands of two draws, and has texts of which some bytes are
  the old ones and some the new. So what \<open>Tv_Task\<close>, \<open>Tv_Statements\<close> and \<open>Bus_Types\<close> prove is about runs in which such
  calls and copies do not overlap in time, which the code does not ensure; \<open>concurrent_drawings_collide\<close>,
  \<open>interleaved_draws_stray\<close> and \<open>torn_word_faults\<close> are about the others. Races inside the audio calls are not modelled.

  \<^bold>\<open>Loops and fuel.\<close> The glyph loop \<open>expand\<close> takes fuel, one more than the bytes of the pixel buffer; without fuel it is
  \<open>Blocked\<close>, and \<open>DrawString_renders\<close> shows that it never is, for every drawable character. \<open>wait_mounted\<close> may run
  for ever and is a partial function. The loops of \<open>jsmn.h\<close> end because every turn moves the position on, those of \<open>adler32.c\<close>
  because every turn shortens the rest; \<open>NMAX\<close> is 5552, as in the code. All other loops are structural or have a termination proof.

  \<^bold>\<open>What the theorems assume.\<close> \<open>all_ok\<close>: every call below the drivers succeeds. \<open>polite\<close>: a server that, when it can
  be reached, answers with a word of at most 99 bytes and a sentence of at most 255, all characters
  drawable. \<open>bitmaps_ok\<close>: the bitmaps of the syllables have the sizes the font table gives them. The theorems
  on errors show what happens without them: \<open>long_word_overflows\<close>, \<open>DrawString_undrawable\<close>,
  \<open>DrawText_no_memory\<close>, \<open>ResetBackground_refused_blocks\<close>.

  \<^bold>\<open>Not modelled.\<close> The 11172 bitmaps of Hangul syllables (generated data; a parameter). Of the
  libraries under \<open>managed_components\<close> that come with ESP-ADF and that nothing in \<open>main\<close> or \<open>components\<close> calls, only the two
  above: not nghttp2, esp-dsp and cmake_utilities, not the rest of zlib, and not \<open>jsmn.h\<close> with its options
  \<open>JSMN_STRICT\<close> and \<open>JSMN_PARENT_LINKS\<close>, which its \<open>Kconfig\<close> has off. Log output, task priorities and stack sizes. The results of
  \<open>xTaskCreatePinnedToCore\<close>, \<open>esp_sleep_enable_ext0_wakeup\<close> and \<open>esp_wifi_set_ps\<close>, which \<open>Task_Init\<close> drops: they succeed. The colours of \<open>lcd_touch.c\<close>
  that no function uses.
\<close>

subsection \<open>Properties that span components\<close>

text \<open>The GPIOs of the display module, of the boot code and of the audio output.\<close>

definition lcd_pins :: "int list" where
  "lcd_pins = [LT_PIN_NUM_LCD_RST, int LT_PIN_NUM_BK_LIGHT, LT_PIN_NUM_LCD_DC, LT_PIN_NUM_LCD_CS, LT_PIN_NUM_MOSI,
     LT_PIN_NUM_SCLK, LT_PIN_NUM_MISO]"

definition touch_pins :: "int list" where
  "touch_pins = [LT_PIN_NUM_TOUCH_DIN, LT_PIN_NUM_TOUCH_CLK, LT_PIN_NUM_TOUCH_DO, LT_PIN_NUM_TOUCH_CS, LT_PIN_NUM_TOUCH_IRQ]"

definition i2s_pin_list :: "i2s_pins \<Rightarrow> int list" where
  "i2s_pin_list p = [mck_io_num p, bck_io_num p, ws_io_num p, data_out_num p, data_in_num p]"

lemmas pin_defs =
  lcd_pins_def touch_pins_def i2s_pin_list_def get_i2s_pins_def GPIO_NUM_14_def
  LT_PIN_NUM_LCD_RST_def LT_PIN_NUM_BK_LIGHT_def LT_PIN_NUM_LCD_DC_def LT_PIN_NUM_LCD_CS_def LT_PIN_NUM_MOSI_def
  LT_PIN_NUM_SCLK_def LT_PIN_NUM_MISO_def LT_PIN_NUM_TOUCH_DIN_def LT_PIN_NUM_TOUCH_CLK_def LT_PIN_NUM_TOUCH_DO_def
  LT_PIN_NUM_TOUCH_CS_def LT_PIN_NUM_TOUCH_IRQ_def

text \<open>
  The pins. No two lines of the LCD, the touch controller and the mute output share a pin, and
  neither do two of the I2S lines that \<open>get_i2s_pins\<close> gives for port 0, whatever the structure held
  before; but the data input of the I2S and the chip select of the touch controller are both on
  pin 39, the only pin the two groups share.
\<close>

lemma pins_shared:
  "\<exists>p. get_i2s_pins 0 (Some c) = (ESP_OK, Some p) \<and> distinct (lcd_pins @ touch_pins @ [int GPIO_NUM_14]) \<and>
     distinct (i2s_pin_list p) \<and>
     set (lcd_pins @ touch_pins @ [int GPIO_NUM_14]) \<inter> set (i2s_pin_list p) = {39} \<and>
     data_in_num p = LT_PIN_NUM_TOUCH_CS"
  by (auto simp: pin_defs)

end
